(* ===== verification/Omega_Prelude.thy ===== *)
theory Omega_Prelude
  imports Complex_Main "HOL-Library.Word"
begin

text \<open>
  Shared vocabulary of the development: the Python and numpy idioms the sources use, with the
  lemmas that let simplification carry the component proofs.

  Python integers are HOL's \<open>int\<close> (unbounded), Python floats are idealised as \<open>real\<close>
  (no rounding, no NaN, no infinities), one-dimensional numpy arrays are lists and
  two-dimensional ones lists of rows. An exception is a value of \<open>py_err\<close> on the left of a
  sum. A Python string is a list of bytes (its UTF-8 encoding).
\<close>

named_theorems vec_simps \<comment> \<open>lengths and elements of the numpy idioms below\<close>

section \<open>Exceptions as values\<close>

datatype py_err =
    IndexError
  | KeyError
  | OSError
  | TypeError
  | ValueError
  | RuntimeError
  | AttributeError
  | ZeroDivisionError
  | RegexError \<comment> \<open>\<open>re.error\<close>\<close>
  | AssertionError
  | ClientError \<comment> \<open>any error of the HTTP client library\<close>

fun foldE :: "('s \<Rightarrow> 'a \<Rightarrow> py_err + 's) \<Rightarrow> 's \<Rightarrow> 'a list \<Rightarrow> py_err + 's" where
  "foldE f s [] = Inr s"
| "foldE f s (x # xs) = (case f s x of Inl e \<Rightarrow> Inl e | Inr s' \<Rightarrow> foldE f s' xs)"

text \<open>
  The rule every loop invariant goes through: a body that never raises on the states the
  invariant describes and keeps it makes the whole loop return a state with the invariant.
\<close>

lemma foldE_invariant:
  assumes "P s" and "\<And>s x. P s \<Longrightarrow> x \<in> set xs \<Longrightarrow> \<exists>s'. f s x = Inr s' \<and> P s'"
  shows "\<exists>s'. foldE f s xs = Inr s' \<and> P s'"
  using assms
proof (induction xs arbitrary: s)
  case Nil
  then show ?case by simp
next
  case (Cons x xs)
  then obtain s' where "f s x = Inr s'" and "P s'" by fastforce
  moreover have "\<exists>t. foldE f s' xs = Inr t \<and> P t"
    using Cons.IH[OF \<open>P s'\<close>] Cons.prems(2) by simp
  ultimately show ?case by simp
qed

lemma foldE_preserves:
  assumes "foldE f s xs = Inr s'" and "P s" and "\<And>t x t'. P t \<Longrightarrow> x \<in> set xs \<Longrightarrow> f t x = Inr t' \<Longrightarrow> P t'"
  shows "P s'"
  using assms
proof (induction xs arbitrary: s)
  case (Cons x xs)
  obtain t where t: "f s x = Inr t" "foldE f t xs = Inr s'" using Cons.prems(1) by (auto split: sum.splits)
  have "P t" using Cons.prems(3)[OF Cons.prems(2) _ t(1)] by simp
  then show ?case using Cons.IH[OF t(2)] Cons.prems(3) by (meson list.set_intros(2))
qed simp

lemma foldE_append:
  "foldE f s (xs @ ys) = (case foldE f s xs of Inl e \<Rightarrow> Inl e | Inr s' \<Rightarrow> foldE f s' ys)"
  by (induction xs arbitrary: s) (auto split: sum.splits)

definition bindE :: "py_err + 'a \<Rightarrow> ('a \<Rightarrow> py_err + 'b) \<Rightarrow> py_err + 'b" where
  \<comment> \<open>the rest of a body, run unless an exception was raised\<close>
  "bindE m f = (case m of Inl e \<Rightarrow> Inl e | Inr x \<Rightarrow> f x)"

lemma bindE_simps [simp]: "bindE (Inl e) f = Inl e" "bindE (Inr x) f = f x"
  by (simp_all add: bindE_def)

lemma bindE_Inr_iff: "bindE m f = Inr y \<longleftrightarrow> (\<exists>x. m = Inr x \<and> f x = Inr y)"
  by (cases m) simp_all

fun mapE :: "('a \<Rightarrow> py_err + 'b) \<Rightarrow> 'a list \<Rightarrow> py_err + 'b list" where
  "mapE f [] = Inr []"
| "mapE f (x # xs) = bindE (f x) (\<lambda>y. bindE (mapE f xs) (\<lambda>ys. Inr (y # ys)))"

lemma mapE_Inr_iff: "mapE f xs = Inr ys \<longleftrightarrow> list_all2 (\<lambda>x y. f x = Inr y) xs ys"
proof (induction xs arbitrary: ys)
  case (Cons x xs)
  have "mapE f (x # xs) = Inr ys \<longleftrightarrow> (\<exists>y zs. f x = Inr y \<and> mapE f xs = Inr zs \<and> ys = y # zs)"
    by (auto simp: bindE_Inr_iff)
  then show ?case by (auto simp: Cons list_all2_Cons1)
qed auto

lemma mapE_map: "(\<forall>x \<in> set xs. f x = Inr (g x)) \<Longrightarrow> mapE f xs = Inr (map g xs)"
  by (induction xs) auto

lemma mapE_total:
  "(\<forall>x \<in> set xs. \<exists>y. f x = Inr y \<and> P y) \<Longrightarrow> \<exists>ys. mapE f xs = Inr ys \<and> length ys = length xs \<and> (\<forall>y \<in> set ys. P y)"
  by (induction xs) force+

section \<open>Indexing\<close>

definition py_index :: "nat \<Rightarrow> int \<Rightarrow> nat option" where
  \<comment> \<open>the position a Python or numpy index names, counting from the end when negative\<close>
  "py_index n i =
     (if 0 \<le> i \<and> i < int n then Some (nat i)
      else if - int n \<le> i \<and> i < 0 then Some (nat (int n + i))
      else None)"

definition py_get :: "'a list \<Rightarrow> int \<Rightarrow> py_err + 'a" where
  "py_get xs i = (case py_index (length xs) i of None \<Rightarrow> Inl IndexError | Some j \<Rightarrow> Inr (xs ! j))"

definition py_set :: "'a list \<Rightarrow> int \<Rightarrow> 'a \<Rightarrow> py_err + 'a list" where
  "py_set xs i v =
     (case py_index (length xs) i of None \<Rightarrow> Inl IndexError | Some j \<Rightarrow> Inr (xs[j := v]))"

lemma py_index_less: "py_index n i = Some j \<Longrightarrow> j < n"
  by (auto simp: py_index_def split: if_splits)

lemma py_index_nat [simp]: "i < n \<Longrightarrow> py_index n (int i) = Some i"
  by (simp add: py_index_def)

lemma py_index_0 [simp]: "0 < n \<Longrightarrow> py_index n 0 = Some 0"
  by (simp add: py_index_def)

lemma py_index_1 [simp]: "1 < n \<Longrightarrow> py_index n 1 = Some 1"
  by (simp add: py_index_def)

lemma py_index_numeral [simp]: "numeral k < n \<Longrightarrow> py_index n (numeral k) = Some (numeral k)"
  by (simp add: py_index_def)

lemma py_index_None: "py_index n i = None \<longleftrightarrow> i < - int n \<or> int n \<le> i"
  by (auto simp: py_index_def)

lemma py_get_nat [simp]: "i < length xs \<Longrightarrow> py_get xs (int i) = Inr (xs ! i)"
  by (simp add: py_get_def)

lemma py_set_nat [simp]: "i < length xs \<Longrightarrow> py_set xs (int i) v = Inr (xs[i := v])"
  by (simp add: py_set_def)

section \<open>Numbers\<close>

definition py_int :: "real \<Rightarrow> int" where
  \<comment> \<open>the conversion \<open>int(x)\<close>: truncation towards zero\<close>
  "py_int x = (if 0 \<le> x then \<lfloor>x\<rfloor> else \<lceil>x\<rceil>)"

lemma py_int_of_int [simp]: "py_int (real_of_int k) = k"
  by (simp add: py_int_def)

lemma py_int_of_nat [simp]: "py_int (real n) = int n"
  by (simp add: py_int_def)

lemma py_int_numeral [simp]: "py_int (numeral k) = numeral k"
  by (simp add: py_int_def)

lemma py_int_0_1 [simp]: "py_int 0 = 0" "py_int 1 = 1"
  by (simp_all add: py_int_def)

lemma py_int_nonneg: "0 \<le> x \<Longrightarrow> 0 \<le> py_int x"
  by (simp add: py_int_def)

lemma py_int_le: "0 \<le> x \<Longrightarrow> real_of_int (py_int x) \<le> x"
  by (simp add: py_int_def)

lemma py_int_eqI: "real_of_int k \<le> x \<Longrightarrow> x < real_of_int k + 1 \<Longrightarrow> 0 \<le> x \<Longrightarrow> py_int x = k"
  by (simp add: py_int_def floor_eq_iff)

definition np_clip :: "real \<Rightarrow> real \<Rightarrow> real \<Rightarrow> real" where
  "np_clip x lo hi = min (max x lo) hi"

lemma np_clip_range: "lo \<le> hi \<Longrightarrow> lo \<le> np_clip x lo hi \<and> np_clip x lo hi \<le> hi"
  by (simp add: np_clip_def)

lemma np_clip_id: "lo \<le> x \<Longrightarrow> x \<le> hi \<Longrightarrow> np_clip x lo hi = x"
  by (simp add: np_clip_def)

definition flag :: "bool \<Rightarrow> real" where
  "flag b = (if b then 1 else 0)"

lemma flag_simps [simp]: "flag True = 1" "flag False = 0"
  by (simp_all add: flag_def)

lemma flag_nonneg [simp]: "0 \<le> flag b"
  by (simp add: flag_def)

section \<open>Vectors\<close>

definition vmean :: "real list \<Rightarrow> real" where
  "vmean xs = sum_list xs / real (length xs)"

definition np_max :: "real list \<Rightarrow> real" where
  "np_max xs = foldr max (tl xs) (hd xs)"

definition np_min :: "real list \<Rightarrow> real" where
  "np_min xs = foldr min (tl xs) (hd xs)"

definition np_argmin :: "real list \<Rightarrow> nat" where
  \<comment> \<open>the first position of the smallest entry\<close>
  "np_argmin xs = length (takeWhile (\<lambda>x. x \<noteq> np_min xs) xs)"

definition np_argmax :: "real list \<Rightarrow> nat" where
  \<comment> \<open>the first position of the largest entry\<close>
  "np_argmax xs = length (takeWhile (\<lambda>x. x \<noteq> np_max xs) xs)"

definition last_n :: "nat \<Rightarrow> 'a list \<Rightarrow> 'a list" where
  \<comment> \<open>the slice \<open>xs[-n:]\<close> for positive \<open>n\<close>\<close>
  "last_n n xs = drop (length xs - n) xs"

definition roll_left :: "'a list \<Rightarrow> 'a list" where
  \<comment> \<open>\<open>np.roll(xs, -1)\<close>\<close>
  "roll_left xs = (case xs of [] \<Rightarrow> [] | x # r \<Rightarrow> r @ [x])"

definition set_last :: "'a list \<Rightarrow> 'a \<Rightarrow> 'a list" where
  \<comment> \<open>\<open>xs[-1] = v\<close>\<close>
  "set_last xs v = xs[length xs - 1 := v]"

definition shift_in :: "'a list \<Rightarrow> 'a \<Rightarrow> 'a list" where
  \<comment> \<open>the history update: \<open>xs = np.roll(xs, -1); xs[-1] = v\<close>\<close>
  "shift_in xs v = set_last (roll_left xs) v"

lemma length_roll_left [vec_simps, simp]: "length (roll_left xs) = length xs"
  by (cases xs) (simp_all add: roll_left_def)

lemma length_set_last [vec_simps, simp]: "length (set_last xs v) = length xs"
  by (simp add: set_last_def)

lemma length_shift_in [vec_simps, simp]: "length (shift_in xs v) = length xs"
  by (simp add: shift_in_def)

lemma shift_in_eq: "xs \<noteq> [] \<Longrightarrow> shift_in xs v = tl xs @ [v]"
  by (cases xs) (simp_all add: shift_in_def roll_left_def set_last_def)

lemma last_shift_in: "xs \<noteq> [] \<Longrightarrow> last (shift_in xs v) = v"
  by (simp add: shift_in_eq)

lemma set_shift_in: "set (shift_in xs v) \<subseteq> insert v (set xs)"
  by (cases xs) (auto simp: shift_in_eq, simp add: shift_in_def roll_left_def set_last_def)

lemma length_last_n [vec_simps]: "length (last_n n xs) = min n (length xs)"
  by (simp add: last_n_def)

lemma set_last_n: "set (last_n n xs) \<subseteq> set xs"
  by (simp add: last_n_def set_drop_subset)

lemma sum_list_nonneg_list: "(\<forall>x \<in> set xs. 0 \<le> x) \<Longrightarrow> 0 \<le> sum_list (xs :: real list)"
  by (induction xs) auto

lemma sum_list_le_length:
  "(\<forall>x \<in> set xs. x \<le> c) \<Longrightarrow> sum_list (xs :: real list) \<le> c * real (length xs)"
  by (induction xs) (auto simp: algebra_simps)

lemma sum_list_ge_length:
  "(\<forall>x \<in> set xs. c \<le> x) \<Longrightarrow> c * real (length xs) \<le> sum_list (xs :: real list)"
  by (induction xs) (auto simp: algebra_simps)

lemma vmean_bounds:
  assumes "xs \<noteq> []" and "\<forall>x \<in> set xs. lo \<le> x \<and> x \<le> hi"
  shows "lo \<le> vmean xs \<and> vmean xs \<le> hi"
proof -
  have pos: "0 < real (length xs)" using assms(1) by simp
  have "sum_list xs \<le> hi * real (length xs)" using assms(2) by (intro sum_list_le_length) simp
  moreover have "lo * real (length xs) \<le> sum_list xs"
    using assms(2) by (intro sum_list_ge_length) simp
  ultimately show ?thesis using pos by (simp add: vmean_def field_simps)
qed

lemma sum_list_set: "i < length xs \<Longrightarrow> sum_list (xs[i := v]) = sum_list xs + v - (xs ! i :: real)"
  by (induction xs arbitrary: i) (auto split: nat.splits)

lemma sum_list_map_divide: "sum_list (map (\<lambda>x. f x / (c::real)) xs) = sum_list (map f xs) / c"
  by (induction xs) (simp_all add: add_divide_distrib)

lemma member_le_sum_list_real:
  "x \<in> set xs \<Longrightarrow> (\<forall>y \<in> set xs. 0 \<le> y) \<Longrightarrow> x \<le> sum_list (xs :: real list)"
proof (induction xs)
  case (Cons a xs)
  then show ?case using sum_list_nonneg_list[of xs] by (cases "x = a") auto
qed simp

lemma np_max_Cons [simp]: "np_max (x # xs) = foldr max xs x"
  by (simp add: np_max_def)

lemma foldr_max_ge: "y \<in> insert a (set xs) \<Longrightarrow> (y::real) \<le> foldr max xs a"
  by (induction xs) auto

lemma foldr_max_in: "foldr max xs (a::real) \<in> insert a (set xs)"
  by (induction xs) (auto simp: max_def)

lemma np_max_ge: "y \<in> set xs \<Longrightarrow> y \<le> np_max xs"
  using foldr_max_ge[of y "hd xs" "tl xs"] by (cases xs) auto

lemma np_max_in: "xs \<noteq> [] \<Longrightarrow> np_max xs \<in> set xs"
  using foldr_max_in[of "tl xs" "hd xs"] by (cases xs) auto

lemma np_min_le: "y \<in> set xs \<Longrightarrow> np_min xs \<le> y"
proof -
  have "foldr min zs a \<le> y" if "y \<in> insert a (set zs)" for a y :: real and zs
    using that by (induction zs) auto
  then show "y \<in> set xs \<Longrightarrow> np_min xs \<le> y" by (cases xs) (auto simp: np_min_def)
qed

lemma np_min_in: "xs \<noteq> [] \<Longrightarrow> np_min xs \<in> set xs"
proof -
  have "foldr min zs a \<in> insert a (set zs)" for a :: real and zs
    by (induction zs) (auto simp: min_def)
  then show "xs \<noteq> [] \<Longrightarrow> np_min xs \<in> set xs" by (cases xs) (auto simp: np_min_def)
qed

lemma first_position:
  "x \<in> set xs \<Longrightarrow> length (takeWhile (\<lambda>y. y \<noteq> x) xs) < length xs \<and> xs ! length (takeWhile (\<lambda>y. y \<noteq> x) xs) = x"
  by (induction xs) auto

lemma np_argmin_less: "xs \<noteq> [] \<Longrightarrow> np_argmin xs < length xs \<and> xs ! np_argmin xs = np_min xs"
  unfolding np_argmin_def by (intro first_position np_min_in)

lemma sorted_last: "sorted xs \<Longrightarrow> x \<in> set xs \<Longrightarrow> x \<le> last xs"
  by (induction xs) auto

definition np_bin :: "('a \<Rightarrow> 'a \<Rightarrow> 'a) \<Rightarrow> 'a list \<Rightarrow> 'a list \<Rightarrow> py_err + 'a list" where
  \<comment> \<open>an elementwise operator on one-dimensional arrays, with numpy's broadcasting\<close>
  "np_bin f xs ys =
     (if length xs = length ys then Inr (map2 f xs ys)
      else if length xs = 1 then Inr (map (f (hd xs)) ys)
      else if length ys = 1 then Inr (map (\<lambda>x. f x (hd ys)) xs)
      else Inl ValueError)"

lemma np_bin_same [simp]: "length xs = length ys \<Longrightarrow> np_bin f xs ys = Inr (map2 f xs ys)"
  by (simp add: np_bin_def)

lemma np_bin_length:
  "np_bin f xs ys = Inr zs \<Longrightarrow> ys \<noteq> [] \<Longrightarrow> length ys \<noteq> 1 \<or> length xs = 1 \<Longrightarrow> length zs = length ys"
  by (auto simp: np_bin_def split: if_splits)

section \<open>Probability vectors\<close>

text \<open>What every stage of the routing pipeline promises of its weights.\<close>

definition is_dist :: "real list \<Rightarrow> bool" where
  "is_dist w \<longleftrightarrow> (\<forall>x \<in> set w. 0 \<le> x) \<and> sum_list w = 1"

lemma is_dist_le_one: "is_dist w \<Longrightarrow> x \<in> set w \<Longrightarrow> 0 \<le> x \<and> x \<le> 1"
  using member_le_sum_list_real[of x w] by (auto simp: is_dist_def)

lemma is_dist_normalise:
  assumes "\<forall>x \<in> set w. 0 \<le> x" and "0 < sum_list w"
  shows "is_dist (map (\<lambda>x. x / sum_list w) w)"
  using assms by (auto simp: is_dist_def sum_list_map_divide[of "\<lambda>x. x"])

lemma is_dist_uniform: "0 < n \<Longrightarrow> is_dist (replicate n (1 / real n))"
  by (simp add: is_dist_def sum_list_replicate)

lemma zip_memD: "(a, b) \<in> set (zip xs ys) \<Longrightarrow> a \<in> set xs \<and> b \<in> set ys"
  by (metis set_zip_leftD set_zip_rightD)

lemma map2_replicate: "length xs = n \<Longrightarrow> map2 f xs (replicate n c) = map (\<lambda>x. f x c) xs"
  by (induction xs arbitrary: n) auto

lemma map2_affine_sum:
  "length xs = length ys \<Longrightarrow> sum_list (map2 (\<lambda>x y. a * x + c * y) xs ys) = a * sum_list xs + c * sum_list (ys :: real list)"
  by (induction xs ys rule: list_induct2) (simp_all add: algebra_simps)

lemma is_dist_mix:
  assumes "is_dist w" and "is_dist p" and "length w = length p" and "0 \<le> a" and "0 \<le> c" and "a + c = 1"
  shows "is_dist (map2 (\<lambda>x y. a * x + c * y) w p)"
proof -
  have "0 \<le> x" if "x \<in> set (map2 (\<lambda>x y. a * x + c * y) w p)" for x
  proof -
    from that obtain u v where "(u, v) \<in> set (zip w p)" and x: "x = a * u + c * v" by auto
    then have "0 \<le> u" "0 \<le> v" using assms(1,2) by (auto simp: is_dist_def dest: set_zip_leftD set_zip_rightD)
    then show ?thesis using assms(4,5) by (simp add: x)
  qed
  then show ?thesis using assms by (simp add: is_dist_def map2_affine_sum)
qed

section \<open>Histories\<close>

text \<open>Two-dimensional arrays of recorded values: \<open>n\<close> rows of length \<open>len\<close>, every entry of a kind.\<close>

definition rows_of :: "('a \<Rightarrow> bool) \<Rightarrow> nat \<Rightarrow> nat \<Rightarrow> 'a list list \<Rightarrow> bool" where
  "rows_of P n len rows \<longleftrightarrow> length rows = n \<and> (\<forall>row \<in> set rows. length row = len \<and> (\<forall>x \<in> set row. P x))"

lemma rows_of_replicate: "P x \<Longrightarrow> rows_of P n len (replicate n (replicate len x))"
  by (auto simp: rows_of_def)

lemma rows_of_shift:
  assumes "rows_of P n len rows" and "length vs = n" and "\<forall>v \<in> set vs. P v"
  shows "rows_of P n len (map2 shift_in rows vs)"
proof -
  have "length row = len \<and> (\<forall>x \<in> set row. P x)" if "row \<in> set (map2 shift_in rows vs)" for row
  proof -
    from that obtain r v where "(r, v) \<in> set (zip rows vs)" and row: "row = shift_in r v"
      by (auto simp: image_iff)
    then have "r \<in> set rows" "v \<in> set vs" by (auto dest: set_zip_leftD set_zip_rightD)
    then show ?thesis using assms(1,3) set_shift_in[of r v] unfolding row by (auto simp: rows_of_def)
  qed
  then show ?thesis using assms(1,2) by (simp add: rows_of_def)
qed

lemma rows_of_nth:
  "rows_of P n len rows \<Longrightarrow> i < n \<Longrightarrow> t < len \<Longrightarrow> P (rows ! i ! t)"
  unfolding rows_of_def by (metis nth_mem)

lemma rows_of_length: "rows_of P n len rows \<Longrightarrow> length rows = n"
  by (simp add: rows_of_def)

section \<open>Invariants of step relations\<close>

locale invariant_system =
  fixes start :: "'s \<Rightarrow> bool"
    and step :: "'s \<Rightarrow> 's \<Rightarrow> bool"
    and inv :: "'s \<Rightarrow> bool"
  assumes start_inv: "start s \<Longrightarrow> inv s"
    and step_inv: "inv s \<Longrightarrow> step s s' \<Longrightarrow> inv s'"
begin

lemma run_inv: "step\<^sup>*\<^sup>* s s' \<Longrightarrow> inv s \<Longrightarrow> inv s'"
  by (induction rule: rtranclp_induct) (auto intro: step_inv)

lemma reached_inv: "start s \<Longrightarrow> step\<^sup>*\<^sup>* s s' \<Longrightarrow> inv s'"
  by (blast intro: run_inv start_inv)

end

section \<open>Bounded queues\<close>

definition deque_push :: "nat \<Rightarrow> 'a list \<Rightarrow> 'a \<Rightarrow> 'a list" where
  \<comment> \<open>\<open>append\<close> on a \<open>deque(maxlen=m)\<close>: the oldest entries fall out on the left\<close>
  "deque_push m xs x = drop (length (xs @ [x]) - m) (xs @ [x])"

locale bounded_log =
  fixes push :: "'l \<Rightarrow> 'a \<Rightarrow> 'l"
    and entries :: "'l \<Rightarrow> 'a list"
    and limit :: nat
  assumes entries_push: "length (entries l) \<le> limit \<Longrightarrow> length (entries (push l x)) \<le> limit"
    and push_set: "set (entries (push l x)) \<subseteq> insert x (set (entries l))"
begin

lemma push_all_bounded:
  "length (entries l) \<le> limit \<Longrightarrow> length (entries (foldl push l xs)) \<le> limit"
  by (induction xs arbitrary: l) (simp_all add: entries_push)

lemma push_all_set: "set (entries (foldl push l xs)) \<subseteq> set (entries l) \<union> set xs"
proof (induction xs arbitrary: l)
  case (Cons x xs)
  then show ?case using push_set[of l x] by fastforce
qed simp

end

lemma length_deque_push [vec_simps]: "length (deque_push m xs x) = min m (length xs + 1)"
  by (simp add: deque_push_def)

lemma set_deque_push: "set (deque_push m xs x) \<subseteq> insert x (set xs)"
  using set_drop_subset[of "length (xs @ [x]) - m" "xs @ [x]"] by (simp add: deque_push_def)

lemma last_deque_push: "0 < m \<Longrightarrow> last (deque_push m xs x) = x"
  by (simp add: deque_push_def)

lemma deque_push_small: "length xs < m \<Longrightarrow> deque_push m xs x = xs @ [x]"
  by (simp add: deque_push_def)

section \<open>Decimal numerals and strings\<close>

fun dec_digit :: "nat \<Rightarrow> char" where
  "dec_digit d = char_of (48 + d)"

fun nat_str :: "nat \<Rightarrow> string" where
  \<comment> \<open>\<open>str(n)\<close> of a non-negative integer\<close>
  "nat_str n = (if n < 10 then [dec_digit n] else nat_str (n div 10) @ [dec_digit (n mod 10)])"

declare nat_str.simps [simp del]

definition encode :: "string \<Rightarrow> 8 word list" where
  "encode s = map of_char s"

lemma length_encode [simp]: "length (encode s) = length s"
  by (simp add: encode_def)

end
