(* ===== verification/Murmur_Hash.thy ===== *)
theory Murmur_Hash
  imports Omega_Prelude
begin

unbundle bit_operations_syntax

text \<open>
  The hash of the ring: \<open>_murmur3_32\<close> of \<open>demo/proxy.py\<close> on Python integers with explicit
  masks, a reference MurmurHash3 on 32-bit words, and \<open>murmur3_32\<close> of
  \<open>controlplane/internal/ring/ring.go\<close>, which the Python comment says it matches.
  The lemmas show that the masked integers compute the word-level reference, and how the Go
  routine differs from both.
\<close>

section \<open>The Python routine\<close>

definition unpack_u32 :: "8 word list \<Rightarrow> nat \<Rightarrow> int" where
  \<comment> \<open>\<open>struct.unpack_from("<I", data, i)[0]\<close>\<close>
  "unpack_u32 data i =
     uint (data ! i) + 256 * uint (data ! (i + 1)) + 65536 * uint (data ! (i + 2))
       + 16777216 * uint (data ! (i + 3))"

definition mix_k :: "int \<Rightarrow> int" where
  "mix_k k =
     (let k = (k * 0xCC9E2D51) AND 0xFFFFFFFF;
          k = (push_bit 15 k OR drop_bit 17 k) AND 0xFFFFFFFF
      in (k * 0x1B873593) AND 0xFFFFFFFF)"

definition mix_h :: "int \<Rightarrow> int \<Rightarrow> int" where
  "mix_h h k =
     (let h = h XOR mix_k k;
          h = (push_bit 13 h OR drop_bit 19 h) AND 0xFFFFFFFF
      in (h * 5 + 0xE6546B64) AND 0xFFFFFFFF)"

function murmur_blocks :: "8 word list \<Rightarrow> nat \<Rightarrow> int \<Rightarrow> int" where
  \<comment> \<open>\<open>for i in range(0, length - 3, 4)\<close>\<close>
  "murmur_blocks data i h =
     (if i + 3 < length data then murmur_blocks data (i + 4) (mix_h h (unpack_u32 data i)) else h)"
  by pat_completeness auto
termination
  by (relation "measure (\<lambda>(data, i, h). length data - i)") auto

declare murmur_blocks.simps [simp del]

definition fmix :: "int \<Rightarrow> int" where
  "fmix h =
     (let h = h XOR drop_bit 16 h;
          h = (h * 0x85EBCA6B) AND 0xFFFFFFFF;
          h = h XOR drop_bit 13 h;
          h = (h * 0xC2B2AE35) AND 0xFFFFFFFF
      in h XOR drop_bit 16 h)"

definition murmur3_32 :: "8 word list \<Rightarrow> int \<Rightarrow> int" where
  "murmur3_32 data seed =
     (let len = length data;
          h = murmur_blocks data 0 (seed AND 0xFFFFFFFF);
          tail_len = len mod 4;
          tail = drop (len - tail_len) data @ replicate (4 - tail_len) 0;
          h = (if tail_len \<noteq> 0 then h XOR mix_k (unpack_u32 tail 0) else h)
      in fmix (h XOR int len))"

section \<open>The reference on 32-bit words\<close>

definition le_word :: "8 word \<Rightarrow> 8 word \<Rightarrow> 8 word \<Rightarrow> 8 word \<Rightarrow> 32 word" where
  "le_word a b c d = ucast a + 256 * ucast b + 65536 * ucast c + 16777216 * ucast d"

definition wmix_k :: "32 word \<Rightarrow> 32 word" where
  "wmix_k k =
     (let k = k * 0xCC9E2D51;
          k = push_bit 15 k OR drop_bit 17 k
      in k * 0x1B873593)"

definition wmix_h :: "32 word \<Rightarrow> 32 word \<Rightarrow> 32 word" where
  "wmix_h h k =
     (let h = h XOR wmix_k k;
          h = push_bit 13 h OR drop_bit 19 h
      in h * 5 + 0xE6546B64)"

definition wfmix :: "32 word \<Rightarrow> 32 word" where
  "wfmix h =
     (let h = h XOR drop_bit 16 h;
          h = h * 0x85EBCA6B;
          h = h XOR drop_bit 13 h;
          h = h * 0xC2B2AE35
      in h XOR drop_bit 16 h)"

fun wblocks :: "32 word \<Rightarrow> 8 word list \<Rightarrow> 32 word \<times> 8 word list" where
  "wblocks h (a # b # c # d # rest) = wblocks (wmix_h h (le_word a b c d)) rest"
| "wblocks h rest = (h, rest)"

fun wtail :: "8 word list \<Rightarrow> 32 word" where
  "wtail [a] = wmix_k (le_word a 0 0 0)"
| "wtail [a, b] = wmix_k (le_word a b 0 0)"
| "wtail [a, b, c] = wmix_k (le_word a b c 0)"
| "wtail _ = 0"

definition murmur_ref :: "32 word \<Rightarrow> 8 word list \<Rightarrow> 32 word" where
  "murmur_ref seed data =
     (case wblocks seed data of (h, rest) \<Rightarrow>
        wfmix ((h XOR wtail rest) XOR word_of_nat (length data)))"

definition go_murmur3_32 :: "8 word list \<Rightarrow> 32 word" where
  \<comment> \<open>\<open>murmur3_32\<close> of \<open>ring.go\<close>: its own seed, and the length of what the loop left over\<close>
  "go_murmur3_32 data =
     (case wblocks 0x9747B28C data of (h, rest) \<Rightarrow>
        wfmix ((h XOR wtail rest) XOR word_of_nat (length rest)))"

section \<open>The masked integers compute the words\<close>

named_theorems to_word \<comment> \<open>equations pushing \<open>uint\<close> out of masked integer arithmetic\<close>

lemma and_mask32 [to_word]: "(x::int) AND 0xFFFFFFFF = take_bit 32 x"
  using take_bit_eq_mask[of 32 x] by (simp add: mask_eq_exp_minus_1)

lemma mask_mult [to_word]: "take_bit 32 (uint (w :: 32 word) * c) = uint (w * word_of_int c)"
  by (simp add: uint_word_ariths take_bit_eq_mod uint_word_of_int mod_mult_right_eq)

lemma mask_mult_add [to_word]:
  "take_bit 32 (uint (w :: 32 word) * c + d) = uint (w * word_of_int c + word_of_int d)"
  by (simp add: uint_word_ariths take_bit_eq_mod uint_word_of_int mod_simps)

lemma mask_uint [to_word]: "take_bit 32 (uint (w :: 32 word)) = uint w"
  by (rule bintr_uint) simp

lemma mask_push [to_word]: "take_bit 32 (push_bit n (uint (w :: 32 word))) = uint (push_bit n w)"
  by (simp add: unsigned_push_bit_eq)

lemma uint_drop [to_word]: "drop_bit m (uint (w :: 32 word)) = uint (drop_bit m w)"
  by (simp add: unsigned_drop_bit_eq mask_uint)

lemmas [to_word] = uint_xor [symmetric] uint_or [symmetric] take_bit_or

lemma mix_k_word: "mix_k (uint k) = uint (wmix_k k)"
  by (simp add: mix_k_def wmix_k_def Let_def to_word)

lemma mix_h_word: "mix_h (uint h) (uint k) = uint (wmix_h h k)"
  by (simp add: mix_h_def wmix_h_def Let_def mix_k_word to_word)

lemma fmix_word: "fmix (uint h) = uint (wfmix h)"
  by (simp add: fmix_def wfmix_def Let_def to_word)

lemma uint_le_word:
  "uint (le_word a b c d) = uint a + 256 * uint b + 65536 * uint c + 16777216 * uint d"
proof -
  have "uint a < 256" "uint b < 256" "uint c < 256" "uint d < 256"
    using uint_lt2p[of a] uint_lt2p[of b] uint_lt2p[of c] uint_lt2p[of d] by simp_all
  then show ?thesis
    by (simp add: le_word_def uint_word_ariths unsigned_ucast_eq take_bit_eq_mod mod_simps)
qed

lemma wblocks_short: "length xs < 4 \<Longrightarrow> wblocks h xs = (h, xs)"
  by (induction h xs rule: wblocks.induct) simp_all

lemma wblocks_rest: "snd (wblocks h xs) = drop (length xs - length xs mod 4) xs"
proof (induction h xs rule: wblocks.induct)
  case (1 h a b c d rest)
  have "length (a # b # c # d # rest) - length (a # b # c # d # rest) mod 4
      = Suc (Suc (Suc (Suc (length rest - length rest mod 4))))"
    by (simp add: Suc_diff_le)
  then show ?case using 1 by (simp only: drop_Suc_Cons wblocks.simps)
qed simp_all

lemma murmur_blocks_short: "length (drop i data) < 4 \<Longrightarrow> murmur_blocks data i h = h"
  by (subst murmur_blocks.simps) auto

lemma unpack_u32_drop:
  assumes "drop i data = a # b # c # d # rest"
  shows "unpack_u32 data i = uint (le_word a b c d)"
proof -
  have len: "i + 3 < length data"
    using arg_cong[OF assms, of length] by simp
  have el: "data ! (i + j) = (a # b # c # d # rest) ! j" if "j < 4" for j
    using that len by (simp flip: assms add: nth_drop)
  show ?thesis
    using el[of 0] el[of 1] el[of 2] el[of 3]
    by (simp add: unpack_u32_def uint_le_word numeral_2_eq_2 numeral_3_eq_3)
qed

lemma murmur_blocks_word:
  "drop i data = xs \<Longrightarrow> murmur_blocks data i (uint h) = uint (fst (wblocks h xs))"
proof (induction h xs arbitrary: i rule: wblocks.induct)
  case (1 h a b c d rest)
  have len: "i + 3 < length data"
    using arg_cong[OF "1.prems", of length] by simp
  have "drop 4 (drop i data) = rest" by (simp add: "1.prems")
  then have "drop (i + 4) data = rest" by (simp add: add.commute[of i])
  with "1.IH" len unpack_u32_drop[OF "1.prems"] show ?case
    by (subst murmur_blocks.simps) (simp add: mix_h_word)
qed (simp_all add: murmur_blocks_short)

lemma wtail_unpack:
  assumes "length xs < 4" and "xs \<noteq> []"
  shows "mix_k (unpack_u32 (xs @ replicate (4 - length xs) 0) 0) = uint (wtail xs)"
proof -
  have "\<exists>a b c. xs = [a] \<or> xs = [a, b] \<or> xs = [a, b, c]"
    using assms by (auto simp: length_Suc_conv less_Suc_eq eval_nat_numeral)
  then show ?thesis
    by (auto simp: unpack_u32_def uint_le_word mix_k_word eval_nat_numeral
        simp flip: mix_k_word)
qed

lemma murmur_int_word:
  assumes "length data < 2 ^ 32"
  shows "murmur3_32 data (uint seed) = uint (murmur_ref seed data)"
proof -
  define rest where "rest = drop (length data - length data mod 4) data"
  define h where "h = fst (wblocks seed data)"
  have w: "wblocks seed data = (h, rest)"
    by (simp add: h_def rest_def wblocks_rest prod_eq_iff)
  have blocks: "murmur_blocks data 0 (uint seed) = uint h"
    using murmur_blocks_word[of 0 data data seed] by (simp add: h_def)
  have len_rest: "length rest = length data mod 4"
    by (simp add: rest_def)
  have tail: "uint h XOR mix_k (unpack_u32 (rest @ replicate (4 - length data mod 4) 0) 0)
      = uint (h XOR wtail rest)" if "length data mod 4 \<noteq> 0"
    using wtail_unpack[of rest] len_rest that by (cases "rest = []") (simp_all add: uint_xor)
  have no_tail: "wtail rest = 0" if "length data mod 4 = 0"
    using len_rest that by simp
  have len: "int (length data) = uint (word_of_nat (length data) :: 32 word)"
    using assms by (simp add: uint_word_of_int take_bit_eq_mod unsigned_of_nat flip: of_nat_mod)
  have seed: "uint seed AND 0xFFFFFFFF = uint seed" by (simp add: to_word)
  show ?thesis
  proof (cases "length data mod 4 = 0")
    case True
    then show ?thesis
      unfolding murmur3_32_def murmur_ref_def Let_def w rest_def[symmetric] seed blocks len
      by (simp add: no_tail fmix_word uint_xor [symmetric])
  next
    case False
    then show ?thesis
      unfolding murmur3_32_def murmur_ref_def Let_def w rest_def[symmetric] seed blocks len
      by (simp add: tail) (simp only: fmix_word uint_xor [symmetric])
  qed
qed

lemma murmur3_32_range:
  assumes "length data < 2 ^ 32" and "0 \<le> seed" and "seed < 2 ^ 32"
  shows "0 \<le> murmur3_32 data seed \<and> murmur3_32 data seed < 2 ^ 32"
proof -
  have "seed = uint (word_of_int seed :: 32 word)"
    using assms(2,3) by (simp add: uint_word_of_int)
  then show ?thesis
    using murmur_int_word[OF assms(1), of "word_of_int seed"] uint_lt2p[of "murmur_ref (word_of_int seed) data"]
    by simp
qed

section \<open>The Go routine\<close>

lemma drop_bit_ge_32: "32 \<le> n \<Longrightarrow> drop_bit n (w :: 32 word) = 0"
  by (rule bit_word_eqI) (auto simp: bit_simps dest: bit_imp_le_length)

lemma xorshift16_inj: "h XOR drop_bit 16 h = g XOR drop_bit 16 g \<Longrightarrow> h = (g :: 32 word)"
proof -
  have inv: "w = (w XOR drop_bit 16 w) XOR drop_bit 16 (w XOR drop_bit 16 w)" for w :: "32 word"
    by (simp add: drop_bit_ge_32 xor.assoc)
  assume "h XOR drop_bit 16 h = g XOR drop_bit 16 g"
  then show ?thesis using inv[of h] inv[of g] by metis
qed

lemma xorshift13_inj: "h XOR drop_bit 13 h = g XOR drop_bit 13 g \<Longrightarrow> h = (g :: 32 word)"
proof -
  have inv: "w = (w XOR drop_bit 13 w) XOR drop_bit 13 (w XOR drop_bit 13 w)
      XOR drop_bit 26 (w XOR drop_bit 13 w)" for w :: "32 word"
    by (simp add: drop_bit_ge_32 xor.assoc)
  assume "h XOR drop_bit 13 h = g XOR drop_bit 13 g"
  then show ?thesis using inv[of h] inv[of g] by metis
qed

lemma mult_unit_inj:
  assumes "c * d = 1" and "h * c = g * c"
  shows "h = (g :: 32 word)"
proof -
  have "h * c * d = g * c * d" using assms(2) by simp
  then show ?thesis using assms(1) by (simp add: mult.assoc)
qed

lemma wfmix_inj:
  assumes "wfmix h = wfmix g"
  shows "h = g"
proof -
  let ?a = "\<lambda>x :: 32 word. x XOR drop_bit 16 x"
  let ?b = "\<lambda>x. ?a x * 0x85EBCA6B"
  let ?c = "\<lambda>x. ?b x XOR drop_bit 13 (?b x)"
  have "?a (?c h * 0xC2B2AE35) = ?a (?c g * 0xC2B2AE35)"
    using assms unfolding wfmix_def Let_def .
  then have "?c h * 0xC2B2AE35 = ?c g * 0xC2B2AE35" by (rule xorshift16_inj)
  then have "?c h = ?c g" by (rule mult_unit_inj[of _ 2127672349, rotated]) simp
  then have "?b h = ?b g" by (rule xorshift13_inj)
  then have "?a h = ?a g" by (rule mult_unit_inj[of _ 2781581891, rotated]) simp
  then show ?thesis by (rule xorshift16_inj)
qed

lemma xor_left_inj:
  assumes "(h :: 32 word) XOR a = h XOR b"
  shows "a = b"
proof -
  have "h XOR (h XOR a) = h XOR (h XOR b)" using assms by simp
  then show ?thesis by (simp flip: xor.assoc)
qed

text \<open>
  For no key of four bytes or more (below \<open>2^32\<close> bytes) does the Go routine return the
  MurmurHash3 of the key under its own seed: it mixes in the length of the tail its loop left,
  not of the key, so the ring positions of the two programs cannot match.
\<close>

theorem go_murmur_not_murmur3:
  assumes "4 \<le> length data" and "length data < 2 ^ 32"
  shows "uint (go_murmur3_32 data) \<noteq> murmur3_32 data 0x9747B28C"
proof
  assume eq: "uint (go_murmur3_32 data) = murmur3_32 data 0x9747B28C"
  have "murmur3_32 data (uint (0x9747B28C :: 32 word)) = uint (murmur_ref 0x9747B28C data)"
    using assms(2) by (rule murmur_int_word)
  with eq have "go_murmur3_32 data = murmur_ref 0x9747B28C data" by (simp add: word_uint_eq_iff)
  then have "word_of_nat (length data mod 4) = (word_of_nat (length data) :: 32 word)"
    by (auto simp: go_murmur3_32_def murmur_ref_def wblocks_rest split_beta
        dest!: wfmix_inj xor_left_inj)
  then have "length data mod 4 = length data"
    using assms(2) by (auto dest!: arg_cong[of _ _ unat] simp: unat_of_nat)
  then show False using assms(1) by (metis mod_less_divisor zero_less_numeral linorder_not_less)
qed

theorem go_murmur_not_murmur3_witness:
  "uint (go_murmur3_32 (encode ''0#17'')) \<noteq> murmur3_32 (encode ''0#17'') 0x9747B28C"
  by (rule go_murmur_not_murmur3) simp_all

text \<open>
  C15. The ring hash of the proxy, computed on unbounded Python integers with masks and an index
  loop, is the 32-bit-word MurmurHash3 (x86, 32 bit) of the key, for every key below \<open>2^32\<close>
  bytes and every 32-bit seed.
\<close>

theorem murmur3_32_word:
  assumes "length data < 2 ^ 32"
  shows "murmur3_32 data (uint seed) = uint (murmur_ref seed data)"
  using assms by (rule murmur_int_word)

theorem murmur3_32_word_witness:
  "murmur3_32 (encode ''0#17'') (uint (0 :: 32 word)) = uint (murmur_ref 0 (encode ''0#17''))"
  by (rule murmur3_32_word) simp

end
