(* ===== verification/Hash_Ring.thy ===== *)
theory Hash_Ring
  imports Murmur_Hash
begin

text \<open>
  \<open>HAring\<close> of \<open>demo/proxy.py\<close>: the ring is a sorted list of (hash position, backend id)
  tuples holding, for each healthy backend \<open>i\<close>, one entry per virtual node \<open>v\<close> at the hash
  of the key \<open>"i#v"\<close>; a request goes to the owner of the first entry at or after the hash
  of its key, wrapping around. The binary search is refined to that specification, and the
  consistent-hashing facts (which keys move when a backend leaves, joins or is resized) are
  proved from the specification in the locale \<open>clockwise_router\<close>.
\<close>

section \<open>Ring entries\<close>

datatype vnode = VNode (vpos: int) (vowner: nat)

text \<open>Python compares the tuples \<open>(pos, i)\<close> lexicographically.\<close>

instantiation vnode :: linorder
begin

definition less_eq_vnode :: "vnode \<Rightarrow> vnode \<Rightarrow> bool" where
  "a \<le> b \<longleftrightarrow> vpos a < vpos b \<or> vpos a = vpos b \<and> vowner a \<le> vowner b"

definition less_vnode :: "vnode \<Rightarrow> vnode \<Rightarrow> bool" where
  "a < b \<longleftrightarrow> vpos a < vpos b \<or> vpos a = vpos b \<and> vowner a < vowner b"

instance
  by standard (auto simp: less_eq_vnode_def less_vnode_def vnode.expand)

end

lemma vnode_le_pos: "a \<le> b \<Longrightarrow> vpos a \<le> vpos b"
  by (auto simp: less_eq_vnode_def)

section \<open>State and operations\<close>

record ha_ring =
  rg_n :: nat
  rg_vnodes :: "real list"
  rg_health :: "bool list"
  rg_ring :: "vnode list"

definition vnode_key :: "nat \<Rightarrow> nat \<Rightarrow> 8 word list" where
  "vnode_key i v = encode (nat_str i @ ''#'' @ nat_str v)"

definition backend_points :: "nat \<Rightarrow> real \<Rightarrow> vnode list" where
  \<comment> \<open>the inner loop: one entry per virtual node of backend \<open>i\<close>\<close>
  "backend_points i c = map (\<lambda>v. VNode (murmur3_32 (vnode_key i v) 0) i) [0..<nat (py_int c)]"

definition rebuild :: "ha_ring \<Rightarrow> ha_ring" where
  "rebuild r =
     r\<lparr>rg_ring := sort (concat (map (\<lambda>i. if rg_health r ! i then backend_points i (rg_vnodes r ! i) else [])
                                  [0..<rg_n r]))\<rparr>"

definition ha_init :: "nat \<Rightarrow> int \<Rightarrow> ha_ring" where
  "ha_init n vnodes_per =
     rebuild \<lparr>rg_n = n, rg_vnodes = replicate n (real_of_int vnodes_per),
              rg_health = replicate n True, rg_ring = []\<rparr>"

definition set_vnodes :: "ha_ring \<Rightarrow> int \<Rightarrow> int \<Rightarrow> py_err + ha_ring" where
  "set_vnodes r backend_id count =
     (case py_set (rg_vnodes r) backend_id (real_of_int (max 10 (min 300 count))) of
        Inl e \<Rightarrow> Inl e
      | Inr vs \<Rightarrow> Inr (rebuild (r\<lparr>rg_vnodes := vs\<rparr>)))"

definition set_health :: "ha_ring \<Rightarrow> int \<Rightarrow> bool \<Rightarrow> py_err + ha_ring" where
  "set_health r backend_id healthy =
     (case py_set (rg_health r) backend_id healthy of
        Inl e \<Rightarrow> Inl e
      | Inr hs \<Rightarrow> Inr (rebuild (r\<lparr>rg_health := hs\<rparr>)))"

function bisect_ring :: "vnode list \<Rightarrow> int \<Rightarrow> nat \<Rightarrow> nat \<Rightarrow> nat" where
  \<comment> \<open>the \<open>while lo < hi\<close> loop of \<open>route\<close>\<close>
  "bisect_ring ring h lo hi =
     (if lo < hi then
        let mid = (lo + hi) div 2
        in if vpos (ring ! mid) < h then bisect_ring ring h (mid + 1) hi
           else bisect_ring ring h lo mid
      else lo)"
  by pat_completeness auto
termination
  by (relation "measure (\<lambda>(ring, h, lo, hi). hi - lo)") auto

declare bisect_ring.simps [simp del]

definition route :: "ha_ring \<Rightarrow> string \<Rightarrow> nat" where
  "route r key =
     (if rg_ring r = [] then 0
      else let h = murmur3_32 (encode key) 0;
               lo = bisect_ring (rg_ring r) h 0 (length (rg_ring r));
               idx = lo mod length (rg_ring r)
           in vowner (rg_ring r ! idx))"

definition vnode_counts :: "ha_ring \<Rightarrow> real list" where
  "vnode_counts r = rg_vnodes r"

section \<open>The set of entries, and the invariant\<close>

definition points :: "ha_ring \<Rightarrow> vnode set" where
  \<comment> \<open>what the ring should hold, as a set\<close>
  "points r = {VNode (murmur3_32 (vnode_key i v) 0) i | i v.
      i < rg_n r \<and> rg_health r ! i \<and> int v < py_int (rg_vnodes r ! i)}"

definition ring_ok :: "ha_ring \<Rightarrow> bool" where
  "ring_ok r \<longleftrightarrow> length (rg_vnodes r) = rg_n r \<and> length (rg_health r) = rg_n r
     \<and> sorted (rg_ring r) \<and> set (rg_ring r) = points r"

lemma set_backend_points:
  "set (backend_points i c) = {VNode (murmur3_32 (vnode_key i v) 0) i | v. int v < py_int c}"
  by (auto simp: backend_points_def image_iff zless_nat_conj)

lemma rebuild_simps [simp]:
  "rg_n (rebuild r) = rg_n r" "rg_vnodes (rebuild r) = rg_vnodes r" "rg_health (rebuild r) = rg_health r"
  "points (rebuild r) = points r"
  by (simp_all add: rebuild_def points_def)

lemma rebuild_ring: "sorted (rg_ring (rebuild r)) \<and> set (rg_ring (rebuild r)) = points r"
  by (auto simp: rebuild_def points_def set_backend_points split: if_splits)

lemma rebuild_ok:
  "length (rg_vnodes r) = rg_n r \<Longrightarrow> length (rg_health r) = rg_n r \<Longrightarrow> ring_ok (rebuild r)"
  by (simp add: ring_ok_def rebuild_ring)

lemma ha_init_simps [simp]:
  "rg_n (ha_init n c) = n" "rg_health (ha_init n c) = replicate n True"
  "vnode_counts (ha_init n c) = replicate n (real_of_int c)"
  by (simp_all add: ha_init_def vnode_counts_def)

lemma ha_init_ok: "ring_ok (ha_init n c)"
  by (simp add: ha_init_def rebuild_ok)

lemma set_vnodes_ok: "ring_ok r \<Longrightarrow> set_vnodes r b c = Inr r' \<Longrightarrow> ring_ok r'"
  by (auto simp: set_vnodes_def py_set_def ring_ok_def rebuild_ring split: option.splits)

lemma set_health_ok: "ring_ok r \<Longrightarrow> set_health r b h = Inr r' \<Longrightarrow> ring_ok r'"
  by (auto simp: set_health_def py_set_def ring_ok_def rebuild_ring split: option.splits)

section \<open>The contract: clockwise placement\<close>

definition clockwise :: "vnode set \<Rightarrow> int \<Rightarrow> vnode" where
  \<comment> \<open>the first entry at or after position \<open>h\<close>, or the first of all when there is none\<close>
  "clockwise S h = (let after = {e \<in> S. h \<le> vpos e} in if after = {} then Min S else Min after)"

lemma clockwise_in: "finite S \<Longrightarrow> S \<noteq> {} \<Longrightarrow> clockwise S h \<in> S"
  using Min_in[of "{e \<in> S. h \<le> vpos e}"] by (auto simp: clockwise_def Let_def)

text \<open>Dropping entries that were not chosen does not change the choice.\<close>

lemma clockwise_subset:
  assumes "finite S" and "T \<subseteq> S" and "clockwise S h \<in> T"
  shows "clockwise T h = clockwise S h"
proof (cases "{e \<in> S. h \<le> vpos e} = {}")
  case True
  then have "clockwise S h = Min S" and "clockwise T h = Min T"
    using assms(2) by (auto simp: clockwise_def)
  moreover have "Min T = Min S"
    using assms \<open>clockwise S h = Min S\<close> by (intro Min_eqI) (auto intro: finite_subset)
  ultimately show ?thesis by simp
next
  case False
  let ?A = "{e \<in> S. h \<le> vpos e}" and ?B = "{e \<in> T. h \<le> vpos e}"
  have c: "clockwise S h = Min ?A" unfolding clockwise_def Let_def using False by (simp only: if_False)
  then have "Min ?A \<in> ?B" using Min_in[of ?A] False assms by auto
  moreover then have "Min ?B = Min ?A"
    using assms by (intro Min_eqI) (auto intro: finite_subset Min_le)
  moreover from calculation have "?B \<noteq> {}" by blast
  then have "clockwise T h = Min ?B" unfolding clockwise_def Let_def by (simp only: if_False)
  ultimately show ?thesis using c by simp
qed

locale clockwise_router =
  fixes ok :: "'s \<Rightarrow> bool"
    and pts :: "'s \<Rightarrow> vnode set"
    and hash :: "'k \<Rightarrow> int"
    and pick :: "'s \<Rightarrow> 'k \<Rightarrow> nat"
  assumes finite_pts: "ok s \<Longrightarrow> finite (pts s)"
    and pick_clockwise: "ok s \<Longrightarrow> pts s \<noteq> {} \<Longrightarrow> pick s k = vowner (clockwise (pts s) (hash k))"
begin

lemma pick_owner: "ok s \<Longrightarrow> pts s \<noteq> {} \<Longrightarrow> \<exists>e \<in> pts s. pick s k = vowner e"
  by (rule bexI[of _ "clockwise (pts s) (hash k)"]) (simp_all add: clockwise_in finite_pts pick_clockwise)

text \<open>Consistent hashing: only keys of the shrinking owner move, and only to it when it grows.\<close>

lemma pick_shrink:
  assumes "ok s" "ok t" "pts t \<subseteq> pts s" "\<And>e. e \<in> pts s - pts t \<Longrightarrow> vowner e = b"
    and "pts s \<noteq> {}" "pick s k \<noteq> b"
  shows "pick t k = pick s k"
proof -
  let ?c = "clockwise (pts s) (hash k)"
  have "vowner ?c \<noteq> b" using assms(1,5,6) by (simp add: pick_clockwise)
  moreover have "?c \<in> pts s" using assms(1,5) by (simp add: clockwise_in finite_pts)
  ultimately have "?c \<in> pts t" using assms(4) by blast
  moreover then have "clockwise (pts t) (hash k) = ?c"
    using assms(1,3) by (intro clockwise_subset) (simp_all add: finite_pts)
  moreover from calculation have "pts t \<noteq> {}" by blast
  ultimately show ?thesis using assms(1,2,5) by (simp add: pick_clockwise)
qed

lemma pick_grow:
  assumes "ok s" "ok t" "pts s \<subseteq> pts t" "\<And>e. e \<in> pts t - pts s \<Longrightarrow> vowner e = b" "pts s \<noteq> {}"
  shows "pick t k = pick s k \<or> pick t k = b"
proof (cases "pick t k = b")
  case False
  then have "pick s k = pick t k" using assms by (intro pick_shrink[of t s b]) auto
  then show ?thesis by simp
qed simp

lemma pick_history: "ok s \<Longrightarrow> ok t \<Longrightarrow> pts s = pts t \<Longrightarrow> pts s \<noteq> {} \<Longrightarrow> pick s k = pick t k"
  by (simp add: pick_clockwise)

end

section \<open>The binary search meets the contract\<close>

lemma bisect_ring_correct:
  assumes "sorted ring" "lo \<le> hi" "hi \<le> length ring"
    and "\<forall>j < lo. vpos (ring ! j) < h" and "\<forall>j. hi \<le> j \<and> j < length ring \<longrightarrow> h \<le> vpos (ring ! j)"
  defines "k \<equiv> bisect_ring ring h lo hi"
  shows "k \<le> length ring \<and> (\<forall>j < k. vpos (ring ! j) < h) \<and> (\<forall>j. k \<le> j \<and> j < length ring \<longrightarrow> h \<le> vpos (ring ! j))"
  using assms(1-5) unfolding k_def
proof (induction ring h lo hi rule: bisect_ring.induct)
  case (1 ring h lo hi)
  let ?mid = "(lo + hi) div 2"
  show ?case
  proof (cases "lo < hi")
    case False
    then show ?thesis using "1.prems" by (simp add: bisect_ring.simps)
  next
    case True
    then have mid: "lo \<le> ?mid" "?mid < hi" "?mid < length ring" using "1.prems" by auto
    have mono: "i \<le> j \<Longrightarrow> j < length ring \<Longrightarrow> vpos (ring ! i) \<le> vpos (ring ! j)" for i j
      using "1.prems"(1) by (simp add: sorted_nth_mono vnode_le_pos)
    show ?thesis
    proof (cases "vpos (ring ! ?mid) < h")
      case low: True
      have "vpos (ring ! j) < h" if "j < ?mid + 1" for j
        using le_less_trans[OF mono[of j ?mid] low] mid that by simp
      moreover have "bisect_ring ring h lo hi = bisect_ring ring h (?mid + 1) hi"
        using True low by (subst bisect_ring.simps) (simp add: Let_def)
      ultimately show ?thesis using "1.IH"(1)[OF True refl low] "1.prems" mid by simp
    next
      case high: False
      have above: "\<forall>j. ?mid \<le> j \<and> j < length ring \<longrightarrow> h \<le> vpos (ring ! j)"
        using mono[of ?mid] high by (meson linorder_not_less order_trans)
      have "bisect_ring ring h lo hi = bisect_ring ring h lo ?mid"
        using True high by (subst bisect_ring.simps) (simp add: Let_def)
      moreover note "1.IH"(2)[OF True refl high "1.prems"(1) mid(1) less_imp_le[OF mid(3)] "1.prems"(4) above]
      ultimately show ?thesis by simp
    qed
  qed
qed

lemma sorted_first_after:
  assumes "sorted ring" "k < length ring" "\<forall>j < k. vpos (ring ! j) < h" "h \<le> vpos (ring ! k)"
  shows "ring ! k = Min {e \<in> set ring. h \<le> vpos e}"
proof (rule Min_eqI[symmetric])
  fix e assume "e \<in> {e \<in> set ring. h \<le> vpos e}"
  then obtain j where "j < length ring" "e = ring ! j" "h \<le> vpos (ring ! j)"
    by (auto simp: in_set_conv_nth)
  moreover then have "k \<le> j" using assms(3) by (metis linorder_not_less)
  ultimately show "ring ! k \<le> e" using assms(1) by (simp add: sorted_nth_mono)
qed (use assms in auto)

lemma route_is_clockwise:
  assumes ok: "ring_ok r" and ne: "points r \<noteq> {}"
  shows "route r key = vowner (clockwise (points r) (murmur3_32 (encode key) 0))"
proof -
  let ?h = "murmur3_32 (encode key) 0" and ?ring = "rg_ring r"
  define k where "k = bisect_ring ?ring ?h 0 (length ?ring)"
  have s: "sorted ?ring" "set ?ring = points r" using ok by (auto simp: ring_ok_def)
  then have nonempty: "?ring \<noteq> []" using ne by auto
  have k: "k \<le> length ?ring" "\<forall>j < k. vpos (?ring ! j) < ?h"
      "\<forall>j. k \<le> j \<and> j < length ?ring \<longrightarrow> ?h \<le> vpos (?ring ! j)"
    using bisect_ring_correct[of ?ring 0 "length ?ring" ?h] s(1) by (auto simp: k_def)
  have "?ring ! (k mod length ?ring) = clockwise (points r) ?h"
  proof (cases "k < length ?ring")
    case True
    then have "?ring ! k \<in> {e \<in> points r. ?h \<le> vpos e}" using k(3) s(2) by auto
    then show ?thesis
      using sorted_first_after[OF s(1) True k(2)] k(3) True s(2) by (auto simp: clockwise_def)
  next
    case False
    then have "k = length ?ring" using k(1) by simp
    moreover then have "{e \<in> points r. ?h \<le> vpos e} = {}"
      using k(2) by (auto simp: s(2)[symmetric] in_set_conv_nth)
    moreover have "?ring ! 0 = Min (points r)"
      using nonempty s(1) unfolding s(2)[symmetric] by (cases ?ring) (auto intro!: Min_eqI[symmetric])
    ultimately show ?thesis by (simp add: clockwise_def)
  qed
  then show ?thesis using nonempty by (simp add: route_def Let_def k_def)
qed

interpretation ha: clockwise_router ring_ok points "\<lambda>key. murmur3_32 (encode key) 0" route
proof unfold_locales
  fix r assume "ring_ok r"
  then show "finite (points r)" by (auto simp: ring_ok_def dest: sym)
qed (rule route_is_clockwise)

section \<open>Effect of the operations on the entries\<close>

lemma points_nonempty_iff:
  "points r \<noteq> {} \<longleftrightarrow> (\<exists>i < rg_n r. rg_health r ! i \<and> 1 \<le> py_int (rg_vnodes r ! i))"
proof
  assume "points r \<noteq> {}"
  then show "\<exists>i < rg_n r. rg_health r ! i \<and> 1 \<le> py_int (rg_vnodes r ! i)"
    by (fastforce simp: points_def)
next
  assume "\<exists>i < rg_n r. rg_health r ! i \<and> 1 \<le> py_int (rg_vnodes r ! i)"
  then obtain i where "i < rg_n r" "rg_health r ! i" "int 0 < py_int (rg_vnodes r ! i)" by auto
  then have "VNode (murmur3_32 (vnode_key i 0) 0) i \<in> points r" unfolding points_def by blast
  then show "points r \<noteq> {}" by blast
qed

lemma points_owner: "e \<in> points r \<Longrightarrow> vowner e < rg_n r \<and> rg_health r ! vowner e"
  by (auto simp: points_def)

lemma route_empty: "ring_ok r \<Longrightarrow> points r = {} \<Longrightarrow> route r key = 0"
  by (auto simp: ring_ok_def route_def)

lemma set_health_Inr:
  assumes "ring_ok r" "set_health r (int b) h = Inr r'"
  shows "b < rg_n r" "ring_ok r'" "rg_n r' = rg_n r" "rg_vnodes r' = rg_vnodes r"
    "rg_health r' = (rg_health r)[b := h]"
  using assms set_health_ok[OF assms]
  by (auto simp: set_health_def py_set_def py_index_def ring_ok_def split: option.splits if_splits)

lemma set_vnodes_Inr:
  assumes "ring_ok r" "set_vnodes r (int b) c = Inr r'"
  shows "b < rg_n r" "ring_ok r'" "rg_n r' = rg_n r" "rg_health r' = rg_health r"
    "rg_vnodes r' = (rg_vnodes r)[b := real_of_int (max 10 (min 300 c))]"
  using assms set_vnodes_ok[OF assms]
  by (auto simp: set_vnodes_def py_set_def py_index_def ring_ok_def split: option.splits if_splits)

lemma points_set_health_False:
  assumes "ring_ok r" "set_health r (int b) False = Inr r'"
  shows "points r' = {e \<in> points r. vowner e \<noteq> b}"
  using set_health_Inr[OF assms] assms(1) by (auto simp: points_def ring_ok_def nth_list_update)

lemma points_set_health_True:
  assumes "ring_ok r" "set_health r (int b) True = Inr r'"
  shows "points r \<subseteq> points r'" "e \<in> points r' - points r \<Longrightarrow> vowner e = b"
  using set_health_Inr[OF assms] assms(1)
  by (auto simp: points_def ring_ok_def nth_list_update split: if_splits)

lemma points_vnodes_mono:
  assumes "rg_n s = rg_n r" "rg_health s = rg_health r"
    and "\<And>i. i < rg_n r \<Longrightarrow> i \<noteq> b \<Longrightarrow> rg_vnodes s ! i = rg_vnodes r ! i"
    and "py_int (rg_vnodes r ! b) \<le> py_int (rg_vnodes s ! b)"
  shows "points r \<subseteq> points s" "e \<in> points s - points r \<Longrightarrow> vowner e = b"
proof -
  have "py_int (rg_vnodes r ! i) \<le> py_int (rg_vnodes s ! i)" if "i < rg_n r" for i
    using assms(3)[OF that] assms(4) by (cases "i = b") auto
  then show "points r \<subseteq> points s" using assms(1,2) unfolding points_def by fastforce
  show "vowner e = b" if "e \<in> points s - points r"
    using that assms(1-3) by (auto simp: points_def) metis
qed

text \<open>The locale's facts need a non-empty ring; an empty one routes to backend 0 by fiat.\<close>

lemma route_shrink:
  assumes "ring_ok r" "ring_ok s" "points s \<subseteq> points r" "\<And>e. e \<in> points r - points s \<Longrightarrow> vowner e = b"
    and "route r key \<noteq> b"
  shows "route s key = route r key"
proof (cases "points r = {}")
  case True
  then show ?thesis using assms by (simp add: route_empty)
next
  case False
  then show ?thesis using ha.pick_shrink[OF assms(1,2,3,4)] assms(5) by blast
qed

lemma route_grow:
  assumes "ring_ok r" "ring_ok s" "points r \<subseteq> points s" "\<And>e. e \<in> points s - points r \<Longrightarrow> vowner e = b"
  shows "route s key = route r key \<or> route s key = b"
proof (cases "points r = {}")
  case True
  show ?thesis
  proof (cases "points s = {}")
    case True
    then show ?thesis using assms \<open>points r = {}\<close> by (simp add: route_empty)
  next
    case False
    then show ?thesis using ha.pick_owner[OF assms(2) False, of key] assms(4) True by auto
  qed
next
  case False
  then show ?thesis using ha.pick_grow[OF assms] by blast
qed

section \<open>Properties of the ring\<close>

text \<open>
  C5. Routing is clockwise placement: for a ring built by the code's operations with at least one
  entry, the binary search of \<open>route\<close> (with its wrap-around) returns the owner of the
  first entry at or after the key's hash, or of the first entry of all.
\<close>

theorem route_clockwise:
  assumes "ring_ok r" and "points r \<noteq> {}"
  shows "route r key = vowner (clockwise (points r) (murmur3_32 (encode key) 0))"
  using assms by (rule route_is_clockwise)

theorem route_clockwise_witness:
  "route (ha_init 2 1) ''a'' = vowner (clockwise (points (ha_init 2 1)) (murmur3_32 (encode ''a'') 0))"
proof (rule route_clockwise)
  show "ring_ok (ha_init 2 1)" by (rule ha_init_ok)
  show "points (ha_init 2 1) \<noteq> {}"
    by (auto simp: points_nonempty_iff ha_init_def intro!: exI[of _ 0])
qed

text \<open>
  While some healthy backend has a virtual node, no request is routed to a backend that is
  unhealthy or does not exist.
\<close>

theorem route_picks_healthy:
  assumes "ring_ok r" and "i < rg_n r" and "rg_health r ! i" and "1 \<le> py_int (rg_vnodes r ! i)"
  shows "route r key < rg_n r \<and> rg_health r ! route r key"
proof -
  have "points r \<noteq> {}" using assms(2-4) unfolding points_nonempty_iff by blast
  then obtain e where "e \<in> points r" "route r key = vowner e" using ha.pick_owner[OF assms(1)] by blast
  then show ?thesis using points_owner by simp
qed

theorem route_picks_healthy_witness:
  "route (ha_init 2 150) ''user'' < rg_n (ha_init 2 150) \<and> rg_health (ha_init 2 150) ! route (ha_init 2 150) ''user''"
  by (rule route_picks_healthy[where i = 0]) (simp_all add: ha_init_ok, simp_all add: ha_init_def)

text \<open>
  C12. Minimal disruption on failure: when a backend is taken out, every key that was not on it
  keeps its backend.
\<close>

theorem failover_moves_only_failed:
  assumes "ring_ok r" and "set_health r (int b) False = Inr r'" and "route r key \<noteq> b"
  shows "route r' key = route r key"
  using assms(1) set_health_Inr(2)[OF assms(1,2)] points_set_health_False[OF assms(1,2)] assms(3)
  by (intro route_shrink[where b = b]) auto

lemma route_a: "route (ha_init 2 1) ''a'' = 0"
  by code_simp

theorem failover_moves_only_failed_witness:
  "\<exists>r'. set_health (ha_init 2 1) (int 1) False = Inr r' \<and> route r' ''a'' = route (ha_init 2 1) ''a''"
proof -
  obtain r' where r': "set_health (ha_init 2 1) (int 1) False = Inr r'"
    by (simp add: set_health_def ha_init_def py_set_def)
  show ?thesis
    using failover_moves_only_failed[OF ha_init_ok r', of "''a''"] r' by (simp add: route_a)
qed

text \<open>
  C13. Minimal disruption on resizing: growing the virtual nodes of a backend moves keys only to
  it, shrinking them moves only keys it had.
\<close>

theorem resize_moves_only_resized:
  assumes ok: "ring_ok r" and sv: "set_vnodes r (int b) c = Inr r'"
  shows "(py_int (rg_vnodes r ! b) \<le> max 10 (min 300 c) \<longrightarrow> route r' key = route r key \<or> route r' key = b)
    \<and> (max 10 (min 300 c) \<le> py_int (rg_vnodes r ! b) \<longrightarrow> route r key \<noteq> b \<longrightarrow> route r' key = route r key)"
proof (intro conjI impI)
  note r' = set_vnodes_Inr[OF ok sv]
  have len: "b < length (rg_vnodes r)" using ok r'(1) by (simp add: ring_ok_def)
  show "route r' key = route r key \<or> route r' key = b" if "py_int (rg_vnodes r ! b) \<le> max 10 (min 300 c)"
    using points_vnodes_mono[of r' r b] r' len that by (intro route_grow[OF ok r'(2)]) simp_all
  show "route r' key = route r key" if "max 10 (min 300 c) \<le> py_int (rg_vnodes r ! b)" "route r key \<noteq> b"
    using points_vnodes_mono[of r r' b] r' len that by (intro route_shrink[OF ok r'(2) _ _ that(2)]) simp_all
qed

lemma ex_ring_small: "\<exists>r'. set_vnodes (ha_init 2 1) (int 0) 10 = Inr r'"
  by (simp add: set_vnodes_def ha_init_def py_set_def)

theorem resize_moves_only_resized_witness:
  "\<exists>r'. set_vnodes (ha_init 2 1) (int 0) 10 = Inr r'
     \<and> (route r' ''b'' = route (ha_init 2 1) ''b'' \<or> route r' ''b'' = 0)"
proof -
  obtain r' where r': "set_vnodes (ha_init 2 1) (int 0) 10 = Inr r'" using ex_ring_small by blast
  show ?thesis
    using resize_moves_only_resized[OF ha_init_ok r', of "''b''"] r' by (auto simp: ha_init_def)
qed

text \<open>
  Routing has no history: taking a healthy backend out and bringing it back (any number of
  ring rebuilds later) restores the backend of every key.
\<close>

theorem fail_recover_restores_routes:
  assumes ok: "ring_ok r" and healthy: "rg_health r ! b"
    and down: "set_health r (int b) False = Inr r1" and up: "set_health r1 (int b) True = Inr r2"
  shows "route r2 key = route r key"
proof -
  note r1 = set_health_Inr[OF ok down]
  note r2 = set_health_Inr[OF r1(2) up]
  have "(rg_health r)[b := True] = rg_health r" using healthy by (metis (full_types) list_update_id)
  then have same: "points r2 = points r" using r1 r2 by (simp add: points_def)
  show ?thesis
    using ha.pick_history[OF r2(2) ok same] route_empty[OF r2(2)] route_empty[OF ok] same
    by (cases "points r = {}") auto
qed

theorem fail_recover_restores_routes_witness:
  "\<exists>r1 r2. set_health (ha_init 2 1) (int 1) False = Inr r1 \<and> set_health r1 (int 1) True = Inr r2
     \<and> route r2 ''b'' = route (ha_init 2 1) ''b''"
proof -
  have h: "rg_health (ha_init 2 1) ! 1" by (simp add: ha_init_def)
  obtain r1 where r1: "set_health (ha_init 2 1) (int 1) False = Inr r1"
    by (simp add: set_health_def ha_init_def py_set_def)
  moreover obtain r2 where r2: "set_health r1 (int 1) True = Inr r2"
    using set_health_Inr[OF ha_init_ok r1] by (simp add: set_health_def py_set_def ha_init_def)
  moreover have "route r2 ''b'' = route (ha_init 2 1) ''b''"
    by (rule fail_recover_restores_routes[OF ha_init_ok h r1 r2])
  ultimately show ?thesis by blast
qed

section \<open>Runs of ring operations\<close>

datatype ring_op = SetVnodes int int | SetHealth int bool

definition ring_apply :: "ha_ring \<Rightarrow> ring_op \<Rightarrow> ha_ring" where
  \<comment> \<open>one call; a call that raises leaves the ring as it was\<close>
  "ring_apply r op =
     (case (case op of SetVnodes b c \<Rightarrow> set_vnodes r b c | SetHealth b h \<Rightarrow> set_health r b h) of
        Inl _ \<Rightarrow> r
      | Inr r' \<Rightarrow> r')"

definition vnodes_in_range :: "real \<Rightarrow> ha_ring \<Rightarrow> bool" where
  "vnodes_in_range c r \<longleftrightarrow> (\<forall>v \<in> set (rg_vnodes r). v = c \<or> 10 \<le> v \<and> v \<le> 300)"

lemma ring_apply_ok: "ring_ok r \<Longrightarrow> ring_ok (ring_apply r op)"
  by (auto simp: ring_apply_def split: ring_op.splits sum.splits intro: set_vnodes_ok set_health_ok)

lemma set_vnodes_range: "vnodes_in_range c r \<Longrightarrow> set_vnodes r b k = Inr r' \<Longrightarrow> vnodes_in_range c r'"
  using set_update_subset_insert
  by (fastforce simp: vnodes_in_range_def set_vnodes_def py_set_def split: option.splits)

lemma ring_apply_range: "vnodes_in_range c r \<Longrightarrow> vnodes_in_range c (ring_apply r op)"
  by (auto simp: ring_apply_def split: ring_op.splits sum.splits intro: set_vnodes_range)
     (auto simp: vnodes_in_range_def set_health_def split: sum.splits)

text \<open>
  C14. The ring invariant: whatever calls \<open>set_vnodes\<close> and \<open>set_health\<close> receive, out-of-range
  ids included, the ring stays sorted and holds exactly the virtual nodes of the healthy backends,
  and every count is the initial one or between 10 and 300.
\<close>

theorem ring_invariant:
  "let r = foldl ring_apply (ha_init n c) ops in ring_ok r \<and> vnodes_in_range (real_of_int c) r"
proof -
  have "ring_ok r \<Longrightarrow> vnodes_in_range (real_of_int c) r \<Longrightarrow>
      ring_ok (foldl ring_apply r ops) \<and> vnodes_in_range (real_of_int c) (foldl ring_apply r ops)" for r
    by (induction ops arbitrary: r) (simp_all add: ring_apply_ok ring_apply_range)
  moreover have "vnodes_in_range (real_of_int c) (ha_init n c)"
    by (simp add: vnodes_in_range_def ha_init_def)
  ultimately show ?thesis using ha_init_ok by (simp add: Let_def)
qed

end
