(* ===== verification/Token_Bucket.thy ===== *)
theory Token_Bucket
  imports Omega_Prelude
begin

text \<open>
  \<open>TokenBucket\<close> of \<open>demo/proxy.py\<close>, one per backend: \<open>consume\<close> refills by elapsed time
  up to the rate and takes a token when there is one; \<open>set_rate\<close> changes the rate (at least
  10). The clock is an argument (\<open>time.monotonic()\<close>). The locale \<open>metered\<close> derives a bound on
  the grants of any run from a one-step law, which the bucket is shown to meet.
\<close>

section \<open>State and operations\<close>

record token_bucket =
  tb_rate :: real
  tb_tokens :: real
  tb_last :: real

definition tb_init :: "real \<Rightarrow> real \<Rightarrow> token_bucket" where
  "tb_init rate now = \<lparr>tb_rate = rate, tb_tokens = rate, tb_last = now\<rparr>"

definition tb_consume :: "token_bucket \<Rightarrow> real \<Rightarrow> token_bucket \<times> bool" where
  "tb_consume b now =
     (let tokens = min (tb_rate b) (tb_tokens b + tb_rate b * (now - tb_last b));
          b = b\<lparr>tb_tokens := tokens, tb_last := now\<rparr>
      in if tokens \<ge> 1 then (b\<lparr>tb_tokens := tokens - 1\<rparr>, True) else (b, False))"

definition tb_set_rate :: "token_bucket \<Rightarrow> real \<Rightarrow> token_bucket" where
  "tb_set_rate b rate = b\<lparr>tb_rate := max 10 rate\<rparr>"

section \<open>Runs\<close>

locale metered =
  fixes step :: "'s \<Rightarrow> 'e \<Rightarrow> 's \<times> nat"
    and ok :: "'s \<Rightarrow> 'e \<Rightarrow> bool"
    and credit :: "'s \<Rightarrow> real"
    and clock :: "'s \<Rightarrow> real"
    and R :: real
  assumes step_credit: "0 \<le> credit s \<Longrightarrow> ok s e \<Longrightarrow> step s e = (s', g) \<Longrightarrow>
      0 \<le> credit s' \<and> credit s' + real g \<le> credit s + R * (clock s' - clock s)"
begin

fun run :: "'s \<Rightarrow> 'e list \<Rightarrow> 's \<times> nat" where
  "run s [] = (s, 0)"
| "run s (e # es) = (case step s e of (s', g) \<Rightarrow> case run s' es of (s'', n) \<Rightarrow> (s'', g + n))"

fun run_ok :: "'s \<Rightarrow> 'e list \<Rightarrow> bool" where
  "run_ok s [] = True"
| "run_ok s (e # es) = (ok s e \<and> run_ok (fst (step s e)) es)"

lemma run_credit:
  "0 \<le> credit s \<Longrightarrow> run_ok s es \<Longrightarrow> run s es = (s', n) \<Longrightarrow>
     0 \<le> credit s' \<and> credit s' + real n \<le> credit s + R * (clock s' - clock s)"
proof (induction es arbitrary: s n)
  case (Cons e es)
  obtain t g m where st: "step s e = (t, g)" and rt: "run t es = (s', m)" and n: "n = g + m"
    using Cons.prems(3) by (auto split: prod.splits)
  have "0 \<le> credit t \<and> credit t + real g \<le> credit s + R * (clock t - clock s)"
    using Cons.prems st by (intro step_credit) auto
  moreover from this have "0 \<le> credit s' \<and> credit s' + real m \<le> credit t + R * (clock s' - clock t)"
    using Cons.prems st rt by (intro Cons.IH) auto
  ultimately show ?case by (simp add: n algebra_simps)
qed simp

lemma run_grants: "0 \<le> credit s \<Longrightarrow> run_ok s es \<Longrightarrow> run s es = (s', n) \<Longrightarrow>
    real n \<le> credit s + R * (clock s' - clock s)"
  using run_credit by fastforce

end

datatype tb_event = Consume real | SetRate real

fun tb_step :: "token_bucket \<Rightarrow> tb_event \<Rightarrow> token_bucket \<times> nat" where
  "tb_step b (Consume now) = (case tb_consume b now of (b', g) \<Rightarrow> (b', of_bool g))"
| "tb_step b (SetRate rate) = (tb_set_rate b rate, 0)"

fun tb_ok :: "real \<Rightarrow> token_bucket \<Rightarrow> tb_event \<Rightarrow> bool" where
  \<comment> \<open>the clock does not run backwards, and the rate in force is between 0 and \<open>R\<close>\<close>
  "tb_ok R b (Consume now) \<longleftrightarrow> tb_last b \<le> now \<and> 0 \<le> tb_rate b \<and> tb_rate b \<le> R"
| "tb_ok R b (SetRate rate) \<longleftrightarrow> True"

fun tb_run :: "token_bucket \<Rightarrow> tb_event list \<Rightarrow> token_bucket \<times> nat" where
  \<comment> \<open>the state after the events, and how many were granted\<close>
  "tb_run b [] = (b, 0)"
| "tb_run b (e # es) = (case tb_step b e of (b', g) \<Rightarrow> case tb_run b' es of (b'', n) \<Rightarrow> (b'', g + n))"

fun tb_run_ok :: "real \<Rightarrow> token_bucket \<Rightarrow> tb_event list \<Rightarrow> bool" where
  "tb_run_ok R b [] = True"
| "tb_run_ok R b (e # es) = (tb_ok R b e \<and> tb_run_ok R (fst (tb_step b e)) es)"

lemma tb_consume_credit:
  assumes "0 \<le> tb_tokens b" "tb_last b \<le> now" "0 \<le> tb_rate b" "tb_rate b \<le> R" "tb_consume b now = (b', g)"
  shows "0 \<le> tb_tokens b'" "tb_tokens b' + of_bool g \<le> tb_tokens b + R * (now - tb_last b)" "tb_last b' = now"
proof -
  have "0 \<le> tb_rate b * (now - tb_last b)" "tb_rate b * (now - tb_last b) \<le> R * (now - tb_last b)"
    using assms by (simp_all add: mult_right_mono)
  then show "0 \<le> tb_tokens b'" "tb_tokens b' + of_bool g \<le> tb_tokens b + R * (now - tb_last b)" "tb_last b' = now"
    using assms by (auto simp: tb_consume_def Let_def split: if_splits)
qed

interpretation tbm: metered tb_step "tb_ok R" tb_tokens tb_last R for R
proof unfold_locales
  fix b e b' g
  assume "0 \<le> tb_tokens b" "tb_ok R b e" "tb_step b e = (b', g)"
  then show "0 \<le> tb_tokens b' \<and> tb_tokens b' + real g \<le> tb_tokens b + R * (tb_last b' - tb_last b)"
    using tb_consume_credit[of b _ R b']
    by (cases e) (auto simp: tb_set_rate_def split: prod.splits)
qed

lemma tbm_run: "tbm.run b es = tb_run b es" "tbm.run_ok R b es = tb_run_ok R b es"
  by (induction es arbitrary: b) (simp_all split: prod.splits)

section \<open>Properties\<close>

text \<open>
  C27. The rate limit holds over any run: whatever the interleaving of \<open>consume\<close> and
  \<open>set_rate\<close> calls, a bucket whose rate stays at or below \<open>R\<close> grants at most its stored tokens
  plus \<open>R\<close> per second of elapsed time.
\<close>

theorem tb_rate_bound:
  assumes "0 \<le> tb_tokens b" and "tb_run_ok R b es" and "tb_run b es = (b', n)"
  shows "real n \<le> tb_tokens b + R * (tb_last b' - tb_last b)"
  using tbm.run_grants[of b R es b' n] assms by (simp add: tbm_run)

theorem tb_rate_bound_witness:
  "\<exists>b' n. tb_run (tb_init 1 0) [Consume 0, Consume (1/2), SetRate 5, Consume 1] = (b', n) \<and> n = 2
     \<and> real n \<le> tb_tokens (tb_init 1 0) + 10 * (tb_last b' - tb_last (tb_init 1 0))"
proof -
  let ?es = "[Consume 0, Consume (1/2), SetRate 5, Consume 1]"
  obtain b' n where run: "tb_run (tb_init 1 0) ?es = (b', n)" by fastforce
  moreover have "n = 2" using run by (simp add: tb_init_def tb_consume_def tb_set_rate_def Let_def)
  moreover have "tb_run_ok 10 (tb_init 1 0) ?es" by (simp add: tb_init_def tb_consume_def tb_set_rate_def Let_def)
  ultimately show ?thesis using tb_rate_bound[of "tb_init 1 0" 10 ?es b' n] by (simp add: tb_init_def)
qed

text \<open>
  C28. No starvation: a bucket with a rate of at least one per second grants a request once a
  whole token's time has passed since its last call, and after any call it holds between 0 and
  its rate.
\<close>

theorem tb_refill_grants:
  assumes "0 \<le> tb_tokens b" and "1 \<le> tb_rate b" and "1 / tb_rate b \<le> now - tb_last b"
  shows "snd (tb_consume b now) \<and> 0 \<le> tb_tokens (fst (tb_consume b now))
    \<and> tb_tokens (fst (tb_consume b now)) \<le> tb_rate b"
proof -
  have "1 \<le> tb_rate b * (now - tb_last b)"
    using assms(2,3) by (simp add: field_simps)
  then show ?thesis using assms by (auto simp: tb_consume_def Let_def)
qed

theorem tb_refill_grants_witness:
  "snd (tb_consume \<lparr>tb_rate = 100, tb_tokens = 0, tb_last = 0\<rparr> (1/100))"
  using tb_refill_grants[of "\<lparr>tb_rate = 100, tb_tokens = 0, tb_last = 0\<rparr>" "1/100"] by simp

text \<open>
  A bucket created with a rate below one request per second never admits a request until its
  rate is raised: the refill is capped at the rate, so a whole token never accumulates.
\<close>

theorem tb_sub_unit_rate_starves:
  assumes "rate < 1"
  shows "snd (tb_run (tb_init rate now) (map Consume ts)) = 0"
proof -
  have "tb_rate b = rate \<Longrightarrow> snd (tb_run b (map Consume ts)) = 0" for b
    using assms
    by (induction ts arbitrary: b) (auto simp: tb_consume_def Let_def split: prod.splits)
  then show ?thesis by (simp add: tb_init_def)
qed

theorem tb_sub_unit_rate_starves_witness:
  "snd (tb_run (tb_init (1/2) 0) (map Consume [1, 10, 100])) = 0"
  by (rule tb_sub_unit_rate_starves) simp

end
