(* ===== verification/Cbf_Projection.thy ===== *)
theory Cbf_Projection
  imports Omega_Prelude "HOL-Library.Multiset"
begin

text \<open>
  Layer 2, \<open>CBFProjector\<close> of \<open>ml/cbf/cbf_runtime.py\<close>: Euclidean projection onto the
  probability simplex (\<open>_project_simplex\<close>) and the projected-gradient loop
  (\<open>_project_full\<close>), with the batch-free form of \<open>simplex_project\<close> of
  \<open>ml/ppo/train_ppo_kan.py\<close>, which computes the same projection by counting. The lemmas show
  that the simplex routine returns the nearest probability vector, that the two routines agree,
  and what the loop does and does not guarantee.
\<close>

section \<open>Projection onto the simplex\<close>

definition cumsum :: "real list \<Rightarrow> real list" where
  "cumsum xs = map (\<lambda>j. sum_list (take (Suc j) xs)) [0..<length xs]"

definition sort_desc :: "real list \<Rightarrow> real list" where
  "sort_desc v = rev (sort v)"

definition rho_candidates :: "real list \<Rightarrow> bool list" where
  "rho_candidates u = map (\<lambda>j. u ! j - (cumsum u ! j - 1) / real (j + 1) > 0) [0..<length u]"

definition project_simplex :: "real list \<Rightarrow> real list" where
  "project_simplex v =
     (let n = length v;
          u = sort_desc v;
          cssv = cumsum u;
          cand = rho_candidates u
      in if \<not> (\<exists>c \<in> set cand. c) then replicate n (1 / real n)
         else let rho = last (filter (\<lambda>j. cand ! j) [0..<n]);
                  theta = (cssv ! rho - 1) / real (rho + 1)
              in map (\<lambda>x. max (x - theta) 0) v)"

definition torch_simplex_project :: "real list \<Rightarrow> real list" where
  \<comment> \<open>one row of \<open>simplex_project\<close>: \<open>rho_idx\<close> counts the candidates\<close>
  "torch_simplex_project v =
     (let u = sort_desc v;
          cssv = cumsum u;
          rho_idx = length (filter id (rho_candidates u)) - 1;
          theta = (cssv ! rho_idx - 1) / (real rho_idx + 1)
      in map (\<lambda>x. max (x - theta) 0) v)"

subsection \<open>The threshold\<close>

text \<open>
  \<open>threshold v \<theta>\<close>: subtracting \<open>\<theta>\<close> and clipping at zero leaves total mass one. Everything
  about the routine follows from the fact that it computes such a threshold.
\<close>

definition clip_at :: "real \<Rightarrow> real list \<Rightarrow> real list" where
  "clip_at \<theta> v = map (\<lambda>x. max (x - \<theta>) 0) v"

definition threshold :: "real list \<Rightarrow> real \<Rightarrow> bool" where
  "threshold v \<theta> \<longleftrightarrow> sum_list (clip_at \<theta> v) = 1"

lemma length_clip_at [vec_simps, simp]: "length (clip_at \<theta> v) = length v"
  by (simp add: clip_at_def)

lemma threshold_is_dist: "threshold v \<theta> \<Longrightarrow> is_dist (clip_at \<theta> v)"
  by (auto simp: threshold_def is_dist_def clip_at_def)

lemma length_sort_desc [simp]: "length (sort_desc v) = length v"
  by (simp add: sort_desc_def)

lemma sort_desc_antimono: "i \<le> j \<Longrightarrow> j < length v \<Longrightarrow> sort_desc v ! j \<le> sort_desc v ! i"
  by (simp add: sort_desc_def rev_nth sorted_nth_mono)

lemma sum_list_sort_desc: "sum_list (map f (sort_desc v)) = sum_list (map f v)"
  for f :: "real \<Rightarrow> real"
proof -
  have "mset (map f (sort_desc v)) = mset (map f v)" by (simp add: sort_desc_def)
  then show ?thesis by (metis sum_mset_sum_list)
qed

lemma sort_desc_Nil [simp]: "sort_desc v = [] \<longleftrightarrow> v = []"
  by (metis length_0_conv length_sort_desc)

lemma cumsum_0: "u \<noteq> [] \<Longrightarrow> cumsum u ! 0 = u ! 0"
proof -
  assume "u \<noteq> []"
  then have "cumsum u ! 0 = sum_list (take (Suc 0) u)" by (simp add: cumsum_def nth_append)
  then show ?thesis using \<open>u \<noteq> []\<close> by (cases u) simp_all
qed

lemma cumsum_Suc: "Suc j < length u \<Longrightarrow> cumsum u ! Suc j = cumsum u ! j + u ! Suc j"
  by (simp add: cumsum_def take_Suc_conv_app_nth)

lemma sum_list_take_nth: "k \<le> length u \<Longrightarrow> sum_list (map f (take k u)) = (\<Sum>i<k. f (u ! i))"
  for f :: "real \<Rightarrow> real"
  by (simp add: sum_list_sum_nth atLeast0LessThan)

lemma rho_candidates_nth:
  "j < length u \<Longrightarrow> rho_candidates u ! j \<longleftrightarrow> (cumsum u ! j - 1) / real (j + 1) < u ! j"
  by (simp add: rho_candidates_def)

lemma length_rho_candidates [simp]: "length (rho_candidates u) = length u"
  by (simp add: rho_candidates_def)

lemma rho_candidates_0: "u \<noteq> [] \<Longrightarrow> rho_candidates u ! 0"
  using cumsum_0[of u] by (simp add: rho_candidates_nth)

text \<open>
  The core of the algorithm's correctness: a candidate whose successor is not one yields the
  threshold, and the entries above it are exactly those up to the candidate.
\<close>

lemma candidate_threshold:
  fixes v defines "u \<equiv> sort_desc v"
  assumes rho: "rho < length v" "rho_candidates u ! rho"
    and nonc: "Suc rho < length v \<Longrightarrow> \<not> rho_candidates u ! Suc rho"
  defines "\<theta> \<equiv> (cumsum u ! rho - 1) / real (rho + 1)"
  shows "threshold v \<theta>" and "\<And>j. j < length v \<Longrightarrow> \<theta> < u ! j \<longleftrightarrow> j \<le> rho"
proof -
  have len: "length u = length v" by (simp add: u_def)
  have mono: "i \<le> j \<Longrightarrow> j < length v \<Longrightarrow> u ! j \<le> u ! i" for i j
    by (simp add: u_def sort_desc_antimono)
  have above: "\<theta> < u ! j" if "j \<le> rho" for j
    using rho mono[OF that rho(1)] by (simp add: rho_candidates_nth len \<theta>_def)
  have below: "u ! j \<le> \<theta>" if "rho < j" "j < length v" for j
  proof -
    have s: "Suc rho < length v" using that by simp
    then have "u ! Suc rho \<le> (cumsum u ! rho + u ! Suc rho - 1) / (real rho + 2)"
      using nonc by (simp add: rho_candidates_nth len cumsum_Suc algebra_simps)
    then have "u ! Suc rho \<le> \<theta>" by (simp add: \<theta>_def field_simps)
    then show ?thesis using mono[of "Suc rho" j] that by simp
  qed
  show "\<theta> < u ! j \<longleftrightarrow> j \<le> rho" if "j < length v" for j
    using above below that by (meson leD leI)
  have "sum_list (clip_at \<theta> v) = sum_list (map (\<lambda>x. max (x - \<theta>) 0) u)"
    by (simp add: clip_at_def u_def sum_list_sort_desc)
  also have "\<dots> = (\<Sum>i<length v. max (u ! i - \<theta>) 0)"
    using sum_list_take_nth[of "length u" u "\<lambda>x. max (x - \<theta>) 0"] by (simp add: len)
  also have "\<dots> = (\<Sum>i<Suc rho. max (u ! i - \<theta>) 0)"
    using rho(1) below by (intro sum.mono_neutral_right) auto
  also have "\<dots> = (\<Sum>i<Suc rho. u ! i - \<theta>)"
    using above by (intro sum.cong) (auto simp: less_Suc_eq_le less_imp_le)
  also have "\<dots> = cumsum u ! rho - real (rho + 1) * \<theta>"
    using rho(1) sum_list_take_nth[of "Suc rho" u "\<lambda>x. x"]
    by (simp add: cumsum_def len sum_subtractf algebra_simps)
  also have "\<dots> = 1" by (simp add: \<theta>_def)
  finally show "threshold v \<theta>" by (simp add: threshold_def)
qed

lemma last_candidate:
  fixes v defines "c \<equiv> rho_candidates (sort_desc v)"
  assumes "v \<noteq> []"
  defines "rho \<equiv> last (filter (\<lambda>j. c ! j) [0..<length v])"
  shows "rho < length v" "c ! rho" "\<And>j. rho < j \<Longrightarrow> j < length v \<Longrightarrow> \<not> c ! j" "\<exists>x \<in> set c. x"
proof -
  let ?f = "filter (\<lambda>j. c ! j) [0..<length v]"
  have "c ! 0" using rho_candidates_0[of "sort_desc v"] assms(2) by (simp add: c_def)
  then have ne: "?f \<noteq> []" using assms(2) by (auto simp: filter_empty_conv)
  then have "rho \<in> set ?f" unfolding rho_def by (rule last_in_set)
  then show "rho < length v" "c ! rho" by auto
  have "sorted ?f" by (simp add: sorted_wrt_filter)
  then have le: "j \<in> set ?f \<Longrightarrow> j \<le> rho" for j unfolding rho_def by (rule sorted_last)
  show "\<not> c ! j" if "rho < j" "j < length v" for j
  proof
    assume "c ! j"
    then have "j \<in> set ?f" using that(2) by simp
    then show False using le[of j] that(1) by simp
  qed
  have "c ! 0 \<in> set c" using assms(2) by (simp add: c_def)
  then show "\<exists>x \<in> set c. x" using \<open>c ! 0\<close> by blast
qed

lemma project_simplex_threshold:
  assumes "v \<noteq> []"
  shows "\<exists>\<theta>. project_simplex v = clip_at \<theta> v \<and> threshold v \<theta>"
proof -
  let ?rho = "last (filter (\<lambda>j. rho_candidates (sort_desc v) ! j) [0..<length v])"
  note c = last_candidate[OF assms]
  have "threshold v ((cumsum (sort_desc v) ! ?rho - 1) / real (?rho + 1))"
    using candidate_threshold(1)[OF c(1,2)] c(3) by blast
  then show ?thesis using c(4) by (auto simp: project_simplex_def Let_def clip_at_def)
qed

lemma length_project_simplex [vec_simps, simp]: "length (project_simplex v) = length v"
  by (simp add: project_simplex_def Let_def)

lemma project_simplex_is_dist: "v \<noteq> [] \<Longrightarrow> is_dist (project_simplex v)"
  using project_simplex_threshold threshold_is_dist by metis

subsection \<open>The two implementations agree\<close>

text \<open>The candidates form a prefix, so counting them and taking the last index agree.\<close>

lemma candidates_prefix:
  assumes "v \<noteq> []"
  defines "c \<equiv> rho_candidates (sort_desc v)"
  defines "rho \<equiv> last (filter (\<lambda>j. c ! j) [0..<length v])"
  assumes "j < length v"
  shows "c ! j \<longleftrightarrow> j \<le> rho"
proof -
  let ?u = "sort_desc v"
  note l = last_candidate[OF assms(1), folded c_def, folded rho_def]
  define \<theta> where "\<theta> = (cumsum ?u ! rho - 1) / real (rho + 1)"
  note t = candidate_threshold[of rho v, folded c_def, OF l(1,2) l(3), folded \<theta>_def, simplified]
  show ?thesis
  proof
    assume "c ! j"
    then show "j \<le> rho" using l(3)[OF _ assms(4)] by (meson not_le)
  next
    assume j: "j \<le> rho"
    have "real (Suc j) * \<theta> < real (Suc j) * ?u ! j"
      using t(2)[OF assms(4)] j by simp
    moreover have "cumsum ?u ! j - 1 \<le> real (Suc j) * \<theta>"
    proof -
      have "(\<Sum>i<Suc j. ?u ! i - \<theta>) \<le> (\<Sum>i<length v. max (?u ! i - \<theta>) 0)"
        using assms(4)
        by (intro order_trans[OF sum_mono[of _ _ "\<lambda>i. max (?u ! i - \<theta>) 0"] sum_mono2]) auto
      also have "\<dots> = 1"
        using t(1) sum_list_take_nth[of "length v" ?u "\<lambda>x. max (x - \<theta>) 0"]
        by (simp add: threshold_def clip_at_def sum_list_sort_desc)
      finally show ?thesis
        using assms(4) sum_list_take_nth[of "Suc j" ?u "\<lambda>x. x"]
        by (simp add: cumsum_def sum_subtractf algebra_simps)
    qed
    ultimately show "c ! j" using assms(4) by (simp add: c_def rho_candidates_nth field_simps)
  qed
qed

lemma count_candidates:
  assumes "v \<noteq> []"
  defines "c \<equiv> rho_candidates (sort_desc v)"
  shows "length (filter id c) - 1 = last (filter (\<lambda>j. c ! j) [0..<length v])"
proof -
  define rho where "rho = last (filter (\<lambda>j. c ! j) [0..<length v])"
  have rho: "rho < length v" using last_candidate(1)[OF assms(1)] by (simp add: c_def rho_def)
  have pre: "c ! j \<longleftrightarrow> j \<le> rho" if "j < length v" for j
    using candidates_prefix[OF assms(1) that] by (simp add: c_def rho_def)
  have "length (filter id c) = card {j. j < length v \<and> c ! j}"
    by (simp add: length_filter_conv_card c_def)
  also have "{j. j < length v \<and> c ! j} = {..rho}"
    using pre rho by (intro set_eqI) (metis (mono_tags) atMost_iff mem_Collect_eq le_less_trans)
  finally show ?thesis by (simp add: id_def flip: rho_def)
qed

lemma torch_simplex_eq: "v \<noteq> [] \<Longrightarrow> torch_simplex_project v = project_simplex v"
proof -
  assume v: "v \<noteq> []"
  show ?thesis
    using count_candidates[OF v] last_candidate(4)[OF v]
    by (auto simp: torch_simplex_project_def project_simplex_def Let_def add.commute)
qed

subsection \<open>The nearest probability vector\<close>

definition sq_dist :: "real list \<Rightarrow> real list \<Rightarrow> real" where
  "sq_dist xs ys = (\<Sum>i<length xs. (xs ! i - ys ! i)\<^sup>2)"

lemma sum_list_nth: "sum_list (xs :: real list) = (\<Sum>i<length xs. xs ! i)"
  by (simp add: sum_list_sum_nth atLeast0LessThan)

text \<open>
  The optimality condition of the projection: the difference to \<open>v\<close> is \<open>- \<theta>\<close> where the result
  is positive, and at least that where it is zero.
\<close>

lemma clip_at_nearest:
  assumes "threshold v \<theta>" and "is_dist x" and "length x = length v"
  shows "sq_dist (clip_at \<theta> v) v \<le> sq_dist x v"
proof -
  let ?p = "clip_at \<theta> v"
  have pointwise: "(?p ! i - v ! i)\<^sup>2 - 2 * \<theta> * (x ! i - ?p ! i) \<le> (x ! i - v ! i)\<^sup>2" if "i < length v" for i
  proof (cases "\<theta> \<le> v ! i")
    case True
    then have p: "?p ! i = v ! i - \<theta>" using that by (simp add: clip_at_def)
    have "(x ! i - v ! i)\<^sup>2 - ((?p ! i - v ! i)\<^sup>2 - 2 * \<theta> * (x ! i - ?p ! i)) = (x ! i - v ! i + \<theta>)\<^sup>2"
      unfolding p by (simp add: power2_eq_square algebra_simps)
    then show ?thesis by (smt (verit) zero_le_power2)
  next
    case False
    then have p: "?p ! i = 0" using that by (simp add: clip_at_def)
    have "0 \<le> x ! i" using assms(2,3) that by (simp add: is_dist_def)
    then have "0 \<le> (x ! i) * (x ! i + 2 * (\<theta> - v ! i))" using False by simp
    then show ?thesis unfolding p by (simp add: power2_eq_square algebra_simps)
  qed
  have "(\<Sum>i<length v. x ! i - ?p ! i) = 0"
    using assms threshold_is_dist[OF assms(1)] by (simp add: sum_subtractf is_dist_def sum_list_nth)
  then have "(\<Sum>i<length v. 2 * \<theta> * (x ! i - ?p ! i)) = 0" by (simp flip: sum_distrib_left)
  moreover have "(\<Sum>i<length v. (?p ! i - v ! i)\<^sup>2 - 2 * \<theta> * (x ! i - ?p ! i)) \<le> (\<Sum>i<length v. (x ! i - v ! i)\<^sup>2)"
    using pointwise by (intro sum_mono) simp
  ultimately show ?thesis using assms(3) by (simp add: sq_dist_def sum_subtractf)
qed

lemma project_simplex_nearest_dist:
  "v \<noteq> [] \<Longrightarrow> is_dist x \<Longrightarrow> length x = length v \<Longrightarrow> sq_dist (project_simplex v) v \<le> sq_dist x v"
  using project_simplex_threshold clip_at_nearest by metis

section \<open>The projected-gradient loop\<close>

record cbf_projector =
  cp_cap :: real
  cp_lam :: real
  cp_lr :: real
  cp_max_iter :: nat
  cp_tol :: real

record cbf_result =
  cr_weights :: "real list"
  cr_fired :: "bool list"
  cr_iterations :: nat
  cr_converged :: bool

definition cbf_default :: cbf_projector where
  "cbf_default = \<lparr>cp_cap = 80/100, cp_lam = 5/10, cp_lr = 1/100, cp_max_iter = 100, cp_tol = 1/1000000\<rparr>"

definition cbf_grad :: "cbf_projector \<Rightarrow> real list \<Rightarrow> real list" where
  \<comment> \<open>\<open>np.where(violations, lam * (-h), 0.0)\<close>\<close>
  "cbf_grad p h = map (\<lambda>x. if x < 0 then cp_lam p * (- x) else 0) h"

definition cbf_step :: "cbf_projector \<Rightarrow> real list \<Rightarrow> real list \<Rightarrow> real list" where
  "cbf_step p h w = project_simplex (map2 (\<lambda>a g. a - cp_lr p * g) w (cbf_grad p h))"

fun cbf_loop :: "cbf_projector \<Rightarrow> real list \<Rightarrow> real list \<Rightarrow> nat list \<Rightarrow> cbf_result \<Rightarrow> cbf_result" where
  \<comment> \<open>the \<open>for ... else\<close> loop over the remaining iteration numbers\<close>
  "cbf_loop p caps loads [] st = st\<lparr>cr_converged := False\<rparr>"
| "cbf_loop p caps loads (it # its) st =
     (let h = map2 (-) caps loads;
          violations = map (\<lambda>x. x < 0) h
      in if \<not> (\<exists>b \<in> set violations. b) then st
         else let w_new = cbf_step p h (cr_weights st);
                  delta = np_max (map2 (\<lambda>a b. \<bar>a - b\<bar>) w_new (cr_weights st));
                  st = st\<lparr>cr_weights := w_new, cr_iterations := it + 1,
                          cr_fired := map2 (\<or>) (cr_fired st) violations\<rparr>
              in if delta < cp_tol p then st else cbf_loop p caps loads its st)"

definition cbf_normalise :: "real list \<Rightarrow> real list" where
  "cbf_normalise weights =
     (let w = map (\<lambda>x. max x 0) weights;
          total = sum_list w
      in if total > 1 / 10 ^ 9 then map (\<lambda>x. x / total) w
         else replicate (length weights) (1 / real (length weights)))"

definition project_full :: "cbf_projector \<Rightarrow> real list \<Rightarrow> real list \<Rightarrow> real list option \<Rightarrow> cbf_result" where
  "project_full p weights loads caps =
     (let n = length weights;
          caps = (case caps of None \<Rightarrow> replicate n (cp_cap p) | Some c \<Rightarrow> c)
      in cbf_loop p caps loads [0..<cp_max_iter p]
           \<lparr>cr_weights = cbf_normalise weights, cr_fired = replicate n False,
            cr_iterations = 0, cr_converged = True\<rparr>)"

definition cbf_project_pair :: "cbf_projector \<Rightarrow> real list \<Rightarrow> real list \<Rightarrow> real list option \<Rightarrow> real list \<times> bool list" where
  \<comment> \<open>the method \<open>project\<close>\<close>
  "cbf_project_pair p weights loads caps =
     (let result = project_full p weights loads caps in (cr_weights result, cr_fired result))"

subsection \<open>One iteration\<close>

lemma length_cbf_grad [vec_simps, simp]: "length (cbf_grad p h) = length h"
  by (simp add: cbf_grad_def)

lemma length_cbf_step [vec_simps, simp]:
  "length h = length w \<Longrightarrow> length (cbf_step p h w) = length w"
  by (simp add: cbf_step_def)

lemma cbf_step_is_dist: "w \<noteq> [] \<Longrightarrow> length h = length w \<Longrightarrow> is_dist (cbf_step p h w)"
  unfolding cbf_step_def by (rule project_simplex_is_dist) (cases w; cases h; simp add: cbf_grad_def)

text \<open>
  Lowering some entries of a probability vector moves the threshold below zero, so the
  projection gives every entry at least what the gradient step left it.
\<close>

lemma threshold_nonpos:
  assumes "threshold v \<theta>" and "is_dist w" and "length v = length w"
    and le: "\<And>i. i < length w \<Longrightarrow> v ! i \<le> w ! i"
  shows "\<theta> \<le> 0"
proof (rule ccontr)
  assume "\<not> \<theta> \<le> 0"
  have nn: "0 \<le> w ! i" if "i < length w" for i using assms(2) that by (simp add: is_dist_def)
  have each: "max (v ! i - \<theta>) 0 \<le> w ! i" if "i < length w" for i
    using le[OF that] nn[OF that] \<open>\<not> \<theta> \<le> 0\<close> by auto
  have one: "(\<Sum>i<length w. w ! i) = 1" using assms(2) by (simp add: is_dist_def sum_list_nth)
  then have "\<exists>i<length w. 0 < w ! i" using sum_nonpos[of "{..<length w}" "\<lambda>i. w ! i"] by force
  then obtain i where i: "i < length w" "0 < w ! i" by blast
  have "(\<Sum>i<length w. max (v ! i - \<theta>) 0) < (\<Sum>i<length w. w ! i)"
  proof (rule sum_strict_mono_ex1)
    show "\<exists>a\<in>{..<length w}. max (v ! a - \<theta>) 0 < w ! a"
      using i le[OF i(1)] \<open>\<not> \<theta> \<le> 0\<close> by (intro bexI[of _ i]) auto
  qed (use each in auto)
  moreover have "(\<Sum>i<length w. max (v ! i - \<theta>) 0) = 1"
    using assms(1,3) by (simp add: threshold_def sum_list_nth clip_at_def)
  ultimately show False using one by simp
qed

lemma cbf_step_ge:
  assumes w: "is_dist w" "w \<noteq> []" "length h = length w" and p: "0 \<le> cp_lr p" "0 \<le> cp_lam p"
    and i: "i < length w"
  shows "w ! i - cp_lr p * cp_lam p * max 0 (- (h ! i)) \<le> cbf_step p h w ! i"
proof -
  define v where "v = map2 (\<lambda>a g. a - cp_lr p * g) w (cbf_grad p h)"
  have len: "length v = length w" using w by (simp add: v_def)
  have v: "v ! j = w ! j - cp_lr p * cp_lam p * max 0 (- (h ! j))" if "j < length w" for j
    using that w(3) by (auto simp: v_def cbf_grad_def)
  have "v \<noteq> []" using len w(2) by auto
  then obtain \<theta> where \<theta>: "threshold v \<theta>" "project_simplex v = clip_at \<theta> v"
    using project_simplex_threshold by blast
  have "\<theta> \<le> 0" using threshold_nonpos[OF \<theta>(1) w(1) len] v p by simp
  then have "v ! i \<le> cbf_step p h w ! i"
    using i len by (simp add: cbf_step_def flip: v_def) (simp add: \<theta>(2) clip_at_def)
  then show ?thesis using v[OF i] by simp
qed

subsection \<open>The whole loop\<close>

lemma cbf_normalise_is_dist: "weights \<noteq> [] \<Longrightarrow> is_dist (cbf_normalise weights)"
  using is_dist_normalise[of "map (\<lambda>x. max x 0) weights"] is_dist_uniform[of "length weights"]
  by (auto simp: cbf_normalise_def Let_def comp_def)

lemma length_cbf_normalise [vec_simps, simp]: "length (cbf_normalise weights) = length weights"
  by (simp add: cbf_normalise_def Let_def)

text \<open>
  \<open>cbf_track p h w0 st\<close>: what holds after each iteration, \<open>w0\<close> being the weights the loop
  started from. The last clause bounds how far the correction has gone.
\<close>

definition cbf_track :: "cbf_projector \<Rightarrow> real list \<Rightarrow> real list \<Rightarrow> cbf_result \<Rightarrow> bool" where
  "cbf_track p h w0 st \<longleftrightarrow>
     length (cr_weights st) = length w0 \<and> length (cr_fired st) = length w0 \<and> is_dist (cr_weights st) \<and>
     (\<forall>i<length w0. w0 ! i - real (cr_iterations st) * (cp_lr p * cp_lam p * max 0 (- (h ! i)))
        \<le> cr_weights st ! i)"

lemma cbf_track_step:
  assumes tr: "cbf_track p h w0 st" and h: "length h = length w0" and w0: "w0 \<noteq> []"
    and p: "0 \<le> cp_lr p" "0 \<le> cp_lam p"
  shows "cbf_track p h w0 (st\<lparr>cr_weights := cbf_step p h (cr_weights st), cr_iterations := cr_iterations st + 1,
           cr_fired := map2 (\<or>) (cr_fired st) (map (\<lambda>x. x < 0) h)\<rparr>)"
proof -
  have w: "is_dist (cr_weights st)" "cr_weights st \<noteq> []" "length h = length (cr_weights st)"
    using tr h w0 by (auto simp: cbf_track_def)
  have "w0 ! i - real (cr_iterations st + 1) * (cp_lr p * cp_lam p * max 0 (- (h ! i)))
      \<le> cbf_step p h (cr_weights st) ! i" if "i < length w0" for i
  proof -
    define c where "c = cp_lr p * cp_lam p * max 0 (- (h ! i))"
    have "cr_weights st ! i - c \<le> cbf_step p h (cr_weights st) ! i"
      using cbf_step_ge[OF w p, of i] tr that by (simp add: cbf_track_def c_def)
    moreover have "w0 ! i - real (cr_iterations st) * c \<le> cr_weights st ! i"
      using tr that by (simp add: cbf_track_def c_def)
    moreover have "real (cr_iterations st + 1) * c = real (cr_iterations st) * c + c"
      by (simp add: distrib_right)
    ultimately show ?thesis unfolding c_def[symmetric] by linarith
  qed
  then show ?thesis using tr h w cbf_step_is_dist by (simp add: cbf_track_def)
qed

lemma cbf_loop_cases:
  fixes p caps loads it its st
  defines "st' \<equiv> st\<lparr>cr_weights := cbf_step p (map2 (-) caps loads) (cr_weights st), cr_iterations := it + 1,
      cr_fired := map2 (\<or>) (cr_fired st) (map (\<lambda>x. x < 0) (map2 (-) caps loads))\<rparr>"
  shows "cbf_loop p caps loads (it # its) st = st \<or> cbf_loop p caps loads (it # its) st = st' \<or>
         cbf_loop p caps loads (it # its) st = cbf_loop p caps loads its st'"
  unfolding cbf_loop.simps Let_def st'_def by metis

lemma cbf_loop_track:
  assumes "cbf_track p (map2 (-) caps loads) w0 st" and "length caps = length w0"
    and "length loads = length w0" and "w0 \<noteq> []" and "0 \<le> cp_lr p" and "0 \<le> cp_lam p"
    and "cr_iterations st = k"
  shows "cbf_track p (map2 (-) caps loads) w0 (cbf_loop p caps loads [k..<m] st) \<and>
         cr_iterations (cbf_loop p caps loads [k..<m] st) \<le> max k m"
  using assms
proof (induction "m - k" arbitrary: k st)
  case 0
  then show ?case by (simp add: cbf_track_def)
next
  case (Suc d)
  let ?h = "map2 (-) caps loads"
  let ?st = "st\<lparr>cr_weights := cbf_step p ?h (cr_weights st), cr_iterations := k + 1,
           cr_fired := map2 (\<or>) (cr_fired st) (map (\<lambda>x. x < 0) ?h)\<rparr>"
  have less: "k < m" using Suc.hyps(2) by simp
  have tr: "cbf_track p ?h w0 ?st"
    using cbf_track_step[OF Suc.prems(1) _ Suc.prems(4-6)] Suc.prems(2,3,7) by simp
  have rest: "cbf_track p ?h w0 (cbf_loop p caps loads [Suc k..<m] ?st) \<and>
      cr_iterations (cbf_loop p caps loads [Suc k..<m] ?st) \<le> max (Suc k) m"
  proof (rule Suc.hyps(1)[OF _ tr Suc.prems(2-6)])
    show "d = m - Suc k" using Suc.hyps(2) by simp
    show "cr_iterations ?st = Suc k" by simp
  qed
  have k: "cr_iterations st \<le> max k m" "cr_iterations ?st \<le> max k m" "max (Suc k) m = max k m"
    using less Suc.prems(7) by simp_all
  from cbf_loop_cases[of p caps loads k "[Suc k..<m]" st] show ?case
    unfolding upt_conv_Cons[OF less]
  proof (elim disjE)
    assume "cbf_loop p caps loads (k # [Suc k..<m]) st = st"
    then show "cbf_track p ?h w0 (cbf_loop p caps loads (k # [Suc k..<m]) st) \<and>
        cr_iterations (cbf_loop p caps loads (k # [Suc k..<m]) st) \<le> max k m"
      using Suc.prems(1) k(1) by (simp only: simp_thms)
  next
    assume "cbf_loop p caps loads (k # [Suc k..<m]) st = ?st"
    then show "cbf_track p ?h w0 (cbf_loop p caps loads (k # [Suc k..<m]) st) \<and>
        cr_iterations (cbf_loop p caps loads (k # [Suc k..<m]) st) \<le> max k m"
      using tr k(2) by (simp only: simp_thms)
  next
    assume "cbf_loop p caps loads (k # [Suc k..<m]) st = cbf_loop p caps loads [Suc k..<m] ?st"
    then show "cbf_track p ?h w0 (cbf_loop p caps loads (k # [Suc k..<m]) st) \<and>
        cr_iterations (cbf_loop p caps loads (k # [Suc k..<m]) st) \<le> max k m"
      using rest k(3) by (simp only: simp_thms)
  qed
qed

lemma cbf_loop_fired:
  assumes "length (cr_fired st) = length caps" and "length loads = length caps"
    and "\<And>i. i < length caps \<Longrightarrow> cr_fired st ! i \<Longrightarrow> caps ! i < loads ! i"
  shows "\<forall>i<length caps. cr_fired (cbf_loop p caps loads its st) ! i \<longrightarrow> caps ! i < loads ! i"
    and "its \<noteq> [] \<Longrightarrow> \<forall>i<length caps. cr_fired (cbf_loop p caps loads its st) ! i \<longleftrightarrow> caps ! i < loads ! i"
proof -
  let ?F = "map2 (<) caps loads"
  have map2_id: "map2 (\<or>) f (map (\<lambda>x. x < 0) (map2 (-) caps loads)) = ?F"
    if "length f = length caps" "\<And>i. i < length caps \<Longrightarrow> f ! i \<Longrightarrow> caps ! i < loads ! i" for f
    using that assms(2) by (intro nth_equalityI) auto
  have fix1: "cr_fired (cbf_loop p caps loads its' s) = ?F" if "cr_fired s = ?F" for its' s
    using that
  proof (induction its' arbitrary: s)
    case (Cons it its')
    have "map2 (\<or>) (cr_fired s) (map (\<lambda>x. x < 0) (map2 (-) caps loads)) = ?F"
      using Cons.prems assms(2) by (intro map2_id) auto
    then show ?case using Cons by (simp add: Let_def)
  qed simp
  show ne: "\<forall>i<length caps. cr_fired (cbf_loop p caps loads its st) ! i \<longleftrightarrow> caps ! i < loads ! i" if "its \<noteq> []"
  proof (cases its)
    case (Cons it its')
    note m = map2_id[OF assms(1,3)]
    show ?thesis
    proof (cases "\<exists>i<length caps. caps ! i < loads ! i")
      case True
      then have "\<exists>b\<in>set (map (\<lambda>x. x < 0) (map2 (-) caps loads)). b"
        using assms(2) by (force simp: set_zip)
      then have "cr_fired (cbf_loop p caps loads its st) = ?F"
        using fix1 m unfolding Cons by (simp only: cbf_loop.simps Let_def cbf_result.simps not_True_eq_False if_False simp_thms) simp
      then show ?thesis using assms(2) by simp
    next
      case False
      then have "\<not> (\<exists>b\<in>set (map (\<lambda>x. x < 0) (map2 (-) caps loads)). b)"
        using assms(2) by (auto simp: set_zip not_less)
      then have "cbf_loop p caps loads its st = st" unfolding Cons by (simp add: Let_def)
      then show ?thesis using False assms(3) by auto
    qed
  qed (use that in simp)
  then show "\<forall>i<length caps. cr_fired (cbf_loop p caps loads its st) ! i \<longrightarrow> caps ! i < loads ! i"
    using assms(3) by (cases "its = []") auto
qed

subsection \<open>The result of a projection\<close>

definition caps_of :: "cbf_projector \<Rightarrow> nat \<Rightarrow> real list option \<Rightarrow> real list" where
  "caps_of p n caps = (case caps of None \<Rightarrow> replicate n (cp_cap p) | Some c \<Rightarrow> c)"

definition cbf_ready :: "cbf_projector \<Rightarrow> real list \<Rightarrow> real list \<Rightarrow> real list option \<Rightarrow> bool" where
  \<comment> \<open>one load and one cap per weight, and a projector with non-negative step sizes\<close>
  "cbf_ready p weights loads caps \<longleftrightarrow>
     weights \<noteq> [] \<and> length loads = length weights \<and>
     length (caps_of p (length weights) caps) = length weights \<and> 0 \<le> cp_lr p \<and> 0 \<le> cp_lam p"

lemma project_full_caps_of:
  "project_full p weights loads caps =
     cbf_loop p (caps_of p (length weights) caps) loads [0..<cp_max_iter p]
       \<lparr>cr_weights = cbf_normalise weights, cr_fired = replicate (length weights) False,
        cr_iterations = 0, cr_converged = True\<rparr>"
  by (simp add: project_full_def caps_of_def Let_def)

lemma project_full_track:
  assumes "cbf_ready p weights loads caps"
  shows "cbf_track p (map2 (-) (caps_of p (length weights) caps) loads) (cbf_normalise weights)
           (project_full p weights loads caps) \<and>
         cr_iterations (project_full p weights loads caps) \<le> cp_max_iter p"
proof -
  have ne: "weights \<noteq> []" using assms by (simp add: cbf_ready_def)
  then have "cbf_normalise weights \<noteq> []" by (metis length_0_conv length_cbf_normalise)
  then show ?thesis
    using assms cbf_normalise_is_dist[OF ne] cbf_loop_track[of p _ loads "cbf_normalise weights" _ 0]
    unfolding project_full_caps_of cbf_ready_def by (simp add: cbf_track_def)
qed

lemma project_full_is_dist:
  assumes "cbf_ready p weights loads caps"
  shows "is_dist (cr_weights (project_full p weights loads caps))"
    and "length (cr_weights (project_full p weights loads caps)) = length weights"
    and "length (cr_fired (project_full p weights loads caps)) = length weights"
  using project_full_track[OF assms] by (simp_all add: cbf_track_def)

lemma project_full_fired:
  assumes "cbf_ready p weights loads caps" and "0 < cp_max_iter p" and "i < length weights"
  shows "cr_fired (project_full p weights loads caps) ! i \<longleftrightarrow>
         caps_of p (length weights) caps ! i < loads ! i"
  using cbf_loop_fired(2)[of "\<lparr>cr_weights = cbf_normalise weights, cr_fired = replicate (length weights) False,
        cr_iterations = 0, cr_converged = True\<rparr>" "caps_of p (length weights) caps" loads "[0..<cp_max_iter p]" p]
    assms unfolding project_full_caps_of cbf_ready_def by simp

lemma project_full_safe:
  assumes "\<not> (\<exists>i<length weights. caps_of p (length weights) caps ! i < loads ! i)"
    and "cbf_ready p weights loads caps" and "0 < cp_max_iter p"
  shows "project_full p weights loads caps =
         \<lparr>cr_weights = cbf_normalise weights, cr_fired = replicate (length weights) False,
          cr_iterations = 0, cr_converged = True\<rparr>"
proof -
  have "\<not> (\<exists>b\<in>set (map (\<lambda>x. x < 0) (map2 (-) (caps_of p (length weights) caps) loads)). b)"
    using assms(1,2) by (auto simp: set_zip cbf_ready_def)
  then show ?thesis unfolding project_full_caps_of using assms(3)
    by (simp only: upt_conv_Cons cbf_loop.simps Let_def if_True not_False_eq_True)
qed

section \<open>Properties\<close>

text \<open>
  C22. The sort-and-threshold routine is the Euclidean projection onto the probability simplex:
  for every non-empty vector it returns a probability vector of the same length, and no
  probability vector is nearer to the input.
\<close>

theorem simplex_projection_nearest:
  assumes "v \<noteq> []" and "is_dist x" and "length x = length v"
  shows "is_dist (project_simplex v) \<and> length (project_simplex v) = length v \<and>
         sq_dist (project_simplex v) v \<le> sq_dist x v"
  using assms project_simplex_is_dist project_simplex_nearest_dist by simp

theorem simplex_projection_nearest_witness:
  "sq_dist (project_simplex [2, 1/2]) [2, 1/2] \<le> sq_dist [1/2, 1/2] [2, 1/2]"
  using simplex_projection_nearest[of "[2, 1/2]" "[1/2, 1/2]"] by (simp add: is_dist_def)

text \<open>
  The training-time routine, which counts the candidate positions, and the runtime routine,
  which takes the last one and has a uniform fallback, compute the same vector: the candidates
  form a prefix and the fallback is never taken.
\<close>

theorem torch_projection_same:
  assumes "v \<noteq> []"
  shows "torch_simplex_project v = project_simplex v \<and> (\<exists>c\<in>set (rho_candidates (sort_desc v)). c)"
  using torch_simplex_eq[OF assms] rho_candidates_0[of "sort_desc v"] assms
  by (metis length_greater_0_conv length_rho_candidates nth_mem sort_desc_Nil)

theorem torch_projection_same_witness:
  "torch_simplex_project [3, 0, 1] = project_simplex [3, 0, 1]"
  using torch_projection_same[of "[3, 0, 1]"] by simp

text \<open>
  C23. The projector returns a probability vector over the same backends within its iteration
  budget, and it reports a backend as fired exactly when its load exceeds its cap.
\<close>

theorem cbf_result_sound:
  assumes "cbf_ready p weights loads caps" and "0 < cp_max_iter p"
  shows "is_dist (cr_weights (project_full p weights loads caps)) \<and>
         length (cr_weights (project_full p weights loads caps)) = length weights \<and>
         cr_iterations (project_full p weights loads caps) \<le> cp_max_iter p \<and>
         (\<forall>i<length weights. cr_fired (project_full p weights loads caps) ! i \<longleftrightarrow>
            caps_of p (length weights) caps ! i < loads ! i)"
  using project_full_is_dist[OF assms(1)] project_full_track[OF assms(1)] project_full_fired[OF assms]
  by simp

theorem cbf_result_sound_witness:
  "cr_fired (project_full cbf_default [1, 3] [9/10, 1/10] None) ! 0 \<and>
   \<not> cr_fired (project_full cbf_default [1, 3] [9/10, 1/10] None) ! 1"
  using cbf_result_sound[of cbf_default "[1, 3]" "[9/10, 1/10]" None]
  by (simp add: cbf_ready_def caps_of_def cbf_default_def)

text \<open>
  C24. The correction never takes weight from a backend within its cap, and what it can take from
  an overloaded one is bounded: each iteration lowers a weight by at most the step size times the
  strength times the excess load, so a call with the default parameters and loads up to one moves
  at most a tenth of the traffic. The projection does not keep a backend below its cap.
\<close>

theorem cbf_correction_bounded:
  assumes "cbf_ready p weights loads caps" and "i < length weights"
  shows "cbf_normalise weights ! i -
           real (cr_iterations (project_full p weights loads caps)) *
             (cp_lr p * cp_lam p * max 0 (loads ! i - caps_of p (length weights) caps ! i))
         \<le> cr_weights (project_full p weights loads caps) ! i"
  using project_full_track[OF assms(1)] assms by (auto simp: cbf_track_def cbf_ready_def)

theorem cbf_correction_bounded_witness:
  "9/10 \<le> cr_weights (project_full cbf_default [1, 0] [1, 0] None) ! 0"
proof -
  have ready: "cbf_ready cbf_default [1, 0] [1, 0] None"
    by (simp add: cbf_ready_def caps_of_def cbf_default_def)
  have "real (cr_iterations (project_full cbf_default [1, 0] [1, 0] None)) \<le> 100"
    using project_full_track[OF ready] by (simp add: cbf_default_def)
  then show ?thesis
    using cbf_correction_bounded[OF ready, of 0]
    by (simp add: cbf_normalise_def caps_of_def cbf_default_def)
qed

text \<open>
  The flag \<open>converged\<close> does not say that the constraints hold: with a single backend above
  its cap the simplex leaves no room for a correction, the first iteration changes nothing, and
  the loop stops with \<open>converged\<close> set while the backend is reported as violating.
\<close>

theorem cbf_converged_while_violating:
  assumes "cp_cap p < l" and "0 < cp_tol p" and "0 < cp_max_iter p"
  shows "project_full p [1] [l] None =
         \<lparr>cr_weights = [1], cr_fired = [True], cr_iterations = 1, cr_converged = True\<rparr>"
proof -
  have step: "cbf_step p [h] [1] = [1]" for h
  proof -
    have "is_dist (cbf_step p [h] [1])" "length (cbf_step p [h] [1]) = 1"
      using cbf_step_is_dist[of "[1]" "[h]" p] by simp_all
    then show ?thesis by (cases "cbf_step p [h] [1]") (auto simp: is_dist_def)
  qed
  obtain m where "cp_max_iter p = Suc m" using assms(3) by (cases "cp_max_iter p") auto
  then show ?thesis using assms step
    by (simp add: project_full_def cbf_normalise_def upt_conv_Cons Let_def del: upt_Suc)
qed

theorem cbf_converged_while_violating_witness:
  "cr_converged (project_full cbf_default [1] [95/100] None)"
  using cbf_converged_while_violating[of cbf_default "95/100"] by (simp add: cbf_default_def)

end
