(* ===== verification/Weight_Stage.thy ===== *)
theory Weight_Stage
  imports Omega_Prelude
begin

text \<open>
  The interface between the stages of the control loop of \<open>demo/proxy.py\<close>: a stage that
  produces routing weights promises a probability vector over the backends, and the loop turns
  each weight into a number of virtual nodes. \<open>Kan_Inference\<close> and \<open>Safety_Monitor\<close>
  interpret the locale.
\<close>

definition weight_count :: "nat \<Rightarrow> real \<Rightarrow> int" where
  \<comment> \<open>\<open>max(10, int(w * 150 * N))\<close>\<close>
  "weight_count n w = max 10 (py_int (w * 150 * real n))"

lemma weight_count_range:
  assumes "0 \<le> w" and "w \<le> 1" and "0 < n"
  shows "10 \<le> weight_count n w \<and> weight_count n w \<le> 150 * int n"
proof -
  have "w * 150 * real n \<le> 150 * real n"
    using assms mult_right_mono[of w 1 "150 * real n"] by (simp add: mult.assoc)
  then have "py_int (w * 150 * real n) \<le> 150 * int n"
    using assms(1) by (simp add: py_int_def floor_le_iff)
  then show ?thesis using assms(3) by (simp add: weight_count_def)
qed

lemma weight_count_share: "1 / real n \<le> w \<Longrightarrow> 0 < n \<Longrightarrow> 150 \<le> weight_count n w"
  by (simp add: weight_count_def py_int_def field_simps le_max_iff_disj le_floor_iff)

lemma is_dist_big_entry:
  assumes "is_dist w"
  shows "\<exists>i<length w. 1 / real (length w) \<le> w ! i"
proof (rule ccontr)
  have ne: "w \<noteq> []" using assms by (auto simp: is_dist_def)
  assume "\<not> (\<exists>i<length w. 1 / real (length w) \<le> w ! i)"
  then have lt: "\<And>i. i < length w \<Longrightarrow> w ! i < 1 / real (length w)" by (meson not_le)
  have "(\<Sum>i<length w. w ! i) < (\<Sum>i<length w. 1 / real (length w))"
    using lt ne by (intro sum_strict_mono) auto
  then show False using assms ne by (simp add: is_dist_def sum_list_sum_nth atLeast0LessThan)
qed

locale weight_stage =
  fixes ready :: "'i \<Rightarrow> bool"
    and size_of :: "'i \<Rightarrow> nat"
    and weights_of :: "'i \<Rightarrow> real list"
  assumes weights_dist: "ready x \<Longrightarrow> is_dist (weights_of x)"
    and weights_length: "ready x \<Longrightarrow> length (weights_of x) = size_of x"
begin

lemma size_pos: "ready x \<Longrightarrow> 0 < size_of x"
  using weights_dist[of x] weights_length[of x] by (cases "weights_of x") (auto simp: is_dist_def)

lemma counts_range:
  assumes "ready x" and "i < size_of x"
  shows "10 \<le> weight_count (size_of x) (weights_of x ! i) \<and>
         weight_count (size_of x) (weights_of x ! i) \<le> 150 * int (size_of x)"
  using assms is_dist_le_one[OF weights_dist[OF assms(1)]] weights_length size_pos
  by (intro weight_count_range) (auto simp: nth_mem)

text \<open>Some backend keeps at least the 150 virtual nodes of a fair share.\<close>

lemma fair_share:
  assumes "ready x"
  shows "\<exists>i < size_of x. 150 \<le> weight_count (size_of x) (weights_of x ! i)"
  using is_dist_big_entry[OF weights_dist[OF assms]] weights_length[OF assms] size_pos[OF assms]
    weight_count_share by metis

end

end
