(* ===== verification/Kan_Inference.thy ===== *)
theory Kan_Inference
  imports Weight_Stage
begin

text \<open>
  \<open>ml/kan/kan_inference.py\<close>: routing weights from load, latency, error rate and health, either
  by the symbolic equations or by an ONNX session, with the symbolic form as the fallback on any
  ONNX error. The session is a parameter: the function \<open>run\<close> from the state vector to an output
  row or an exception. Clock readings are arguments.
\<close>

section \<open>State\<close>

datatype kan_path = Onnx | Symbolic

record kan_stats =
  ks_inference_count :: nat
  ks_onnx_count :: nat
  ks_symbolic_count :: nat
  ks_error_count :: nat
  ks_mean_latency_ms :: real
  ks_alpha :: real

definition stats_init :: kan_stats where
  "stats_init = \<lparr>ks_inference_count = 0, ks_onnx_count = 0, ks_symbolic_count = 0,
     ks_error_count = 0, ks_mean_latency_ms = 0, ks_alpha = 5/100\<rparr>"

definition stats_record :: "kan_stats \<Rightarrow> kan_path \<Rightarrow> real \<Rightarrow> bool \<Rightarrow> kan_stats" where
  "stats_record s mode latency_ms err =
     (let s = s\<lparr>ks_inference_count := ks_inference_count s + 1\<rparr>;
          s = (if mode = Onnx then s\<lparr>ks_onnx_count := ks_onnx_count s + 1\<rparr>
               else s\<lparr>ks_symbolic_count := ks_symbolic_count s + 1\<rparr>);
          s = (if err then s\<lparr>ks_error_count := ks_error_count s + 1\<rparr> else s)
      in s\<lparr>ks_mean_latency_ms := ks_alpha s * latency_ms + (1 - ks_alpha s) * ks_mean_latency_ms s\<rparr>)"

definition stats_mode :: "kan_stats \<Rightarrow> kan_path" where
  \<comment> \<open>the entry \<open>mode\<close> of \<open>to_dict\<close>\<close>
  "stats_mode s = (if ks_onnx_count s \<ge> ks_symbolic_count s then Onnx else Symbolic)"

type_synonym onnx_session = "real list \<Rightarrow> py_err + real list"

record kan =
  kn_cpu_coeff :: real
  kn_lat_coeff :: real
  kn_err_coeff :: real
  kn_session :: "onnx_session option"
  kn_stats :: kan_stats

definition kan_new :: "onnx_session option \<Rightarrow> kan" where
  "kan_new session = \<lparr>kn_cpu_coeff = 42/100, kn_lat_coeff = 31/100, kn_err_coeff = 10,
     kn_session = session, kn_stats = stats_init\<rparr>"

definition kan_load :: "bool \<Rightarrow> py_err + onnx_session \<Rightarrow> kan" where
  \<comment> \<open>\<open>load\<close>: whether the model file exists, and what loading it gives\<close>
  "kan_load file_exists loaded =
     (if \<not> file_exists then kan_new None
      else case loaded of Inl e \<Rightarrow> kan_new None | Inr session \<Rightarrow> kan_new (Some session))"

definition reload_onnx :: "kan \<Rightarrow> py_err + onnx_session \<Rightarrow> kan \<times> bool" where
  "reload_onnx k loaded =
     (case loaded of Inl e \<Rightarrow> (k, False) | Inr session \<Rightarrow> (k\<lparr>kn_session := Some session\<rparr>, True))"

definition update_symbolic_coefficients :: "kan \<Rightarrow> real \<Rightarrow> real \<Rightarrow> real \<Rightarrow> kan" where
  "update_symbolic_coefficients k cpu_coeff lat_coeff err_coeff =
     k\<lparr>kn_cpu_coeff := cpu_coeff, kn_lat_coeff := lat_coeff, kn_err_coeff := err_coeff\<rparr>"

definition kan_mode :: "kan \<Rightarrow> kan_path" where
  "kan_mode k = (case kn_session k of None \<Rightarrow> Symbolic | Some _ \<Rightarrow> Onnx)"

section \<open>Inference\<close>

definition infer_symbolic :: "kan \<Rightarrow> real list \<Rightarrow> real list \<Rightarrow> real list \<Rightarrow> bool list \<Rightarrow> py_err + real list" where
  "infer_symbolic k cpu lat_ms err health =
     (let h = map flag health
      in bindE (np_bin (-) (map (\<lambda>x. 1 - kn_cpu_coeff k * x) cpu)
                           (map (\<lambda>x. kn_lat_coeff k * x / 1000) lat_ms)) (\<lambda>a.
         bindE (np_bin (-) a (map (\<lambda>x. kn_err_coeff k * x) err)) (\<lambda>b.
         bindE (np_bin (*) (map (\<lambda>x. max 0 x) b) h) (\<lambda>raw.
           let total = sum_list raw;
               healthy_count = sum_list h
           in if total < 1 / 10 ^ 9 then
                if healthy_count > 0 then Inr (map (\<lambda>x. x / healthy_count) h)
                else Inr (replicate (length h) (1 / real (length h)))
              else Inr (map (\<lambda>x. x / total) raw)))))"

definition backend_features :: "real \<Rightarrow> real \<Rightarrow> real \<Rightarrow> real \<Rightarrow> real list" where
  \<comment> \<open>the eight entries of one backend, from its cpu, latency, error rate and health\<close>
  "backend_features cpu lat_ms err h =
     [cpu, cpu * 1000, max 0 (cpu - 5/10) * 100, lat_ms, cpu * 1024 * 100, cpu * 512 * 100, h, err]"

definition onnx_state :: "real list \<Rightarrow> real list \<Rightarrow> real list \<Rightarrow> real list \<Rightarrow> real \<Rightarrow> real list" where
  "onnx_state cpu lat_ms err h t =
     concat (map (\<lambda>i. backend_features (cpu ! i) (lat_ms ! i) (err ! i) (h ! i)) [0..<length cpu])
     @ [sum_list cpu * 1000, np_max lat_ms, sin t, cos t]"

definition infer_onnx :: "onnx_session \<Rightarrow> real \<Rightarrow> real list \<Rightarrow> real list \<Rightarrow> real list \<Rightarrow> bool list \<Rightarrow> py_err + real list" where
  \<comment> \<open>\<open>t\<close> is the clock modulo a full turn\<close>
  "infer_onnx run t cpu lat_ms err health =
     (let n = length cpu;
          h = map flag health
      in if length lat_ms < n \<or> length h < n \<or> length err < n then Inl IndexError
         else if lat_ms = [] then Inl ValueError
         else bindE (run (onnx_state cpu lat_ms err h t)) (\<lambda>output.
              bindE (np_bin (*) (map (\<lambda>x. max x 0) output) h) (\<lambda>raw.
                let total = sum_list raw
                in if total > 1 / 10 ^ 9 then Inr (map (\<lambda>x. x / total) raw)
                   else Inr (map (\<lambda>x. x / max (sum_list h) 1) h))))"

definition kan_infer :: "kan \<Rightarrow> real \<Rightarrow> real \<Rightarrow> real \<Rightarrow> real list \<Rightarrow> real list \<Rightarrow> real list \<Rightarrow> bool list \<Rightarrow> py_err + kan \<times> real list" where
  \<comment> \<open>\<open>infer\<close>, with the clock read before and after; an exception of the fallback escapes\<close>
  "kan_infer k t0 t t1 cpu lat_ms err health =
     (let mode = (case kn_session k of None \<Rightarrow> Symbolic | Some _ \<Rightarrow> Onnx);
          attempt = (case kn_session k of
                       Some run \<Rightarrow> infer_onnx run t cpu lat_ms err health
                     | None \<Rightarrow> infer_symbolic k cpu lat_ms err health)
      in case attempt of
           Inr w \<Rightarrow> Inr (k\<lparr>kn_stats := stats_record (kn_stats k) mode ((t1 - t0) * 1000) False\<rparr>, w)
         | Inl _ \<Rightarrow> bindE (infer_symbolic k cpu lat_ms err health) (\<lambda>w.
             Inr (k\<lparr>kn_stats := stats_record (kn_stats k) Symbolic ((t1 - t0) * 1000) True\<rparr>, w)))"

definition equation_raw :: "kan \<Rightarrow> real list \<Rightarrow> real list \<Rightarrow> real list \<Rightarrow> bool list \<Rightarrow> real list" where
  \<comment> \<open>the values \<open>raw\<close> that \<open>equations\<close> prints, one per backend\<close>
  "equation_raw k cpu lat_ms err health =
     map (\<lambda>i. max 0 (1 - kn_cpu_coeff k * cpu ! i - kn_lat_coeff k * (lat_ms ! i) / 1000
                       - kn_err_coeff k * err ! i) * flag (health ! i)) [0..<length cpu]"

section \<open>Weights supported on the healthy backends\<close>

definition masked :: "bool list \<Rightarrow> real list \<Rightarrow> bool" where
  \<comment> \<open>one non-negative entry per backend, zero on the unhealthy ones\<close>
  "masked health w \<longleftrightarrow> length w = length health \<and>
     (\<forall>i<length health. 0 \<le> w ! i \<and> (\<not> health ! i \<longrightarrow> w ! i = 0))"

lemma masked_nonneg: "masked health w \<Longrightarrow> \<forall>x \<in> set w. 0 \<le> x"
  by (auto simp: masked_def in_set_conv_nth)

lemma masked_divide: "masked health w \<Longrightarrow> 0 \<le> c \<Longrightarrow> masked health (map (\<lambda>x. x / c) w)"
  by (auto simp: masked_def)

lemma masked_flags: "masked health (map flag health)"
  by (auto simp: masked_def flag_def)

lemma masked_product:
  "np_bin (*) raw (map flag health) = Inr w \<Longrightarrow> \<forall>x \<in> set raw. 0 \<le> x \<Longrightarrow> 1 < length health \<or> length raw = length health \<Longrightarrow>
     masked health w"
  by (cases health; cases raw) (auto simp: masked_def np_bin_def flag_def nth_Cons' split: if_splits)

lemma sum_flags: "sum_list (map flag health) = real (length (filter id health))"
  by (induction health) (simp_all add: flag_def)

lemma sum_flags_ge_1: "True \<in> set health \<Longrightarrow> 1 \<le> sum_list (map flag health)"
  unfolding sum_flags by (induction health) auto

lemma sum_flags_0: "True \<notin> set health \<Longrightarrow> sum_list (map flag health) = 0"
  unfolding sum_flags by (induction health) auto

lemma infer_symbolic_masked:
  assumes "length lat_ms = length cpu" and "length err = length cpu" and "length health = length cpu"
    and "True \<in> set health"
  shows "\<exists>w. infer_symbolic k cpu lat_ms err health = Inr w \<and> is_dist w \<and> masked health w"
proof -
  define c where "c = map (\<lambda>x. max 0 x) (map2 (-) (map2 (-) (map (\<lambda>x. 1 - kn_cpu_coeff k * x) cpu)
      (map (\<lambda>x. kn_lat_coeff k * x / 1000) lat_ms)) (map (\<lambda>x. kn_err_coeff k * x) err))"
  have lc: "length c = length (map flag health)" using assms by (simp add: c_def)
  define raw where "raw = map2 (*) c (map flag health)"
  have "\<forall>x\<in>set c. 0 \<le> x" by (auto simp: c_def)
  then have m: "masked health raw"
    using masked_product[of c health raw] np_bin_same[OF lc] lc by (simp add: raw_def)
  have hs: "1 \<le> sum_list (map flag health)" using sum_flags_ge_1[OF assms(4)] .
  have eq: "infer_symbolic k cpu lat_ms err health =
      (if sum_list raw < 1 / 10 ^ 9 then Inr (map (\<lambda>x. x / sum_list (map flag health)) (map flag health))
       else Inr (map (\<lambda>x. x / sum_list raw) raw))"
    using assms hs lc by (simp add: infer_symbolic_def Let_def raw_def c_def)
  show ?thesis
  proof (cases "sum_list raw < 1 / 10 ^ 9")
    case True
    then show ?thesis unfolding eq
      using hs is_dist_normalise[OF masked_nonneg[OF masked_flags], of health]
        masked_divide[OF masked_flags, of "sum_list (map flag health)" health] by simp
  next
    case False
    then have "0 < sum_list raw" by (meson not_less less_le_trans zero_less_divide_1_iff zero_less_power zero_less_numeral)
    then show ?thesis unfolding eq
      using False is_dist_normalise[OF masked_nonneg[OF m]] masked_divide[OF m, of "sum_list raw"] by simp
  qed
qed

lemma infer_symbolic_all_down:
  assumes "length lat_ms = length cpu" and "length err = length cpu" and "length health = length cpu"
    and "True \<notin> set health"
  shows "infer_symbolic k cpu lat_ms err health =
         Inr (replicate (length health) (1 / real (length health)))"
proof -
  have "map2 (*) xs (map flag health) = replicate (length health) 0" if "length xs = length health" for xs
  proof (rule nth_equalityI)
    fix i assume "i < length (map2 (*) xs (map flag health))"
    then have "i < length health" "\<not> health ! i" using that assms(4) by (auto simp: in_set_conv_nth)
    then show "map2 (*) xs (map flag health) ! i = replicate (length health) 0 ! i" using that by simp
  qed (use that in simp)
  then show ?thesis
    using assms(1-3) sum_flags_0[OF assms(4)] by (simp add: infer_symbolic_def Let_def sum_list_replicate)
qed

lemma infer_onnx_masked:
  assumes "infer_onnx run t cpu lat_ms err health = Inr w" and "1 < length health"
  shows "masked health w \<and> (True \<in> set health \<longrightarrow> is_dist w)"
proof -
  let ?h = "map flag health"
  obtain outp raw where raw: "np_bin (*) (map (\<lambda>x. max x 0) outp) ?h = Inr raw"
    and w: "w = (if sum_list raw > 1 / 10 ^ 9 then map (\<lambda>x. x / sum_list raw) raw
                 else map (\<lambda>x. x / max (sum_list ?h) 1) ?h)"
    using assms(1) by (auto simp: infer_onnx_def Let_def bindE_Inr_iff split: if_splits)
  have m: "masked health raw" using masked_product[OF raw] assms(2) by auto
  show ?thesis
  proof (cases "sum_list raw > 1 / 10 ^ 9")
    case True
    then have "0 < sum_list raw" by (meson less_trans zero_less_divide_1_iff zero_less_power zero_less_numeral)
    then show ?thesis
      using True w is_dist_normalise[OF masked_nonneg[OF m]] masked_divide[OF m, of "sum_list raw"] by simp
  next
    case False
    have "is_dist w" if "True \<in> set health"
      using False w sum_flags_ge_1[OF that] is_dist_normalise[OF masked_nonneg[OF masked_flags], of health]
      by (simp add: max_absorb1)
    moreover have "masked health w"
      using False w masked_divide[OF masked_flags, of "max (sum_list ?h) 1" health] by simp
    ultimately show ?thesis by simp
  qed
qed

section \<open>The stage contract\<close>

definition kan_ready :: "real list \<Rightarrow> real list \<Rightarrow> real list \<Rightarrow> bool list \<Rightarrow> bool" where
  \<comment> \<open>one entry per backend, at least two backends, one of them healthy\<close>
  "kan_ready cpu lat_ms err health \<longleftrightarrow>
     length lat_ms = length cpu \<and> length err = length cpu \<and> length health = length cpu \<and>
     1 < length cpu \<and> True \<in> set health"

lemma kan_infer_masked:
  assumes "kan_ready cpu lat_ms err health"
  shows "\<exists>k' w. kan_infer k t0 t t1 cpu lat_ms err health = Inr (k', w) \<and> is_dist w \<and> masked health w"
proof -
  note r = assms[unfolded kan_ready_def]
  obtain ws where ws: "infer_symbolic k cpu lat_ms err health = Inr ws" "is_dist ws" "masked health ws"
    using infer_symbolic_masked r by metis
  show ?thesis
  proof (cases "kn_session k")
    case None
    then show ?thesis using ws by (simp add: kan_infer_def)
  next
    case (Some run)
    show ?thesis
    proof (cases "infer_onnx run t cpu lat_ms err health")
      case (Inl e)
      then show ?thesis using ws Some by (simp add: kan_infer_def)
    next
      case (Inr w)
      then have "masked health w \<and> is_dist w" using infer_onnx_masked[OF Inr] r by simp
      then show ?thesis using Inr Some by (simp add: kan_infer_def)
    qed
  qed
qed

record kan_call =
  kc_kan :: kan
  kc_t0 :: real
  kc_t :: real
  kc_t1 :: real
  kc_cpu :: "real list"
  kc_lat :: "real list"
  kc_err :: "real list"
  kc_health :: "bool list"

definition kan_call_weights :: "kan_call \<Rightarrow> real list" where
  "kan_call_weights c =
     snd (projr (kan_infer (kc_kan c) (kc_t0 c) (kc_t c) (kc_t1 c) (kc_cpu c) (kc_lat c) (kc_err c) (kc_health c)))"

interpretation kan_stage: weight_stage
  "\<lambda>c. kan_ready (kc_cpu c) (kc_lat c) (kc_err c) (kc_health c)" "\<lambda>c. length (kc_cpu c)" kan_call_weights
proof
  fix c :: kan_call
  assume r: "kan_ready (kc_cpu c) (kc_lat c) (kc_err c) (kc_health c)"
  obtain k' w where w: "kan_infer (kc_kan c) (kc_t0 c) (kc_t c) (kc_t1 c) (kc_cpu c) (kc_lat c) (kc_err c) (kc_health c) = Inr (k', w)"
    "is_dist w" "masked (kc_health c) w"
    using kan_infer_masked[OF r] by blast
  then show "is_dist (kan_call_weights c)" by (simp add: kan_call_weights_def)
  show "length (kan_call_weights c) = length (kc_cpu c)"
    using w r by (simp add: kan_call_weights_def masked_def kan_ready_def)
qed

section \<open>Properties\<close>



text \<open>
  The promise that the vector sums to one fails on the ONNX path when every backend is
  unhealthy: the mask removes all the mass and the fallback divides the all-zero mask, so the
  result is the zero vector. The symbolic path returns the uniform vector in the same state.
\<close>

theorem kan_onnx_all_down_zero:
  assumes "kn_session k = Some run" and "run (onnx_state cpu lat_ms err (map flag health) t) = Inr out"
    and "length out = length cpu" and "length lat_ms = length cpu" and "length err = length cpu"
    and "length health = length cpu" and "cpu \<noteq> []" and "True \<notin> set health"
  shows "(\<exists>k'. kan_infer k t0 t t1 cpu lat_ms err health = Inr (k', replicate (length cpu) 0)) \<and>
         infer_symbolic k cpu lat_ms err health = Inr (replicate (length cpu) (1 / real (length cpu)))"
proof -
  have flags: "map flag health = replicate (length cpu) 0"
    using assms(6,8) by (intro nth_equalityI) (auto simp: in_set_conv_nth flag_def)
  have "map2 (*) (map (\<lambda>x. max x 0) out) (replicate (length cpu) 0) = replicate (length cpu) (0::real)"
    using assms(3) by (intro nth_equalityI) auto
  then have "infer_onnx run t cpu lat_ms err health = Inr (replicate (length cpu) 0)"
    using assms(2-7) by (auto simp: infer_onnx_def Let_def flags[symmetric])
      (simp_all add: flags sum_list_replicate)
  then show ?thesis
    using assms(1) infer_symbolic_all_down[OF assms(4-6,8)] assms(6) by (simp add: kan_infer_def)
qed

theorem kan_onnx_all_down_zero_witness:
  "\<exists>k'. kan_infer (kan_new (Some (\<lambda>s. Inr [1/2, 1/2]))) 0 0 1 [0, 0] [10, 10] [0, 0] [False, False] = Inr (k', [0, 0])"
  using kan_onnx_all_down_zero[of "kan_new (Some (\<lambda>s. Inr [1/2, 1/2]))" "\<lambda>s. Inr [1/2, 1/2]" "[0, 0]" "[10, 10]" "[0, 0]"
      "[False, False]" 0 "[1/2, 1/2]" 0 1]
  by (simp add: kan_new_def numeral_2_eq_2)

text \<open>
  The symbolic weights prefer the less loaded backend: between two healthy backends, the one
  with no more load, latency and errors gets at least the weight of the other, for every choice
  of non-negative coefficients.
\<close>

theorem kan_symbolic_monotone:
  assumes "infer_symbolic k cpu lat_ms err health = Inr w"
    and "length lat_ms = length cpu" and "length err = length cpu" and "length health = length cpu"
    and "0 \<le> kn_cpu_coeff k" and "0 \<le> kn_lat_coeff k" and "0 \<le> kn_err_coeff k"
    and "i < length cpu" and "j < length cpu" and "health ! i" and "health ! j"
    and "cpu ! i \<le> cpu ! j" and "lat_ms ! i \<le> lat_ms ! j" and "err ! i \<le> err ! j"
  shows "w ! j \<le> w ! i"
proof -
  define raw where "raw = map2 (*) (map (\<lambda>x. max 0 x) (map2 (-) (map2 (-) (map (\<lambda>x. 1 - kn_cpu_coeff k * x) cpu)
      (map (\<lambda>x. kn_lat_coeff k * x / 1000) lat_ms)) (map (\<lambda>x. kn_err_coeff k * x) err))) (map flag health)"
  have raw: "raw ! m = max 0 (1 - kn_cpu_coeff k * cpu ! m - kn_lat_coeff k * lat_ms ! m / 1000 - kn_err_coeff k * err ! m) * flag (health ! m)"
    if "m < length cpu" for m
    using that assms(2-4) by (simp add: raw_def)
  have w: "w = (if sum_list raw < 1 / 10 ^ 9
           then if sum_list (map flag health) > 0 then map (\<lambda>x. x / sum_list (map flag health)) (map flag health)
                else replicate (length health) (1 / real (length health))
           else map (\<lambda>x. x / sum_list raw) raw)"
    using assms(1-4) by (simp add: infer_symbolic_def Let_def raw_def split: if_splits)
  have len: "length raw = length cpu" using assms(2-4) by (simp add: raw_def)
  have "kn_cpu_coeff k * cpu ! i \<le> kn_cpu_coeff k * cpu ! j" "kn_err_coeff k * err ! i \<le> kn_err_coeff k * err ! j"
    "kn_lat_coeff k * lat_ms ! i / 1000 \<le> kn_lat_coeff k * lat_ms ! j / 1000"
    using assms(5-7,12-14) by (simp_all add: mult_left_mono divide_right_mono)
  then have "raw ! j \<le> raw ! i" using raw assms(8-11) by simp
  moreover have "0 < sum_list raw" if "\<not> sum_list raw < 1 / 10 ^ 9"
    using that by (meson not_less less_le_trans zero_less_divide_1_iff zero_less_power zero_less_numeral)
  ultimately show ?thesis
    using w len assms(4,8-11) by (auto simp: divide_right_mono)
qed

theorem kan_symbolic_monotone_witness:
  "projr (infer_symbolic (kan_new None) [1/2, 1/4] [100, 100] [0, 0] [True, True]) ! 0
     \<le> projr (infer_symbolic (kan_new None) [1/2, 1/4] [100, 100] [0, 0] [True, True]) ! 1"
proof -
  obtain w where "infer_symbolic (kan_new None) [1/2, 1/4] [100, 100] [0, 0] [True, True] = Inr w"
    using infer_symbolic_masked[of "[100, 100]" "[1/2, 1/4]" "[0, 0]" "[True, True]"] by auto
  then show ?thesis
    using kan_symbolic_monotone[of "kan_new None" "[1/2, 1/4]" "[100, 100]" "[0, 0]" "[True, True]" w 1 0]
    by (simp add: kan_new_def)
qed

text \<open>
  The printed equations are the ones in force on the symbolic path: whenever their total is
  not negligible, each weight is the printed value divided by the total.
\<close>

theorem kan_equations_agree:
  assumes "length lat_ms = length cpu" and "length err = length cpu" and "length health = length cpu"
    and "1 / 10 ^ 9 \<le> sum_list (equation_raw k cpu lat_ms err health)"
  shows "infer_symbolic k cpu lat_ms err health =
         Inr (map (\<lambda>x. x / sum_list (equation_raw k cpu lat_ms err health)) (equation_raw k cpu lat_ms err health))"
proof -
  have "map2 (*) (map (\<lambda>x. max 0 x) (map2 (-) (map2 (-) (map (\<lambda>x. 1 - kn_cpu_coeff k * x) cpu)
      (map (\<lambda>x. kn_lat_coeff k * x / 1000) lat_ms)) (map (\<lambda>x. kn_err_coeff k * x) err))) (map flag health)
      = equation_raw k cpu lat_ms err health"
    using assms(1-3) by (intro nth_equalityI) (simp_all add: equation_raw_def)
  then show ?thesis using assms by (simp add: infer_symbolic_def Let_def not_less[symmetric])
qed

theorem kan_equations_agree_witness:
  "infer_symbolic (kan_new None) [0, 0] [0, 1000] [0, 0] [True, True] = Inr [1 / (169/100), (69/100) / (169/100)]"
  using kan_equations_agree[of "[0, 1000]" "[0, 0]" "[0, 0]" "[True, True]" "kan_new None"]
  by (simp add: equation_raw_def kan_new_def)

section \<open>Statistics\<close>

inductive kan_reach :: "real \<Rightarrow> kan \<Rightarrow> bool" for L :: real where
  \<comment> \<open>the states of an engine whose inferences each take at most \<open>L\<close> milliseconds\<close>
  load: "kan_reach L (kan_load file_exists loaded)"
| infer: "kan_reach L k \<Longrightarrow> t0 \<le> t1 \<Longrightarrow> (t1 - t0) * 1000 \<le> L \<Longrightarrow>
    kan_infer k t0 t t1 cpu lat_ms err health = Inr (k', w) \<Longrightarrow> kan_reach L k'"
| reload: "kan_reach L k \<Longrightarrow> kan_reach L (fst (reload_onnx k loaded))"
| update: "kan_reach L k \<Longrightarrow> kan_reach L (update_symbolic_coefficients k a b c)"

definition stats_ok :: "real \<Rightarrow> kan_stats \<Rightarrow> bool" where
  "stats_ok L s \<longleftrightarrow> ks_inference_count s = ks_onnx_count s + ks_symbolic_count s \<and>
     ks_error_count s \<le> ks_symbolic_count s \<and> ks_alpha s = 5/100 \<and>
     0 \<le> ks_mean_latency_ms s \<and> ks_mean_latency_ms s \<le> L"

lemma stats_record_ok:
  assumes "stats_ok L s" and "0 \<le> ms" and "ms \<le> L" and "err \<longrightarrow> mode = Symbolic"
  shows "stats_ok L (stats_record s mode ms err)"
proof -
  have "ks_alpha s * ms + (1 - ks_alpha s) * ks_mean_latency_ms s \<le> L"
    using assms by (intro convex_bound_le) (auto simp: stats_ok_def)
  then show ?thesis
    using assms by (cases mode; cases err) (auto simp: stats_ok_def stats_record_def Let_def)
qed

lemma kan_infer_stats:
  assumes "kan_infer k t0 t t1 cpu lat_ms err health = Inr (k', w)"
  shows "kn_stats k' = stats_record (kn_stats k) Onnx ((t1 - t0) * 1000) False \<or>
         kn_stats k' = stats_record (kn_stats k) Symbolic ((t1 - t0) * 1000) False \<or>
         kn_stats k' = stats_record (kn_stats k) Symbolic ((t1 - t0) * 1000) True"
  using assms by (auto simp: kan_infer_def Let_def bindE_Inr_iff split: option.splits sum.splits)

text \<open>
  The statistics of an engine stay consistent through any sequence of loads, inferences,
  reloads and coefficient updates: every inference is counted once as ONNX or symbolic, failed
  attempts are counted as symbolic, and the smoothed latency stays within the range of the
  measured ones.
\<close>

theorem kan_stats_consistent:
  assumes "kan_reach L k" and "0 \<le> L"
  shows "ks_inference_count (kn_stats k) = ks_onnx_count (kn_stats k) + ks_symbolic_count (kn_stats k) \<and>
         ks_error_count (kn_stats k) \<le> ks_symbolic_count (kn_stats k) \<and>
         0 \<le> ks_mean_latency_ms (kn_stats k) \<and> ks_mean_latency_ms (kn_stats k) \<le> L"
proof -
  have "stats_ok L (kn_stats k)"
    using assms
  proof (induction rule: kan_reach.induct)
    case (load file_exists loaded)
    then show ?case
      by (auto simp: kan_load_def kan_new_def stats_init_def stats_ok_def split: sum.splits)
  next
    case (infer k t0 t1 t cpu lat_ms err health k' w)
    then have ok: "stats_ok L (kn_stats k)" "0 \<le> (t1 - t0) * 1000" by simp_all
    show ?case
      using kan_infer_stats[OF infer(4)] stats_record_ok[OF ok infer(3), of _ Symbolic]
        stats_record_ok[OF ok infer(3), of False Onnx] by auto
  next
    case (reload k loaded)
    then show ?case by (simp add: reload_onnx_def split: sum.splits)
  next
    case (update k a b c)
    then show ?case by (simp add: update_symbolic_coefficients_def)
  qed
  then show ?thesis by (simp add: stats_ok_def)
qed

theorem kan_stats_consistent_witness:
  "\<exists>k'. kan_reach 5 k' \<and> ks_inference_count (kn_stats k') = 1 \<and> ks_onnx_count (kn_stats k') + ks_symbolic_count (kn_stats k') = 1"
proof -
  have "kan_ready [0, 0] [0, 0] [0, 0] [True, True]" by (simp add: kan_ready_def)
  then obtain k' w where i: "kan_infer (kan_load False (Inl ValueError)) 0 0 (1/1000) [0, 0] [0, 0] [0, 0] [True, True] = Inr (k', w)"
    using kan_infer_masked by blast
  have r: "kan_reach 5 k'"
    by (rule kan_reach.infer[OF kan_reach.load _ _ i]) simp_all
  have "ks_inference_count (kn_stats k') = 1"
    using kan_infer_stats[OF i] by (auto simp: stats_record_def Let_def kan_load_def kan_new_def stats_init_def)
  then show ?thesis using r kan_stats_consistent[OF r] by auto
qed

end
