(* ===== verification/Safety_Monitor.thy ===== *)
theory Safety_Monitor
  imports Cbf_Projection Weight_Stage
begin

text \<open>
  \<open>SafetyMonitor\<close> of \<open>ml/cbf/cbf_runtime.py\<close>: a projector with a rolling history of fired
  flags per backend, a bounded log of violations and cumulative counters. Each operation runs
  under the lock, so it is one step. The reading of \<open>time.time()\<close> for the event of backend \<open>i\<close>
  is \<open>clock i\<close>. The rounding and the time format of \<open>audit\<close> are left to the printer.
\<close>

section \<open>State\<close>

record cbf_violation =
  cv_timestamp :: real
  cv_backend_id :: nat
  cv_load :: real
  cv_cap :: real
  cv_weight_before :: real
  cv_weight_after :: real

record safety_monitor =
  sm_n :: nat
  sm_projector :: cbf_projector
  sm_history_len :: nat
  sm_vhist :: "nat list list"
  sm_vlog :: "cbf_violation list"
  sm_total_projections :: nat
  sm_total_violations :: nat
  sm_total_iters :: real
  sm_backend_caps :: "real list option"

definition sm_init :: "nat \<Rightarrow> real \<Rightarrow> real \<Rightarrow> real \<Rightarrow> nat \<Rightarrow> nat \<Rightarrow> safety_monitor" where
  "sm_init n_backends cap lam lr max_iter history_len =
     \<lparr>sm_n = n_backends,
      sm_projector = \<lparr>cp_cap = cap, cp_lam = lam, cp_lr = lr, cp_max_iter = max_iter, cp_tol = 1/1000000\<rparr>,
      sm_history_len = history_len, sm_vhist = replicate n_backends [], sm_vlog = [],
      sm_total_projections = 0, sm_total_violations = 0, sm_total_iters = 0, sm_backend_caps = None\<rparr>"

section \<open>Operations\<close>

definition sm_note :: "(nat \<Rightarrow> real) \<Rightarrow> real list \<Rightarrow> real list \<Rightarrow> cbf_result \<Rightarrow> safety_monitor \<Rightarrow> nat \<Rightarrow> py_err + safety_monitor" where
  \<comment> \<open>the loop body of \<open>step\<close> for backend \<open>i\<close>\<close>
  "sm_note clock weights loads result m i =
     bindE (py_get (cr_fired result) (int i)) (\<lambda>fired.
       let raw_total = sum_list weights;
           m = m\<lparr>sm_vhist := (sm_vhist m)[i := deque_push (sm_history_len m) (sm_vhist m ! i) (if fired then 1 else 0)]\<rparr>
       in if \<not> fired then Inr m
          else bindE (py_get loads (int i)) (\<lambda>load.
               bindE (py_get weights (int i)) (\<lambda>w.
               bindE (py_get (cr_weights result) (int i)) (\<lambda>w_after.
                 Inr (m\<lparr>sm_total_violations := sm_total_violations m + 1,
                        sm_vlog := deque_push 1000 (sm_vlog m)
                          \<lparr>cv_timestamp = clock i, cv_backend_id = i, cv_load = load,
                           cv_cap = cp_cap (sm_projector m),
                           cv_weight_before = (if raw_total > 1 / 10 ^ 9 then w / raw_total else 0),
                           cv_weight_after = w_after\<rparr>\<rparr>)))))"

definition sm_step :: "(nat \<Rightarrow> real) \<Rightarrow> safety_monitor \<Rightarrow> real list \<Rightarrow> real list \<Rightarrow> real list option \<Rightarrow>
    py_err + safety_monitor \<times> real list \<times> bool list" where
  "sm_step clock m weights loads caps =
     (let result = project_full (sm_projector m) weights loads caps;
          m = m\<lparr>sm_total_projections := sm_total_projections m + 1,
                sm_total_iters := sm_total_iters m + real (cr_iterations result)\<rparr>
      in bindE (foldE (sm_note clock weights loads result) m [0..<sm_n m]) (\<lambda>m.
           Inr (m, cr_weights result, cr_fired result)))"

definition violation_rate :: "safety_monitor \<Rightarrow> int \<Rightarrow> py_err + real" where
  "violation_rate m backend_id =
     bindE (py_get (sm_vhist m) backend_id) (\<lambda>hist.
       if hist = [] then Inr 0 else Inr (real (sum_list hist) / real (length hist)))"

definition violation_rates :: "safety_monitor \<Rightarrow> (py_err + real) list" where
  "violation_rates m = map (\<lambda>i. violation_rate m (int i)) [0..<sm_n m]"

definition slice_from :: "'a list \<Rightarrow> int \<Rightarrow> 'a list" where
  \<comment> \<open>the slice \<open>xs[start:]\<close>\<close>
  "slice_from xs start =
     (if start < 0 then drop (nat (int (length xs) + start)) xs else drop (nat start) xs)"

definition recent_violations :: "safety_monitor \<Rightarrow> int \<Rightarrow> cbf_violation list" where
  "recent_violations m n = rev (slice_from (sm_vlog m) (- n))"

record cbf_audit =
  au_total_projections :: nat
  au_total_violations :: nat
  au_mean_iters_per_step :: real
  au_violation_rates :: "(py_err + real) list"
  au_cap :: real
  au_recent_violations :: "cbf_violation list"

definition sm_audit :: "safety_monitor \<Rightarrow> cbf_audit" where
  "sm_audit m =
     \<lparr>au_total_projections = sm_total_projections m, au_total_violations = sm_total_violations m,
      au_mean_iters_per_step =
        (if sm_total_projections m > 0 then sm_total_iters m / real (sm_total_projections m) else 0),
      au_violation_rates = violation_rates m, au_cap = cp_cap (sm_projector m),
      au_recent_violations = recent_violations m 5\<rparr>"

definition set_cap :: "safety_monitor \<Rightarrow> real \<Rightarrow> safety_monitor" where
  "set_cap m cap = m\<lparr>sm_projector := (sm_projector m)\<lparr>cp_cap := cap\<rparr>\<rparr>"

definition set_backend_caps :: "safety_monitor \<Rightarrow> real list \<Rightarrow> safety_monitor" where
  "set_backend_caps m caps = m\<lparr>sm_backend_caps := Some caps\<rparr>"

definition get_backend_caps :: "safety_monitor \<Rightarrow> real list option" where
  "get_backend_caps m = sm_backend_caps m"

section \<open>The bounded queues\<close>

interpretation vlog_queue: bounded_log "deque_push 1000" "\<lambda>l :: cbf_violation list. l" 1000
  by unfold_locales (simp_all add: length_deque_push set_deque_push)

interpretation vhist_queue: bounded_log "deque_push h" "\<lambda>l :: nat list. l" h for h
  by unfold_locales (simp_all add: length_deque_push set_deque_push)

section \<open>The invariant\<close>

definition sm_ok :: "safety_monitor \<Rightarrow> bool" where
  \<comment> \<open>every backend has one flag per step up to the history length, and the log holds the latest
      violations up to its bound\<close>
  "sm_ok m \<longleftrightarrow> length (sm_vhist m) = sm_n m \<and>
     (\<forall>i< sm_n m. length (sm_vhist m ! i) = min (sm_history_len m) (sm_total_projections m) \<and>
        set (sm_vhist m ! i) \<subseteq> {0, 1}) \<and>
     length (sm_vlog m) = min 1000 (sm_total_violations m) \<and>
     (\<forall>v \<in> set (sm_vlog m). cv_backend_id v < sm_n m) \<and>
     sm_total_violations m \<le> sm_n m * sm_total_projections m"

text \<open>\<open>sm_mid k m0 m\<close>: the state within \<open>step\<close>, after the first \<open>k\<close> backends.\<close>

definition sm_mid :: "nat \<Rightarrow> safety_monitor \<Rightarrow> safety_monitor \<Rightarrow> bool" where
  "sm_mid k m0 m \<longleftrightarrow> sm_n m = sm_n m0 \<and> sm_history_len m = sm_history_len m0 \<and>
     sm_projector m = sm_projector m0 \<and> sm_backend_caps m = sm_backend_caps m0 \<and>
     sm_total_projections m = sm_total_projections m0 + 1 \<and>
     length (sm_vhist m) = sm_n m0 \<and>
     (\<forall>i< sm_n m0. set (sm_vhist m ! i) \<subseteq> {0, 1} \<and> length (sm_vhist m ! i) =
        min (sm_history_len m0) (sm_total_projections m0 + (if i < k then 1 else 0))) \<and>
     length (sm_vlog m) = min 1000 (sm_total_violations m) \<and>
     (\<forall>v \<in> set (sm_vlog m). cv_backend_id v < sm_n m0) \<and>
     sm_total_violations m \<le> sm_n m0 * sm_total_projections m0 + k"

lemma sm_mid_pushed:
  assumes "sm_mid k m0 m" and "k < sm_n m0" and "(x :: nat) \<in> {0, 1}"
  shows "\<forall>i< sm_n m0. set ((sm_vhist m)[k := deque_push (sm_history_len m) (sm_vhist m ! k) x] ! i) \<subseteq> {0, 1} \<and>
        length ((sm_vhist m)[k := deque_push (sm_history_len m) (sm_vhist m ! k) x] ! i) =
        min (sm_history_len m0) (sm_total_projections m0 + (if i < Suc k then 1 else 0))"
proof (intro allI impI)
  fix i assume i: "i < sm_n m0"
  have "set (sm_vhist m ! k) \<subseteq> {0, 1}" using assms(1,2) by (simp add: sm_mid_def)
  then have new: "set (deque_push (sm_history_len m) (sm_vhist m ! k) x) \<subseteq> {0, 1}"
    using set_deque_push[of "sm_history_len m" "sm_vhist m ! k" x] assms(3) by auto
  show "set ((sm_vhist m)[k := deque_push (sm_history_len m) (sm_vhist m ! k) x] ! i) \<subseteq> {0, 1} \<and>
        length ((sm_vhist m)[k := deque_push (sm_history_len m) (sm_vhist m ! k) x] ! i) =
        min (sm_history_len m0) (sm_total_projections m0 + (if i < Suc k then 1 else 0))"
    using assms(1) i new by (cases "i = k") (auto simp: sm_mid_def length_deque_push)
qed

lemma sm_note_mid:
  assumes "sm_mid k m0 m" and "k < sm_n m0" and "length (cr_fired result) = sm_n m0"
    and "length loads = sm_n m0" and "length weights = sm_n m0" and "length (cr_weights result) = sm_n m0"
  shows "\<exists>m'. sm_note clock weights loads result m k = Inr m' \<and> sm_mid (Suc k) m0 m' \<and>
           sm_total_iters m' = sm_total_iters m"
proof -
  let ?f = "cr_fired result ! k"
  define h where "h = (sm_vhist m)[k := deque_push (sm_history_len m) (sm_vhist m ! k) (if ?f then 1 else 0)]"
  have hist: "\<forall>i< sm_n m0. set (h ! i) \<subseteq> {0, 1} \<and> length (h ! i) =
        min (sm_history_len m0) (sm_total_projections m0 + (if i < Suc k then 1 else 0))"
    unfolding h_def by (rule sm_mid_pushed[OF assms(1,2)]) simp
  have log: "\<forall>v \<in> set (deque_push 1000 (sm_vlog m) e). cv_backend_id v < sm_n m0"
    if "cv_backend_id e = k" for e
    using set_deque_push[of 1000 "sm_vlog m" e] assms(1,2) that by (auto simp: sm_mid_def)
  have lh: "length h = sm_n m0" using assms(1) by (simp add: h_def sm_mid_def)
  show ?thesis
  proof (cases ?f)
    case True
    define e where "e = \<lparr>cv_timestamp = clock k, cv_backend_id = k, cv_load = loads ! k,
        cv_cap = cp_cap (sm_projector m),
        cv_weight_before = (if sum_list weights > 1 / 10 ^ 9 then weights ! k / sum_list weights else 0),
        cv_weight_after = cr_weights result ! k\<rparr>"
    have e: "cv_backend_id e = k" "sm_note clock weights loads result m k =
        Inr (m\<lparr>sm_vhist := h, sm_total_violations := sm_total_violations m + 1,
               sm_vlog := deque_push 1000 (sm_vlog m) e\<rparr>)"
      using assms(2-6) True by (simp_all add: sm_note_def Let_def h_def e_def)
    have "sm_mid (Suc k) m0 (m\<lparr>sm_vhist := h, sm_total_violations := sm_total_violations m + 1,
               sm_vlog := deque_push 1000 (sm_vlog m) e\<rparr>)"
      using assms(1) lh hist log[OF e(1)] unfolding sm_mid_def by (simp add: length_deque_push)
    then show ?thesis using e(2) by simp
  next
    case False
    then have n: "sm_note clock weights loads result m k = Inr (m\<lparr>sm_vhist := h\<rparr>)"
      using assms(2,3) by (simp add: sm_note_def Let_def h_def)
    have "sm_mid (Suc k) m0 (m\<lparr>sm_vhist := h\<rparr>)"
      using assms(1) lh hist unfolding sm_mid_def by simp
    then show ?thesis using n by simp
  qed
qed

lemma sm_notes_mid:
  assumes "sm_mid k m0 m" and "length (cr_fired result) = sm_n m0"
    and "length loads = sm_n m0" and "length weights = sm_n m0" and "length (cr_weights result) = sm_n m0"
    and "k \<le> sm_n m0"
  shows "\<exists>m'. foldE (sm_note clock weights loads result) m [k..<sm_n m0] = Inr m' \<and> sm_mid (sm_n m0) m0 m' \<and>
           sm_total_iters m' = sm_total_iters m"
  using assms
proof (induction "sm_n m0 - k" arbitrary: k m)
  case 0
  then show ?case by simp
next
  case (Suc d)
  then have less: "k < sm_n m0" by simp
  obtain m' where m': "sm_note clock weights loads result m k = Inr m'" "sm_mid (Suc k) m0 m'"
    "sm_total_iters m' = sm_total_iters m"
    using sm_note_mid[OF Suc.prems(1) less Suc.prems(2-5)] by blast
  have "\<exists>m''. foldE (sm_note clock weights loads result) m' [Suc k..<sm_n m0] = Inr m'' \<and>
      sm_mid (sm_n m0) m0 m'' \<and> sm_total_iters m'' = sm_total_iters m'"
    by (rule Suc.hyps(1)[OF _ m'(2) Suc.prems(2-5)]) (use Suc.hyps(2) less in simp_all)
  then show ?case using m'(1,3) by (simp add: upt_conv_Cons[OF less])
qed

definition sm_ready :: "safety_monitor \<Rightarrow> real list \<Rightarrow> real list \<Rightarrow> real list option \<Rightarrow> bool" where
  "sm_ready m weights loads caps \<longleftrightarrow>
     cbf_ready (sm_projector m) weights loads caps \<and> length weights = sm_n m"

text \<open>A step with inputs of the right shape always succeeds and keeps the invariant.\<close>

lemma sm_step_ok:
  assumes "sm_ok m" and "sm_ready m weights loads caps"
  shows "\<exists>m'. sm_step clock m weights loads caps =
             Inr (m', cr_weights (project_full (sm_projector m) weights loads caps),
                      cr_fired (project_full (sm_projector m) weights loads caps)) \<and>
           sm_ok m' \<and> sm_n m' = sm_n m \<and> sm_projector m' = sm_projector m \<and>
           sm_history_len m' = sm_history_len m \<and>
           sm_total_projections m' = sm_total_projections m + 1 \<and>
           sm_total_iters m' = sm_total_iters m + real (cr_iterations (project_full (sm_projector m) weights loads caps))"
proof -
  let ?r = "project_full (sm_projector m) weights loads caps"
  let ?m = "m\<lparr>sm_total_projections := sm_total_projections m + 1,
                sm_total_iters := sm_total_iters m + real (cr_iterations ?r)\<rparr>"
  have c: "cbf_ready (sm_projector m) weights loads caps" "length weights = sm_n m"
    using assms(2) by (simp_all add: sm_ready_def)
  have len: "length loads = sm_n m" using c by (simp add: cbf_ready_def)
  have mid: "sm_mid 0 m ?m" using assms(1) by (simp add: sm_mid_def sm_ok_def)
  obtain m' where m': "foldE (sm_note clock weights loads ?r) ?m [0..<sm_n m] = Inr m'"
    "sm_mid (sm_n m) m m'" "sm_total_iters m' = sm_total_iters ?m"
    using sm_notes_mid[OF mid _ len c(2)] project_full_is_dist[OF c(1)] c(2) by auto
  have "sm_ok m'" using m'(2) by (simp add: sm_mid_def sm_ok_def add.commute)
  then show ?thesis using m' by (simp add: sm_step_def Let_def sm_mid_def)
qed

section \<open>The stage contract\<close>

record cbf_call =
  cc_monitor :: safety_monitor
  cc_weights :: "real list"
  cc_loads :: "real list"
  cc_caps :: "real list option"
  cc_clock :: "nat \<Rightarrow> real"

definition cbf_call_weights :: "cbf_call \<Rightarrow> real list" where
  "cbf_call_weights c =
     fst (snd (projr (sm_step (cc_clock c) (cc_monitor c) (cc_weights c) (cc_loads c) (cc_caps c))))"

interpretation cbf_stage: weight_stage
  "\<lambda>c. sm_ok (cc_monitor c) \<and> sm_ready (cc_monitor c) (cc_weights c) (cc_loads c) (cc_caps c)"
  "\<lambda>c. sm_n (cc_monitor c)" cbf_call_weights
proof
  fix c :: cbf_call
  assume "sm_ok (cc_monitor c) \<and> sm_ready (cc_monitor c) (cc_weights c) (cc_loads c) (cc_caps c)"
  then obtain m' f where "sm_step (cc_clock c) (cc_monitor c) (cc_weights c) (cc_loads c) (cc_caps c) =
      Inr (m', cr_weights (project_full (sm_projector (cc_monitor c)) (cc_weights c) (cc_loads c) (cc_caps c)), f)"
    and ready: "cbf_ready (sm_projector (cc_monitor c)) (cc_weights c) (cc_loads c) (cc_caps c)"
    and len: "length (cc_weights c) = sm_n (cc_monitor c)"
    using sm_step_ok by (meson sm_ready_def)
  then show "is_dist (cbf_call_weights c)" "length (cbf_call_weights c) = sm_n (cc_monitor c)"
    using project_full_is_dist[OF ready] by (simp_all add: cbf_call_weights_def)
qed

section \<open>Properties\<close>

inductive sm_reach :: "safety_monitor \<Rightarrow> bool" where
  init: "sm_reach (sm_init n_backends cap lam lr max_iter history_len)"
| step: "sm_reach m \<Longrightarrow> sm_ready m weights loads caps \<Longrightarrow>
    sm_step clock m weights loads caps = Inr (m', w, fired) \<Longrightarrow> sm_reach m'"
| cap: "sm_reach m \<Longrightarrow> sm_reach (set_cap m cap)"
| caps: "sm_reach m \<Longrightarrow> sm_reach (set_backend_caps m cs)"

lemma sm_reach_ok:
  "sm_reach m \<Longrightarrow> sm_ok m \<and> 0 \<le> sm_total_iters m \<and>
     sm_total_iters m \<le> real (cp_max_iter (sm_projector m)) * real (sm_total_projections m)"
proof (induction rule: sm_reach.induct)
  case (init n_backends cap lam lr max_iter history_len)
  then show ?case by (simp add: sm_init_def sm_ok_def)
next
  case (step m weights loads caps clock m' w fired)
  have "cr_iterations (project_full (sm_projector m) weights loads caps) \<le> cp_max_iter (sm_projector m)"
    using step.hyps(2) project_full_track by (simp add: sm_ready_def)
  then show ?case
    using sm_step_ok[of m weights loads caps clock] step by (auto simp: algebra_simps)
next
  case (cap m cap)
  then show ?case by (simp add: set_cap_def sm_ok_def)
next
  case (caps m cs)
  then show ?case by (simp add: set_backend_caps_def sm_ok_def)
qed

lemma flags_mean:
  "set hist \<subseteq> {0, 1} \<Longrightarrow> hist \<noteq> [] \<Longrightarrow>
     real (sum_list hist) / real (length hist) \<le> (1 :: real)"
proof -
  assume h: "set hist \<subseteq> {0, 1}" "hist \<noteq> []"
  have "sum_list hist \<le> length hist" using h(1) by (induction hist) auto
  then show ?thesis using h(2) by simp
qed

text \<open>
  C26. In every reachable state of the monitor each backend's violation rate is defined and lies
  between zero and one, the history of a backend holds one flag per step up to its bound, the
  log holds the latest violations up to a thousand, and the reported mean number of iterations
  is within the budget.
\<close>

theorem monitor_invariant:
  assumes "sm_reach m"
  shows "(\<forall>i < sm_n m. \<exists>r. violation_rate m (int i) = Inr r \<and> 0 \<le> r \<and> r \<le> 1) \<and>
         (\<forall>i < sm_n m. length (sm_vhist m ! i) = min (sm_history_len m) (sm_total_projections m)) \<and>
         length (sm_vlog m) = min 1000 (sm_total_violations m) \<and>
         sm_total_violations m \<le> sm_n m * sm_total_projections m \<and>
         au_mean_iters_per_step (sm_audit m) \<le> real (cp_max_iter (sm_projector m))"
proof -
  note ok = sm_reach_ok[OF assms]
  have "\<exists>r. violation_rate m (int i) = Inr r \<and> 0 \<le> r \<and> r \<le> 1" if "i < sm_n m" for i
    using ok that flags_mean[of "sm_vhist m ! i"] by (auto simp: violation_rate_def sm_ok_def)
  moreover have "au_mean_iters_per_step (sm_audit m) \<le> real (cp_max_iter (sm_projector m))"
    using ok by (auto simp: sm_audit_def divide_le_eq)
  ultimately show ?thesis using ok by (simp add: sm_ok_def)
qed

theorem monitor_invariant_witness:
  "\<exists>r. violation_rate (sm_init 2 (8/10) (1/2) (1/100) 100 300) 1 = Inr r \<and> 0 \<le> r \<and> r \<le> 1"
  using monitor_invariant[OF sm_reach.init[of 2 "8/10" "1/2" "1/100" 100 300]]
  by (auto simp: sm_init_def dest: spec[of _ 1])

text \<open>
  A step of a reachable monitor on inputs of the right shape always succeeds: it returns a
  probability vector over the backends and reports exactly the backends whose load exceeds
  their cap.
\<close>

theorem monitor_step_safe:
  assumes "sm_reach m" and "sm_ready m weights loads caps" and "0 < cp_max_iter (sm_projector m)"
  shows "\<exists>m' w fired. sm_step clock m weights loads caps = Inr (m', w, fired) \<and> sm_reach m' \<and>
           is_dist w \<and> length w = sm_n m \<and>
           (\<forall>i < sm_n m. fired ! i \<longleftrightarrow> caps_of (sm_projector m) (sm_n m) caps ! i < loads ! i)"
proof -
  obtain m' where m': "sm_step clock m weights loads caps =
      Inr (m', cr_weights (project_full (sm_projector m) weights loads caps),
               cr_fired (project_full (sm_projector m) weights loads caps))"
    using sm_step_ok[OF _ assms(2)] sm_reach_ok[OF assms(1)] by blast
  have r: "cbf_ready (sm_projector m) weights loads caps" "length weights = sm_n m"
    using assms(2) by (simp_all add: sm_ready_def)
  show ?thesis
    using m' sm_reach.step[OF assms(1,2) m'] project_full_is_dist[OF r(1)]
      project_full_fired[OF r(1) assms(3)] r(2) by auto
qed

theorem monitor_step_safe_witness:
  "\<exists>m' w fired. sm_step (\<lambda>i. 0) (sm_init 2 (8/10) (1/2) (1/100) 100 300) [1, 1] [9/10, 1/10] None = Inr (m', w, fired) \<and>
     is_dist w \<and> fired ! 0 \<and> \<not> fired ! 1"
proof -
  have "sm_ready (sm_init 2 (8/10) (1/2) (1/100) 100 300) [1, 1] [9/10, 1/10] None"
    by (simp add: sm_ready_def sm_init_def cbf_ready_def caps_of_def)
  from monitor_step_safe[OF sm_reach.init this, of "\<lambda>i. 0"] obtain m' w fired where
    "sm_step (\<lambda>i. 0) (sm_init 2 (8/10) (1/2) (1/100) 100 300) [1, 1] [9/10, 1/10] None = Inr (m', w, fired)" "is_dist w"
    "\<forall>i<2. fired ! i \<longleftrightarrow> (replicate 2 (8/10) ! i :: real) < [9/10, 1/10] ! i"
    by (auto simp: sm_init_def caps_of_def)
  then show ?thesis by (auto dest: spec[of _ 0] spec[of _ "1::nat"])
qed

text \<open>
  The caps stored by \<open>set_backend_caps\<close> are not passed to \<open>step\<close>: a step that is given no
  caps returns the same weights and flags whether or not per-backend caps were configured.
\<close>

theorem backend_caps_ignored:
  assumes "sm_ok m" and "sm_ready m weights loads None"
  shows "\<exists>m1 m2 w fired. sm_step clock (set_backend_caps m cs) weights loads None = Inr (m1, w, fired) \<and>
           sm_step clock m weights loads None = Inr (m2, w, fired)"
proof -
  have "sm_ok (set_backend_caps m cs)" "sm_ready (set_backend_caps m cs) weights loads None"
    "sm_projector (set_backend_caps m cs) = sm_projector m"
    using assms by (simp_all add: set_backend_caps_def sm_ok_def sm_ready_def)
  then show ?thesis using sm_step_ok[of "set_backend_caps m cs"] sm_step_ok[OF assms] by metis
qed

theorem backend_caps_ignored_witness:
  "\<exists>m1 m2 w fired. sm_step (\<lambda>i. 0) (set_backend_caps (sm_init 1 (8/10) (1/2) (1/100) 100 300) [1/10]) [1] [5/10] None = Inr (m1, w, fired) \<and>
     sm_step (\<lambda>i. 0) (sm_init 1 (8/10) (1/2) (1/100) 100 300) [1] [5/10] None = Inr (m2, w, fired)"
  by (rule backend_caps_ignored)
    (simp_all add: sm_ok_def sm_ready_def sm_init_def cbf_ready_def caps_of_def)

text \<open>
  The log names the wrong cap when caps are passed to \<open>step\<close>: a backend that violates its own
  cap is logged with the default cap of the projector, which its load may well respect.
\<close>

theorem violation_logged_with_default_cap:
  assumes "c < l" and "l \<le> cp_cap (sm_projector m)" and "sm_n m = 1" and "sm_vhist m = [[]]"
    and "sm_vlog m = []" and "0 < cp_max_iter (sm_projector m)"
    and "0 \<le> cp_lr (sm_projector m)" and "0 \<le> cp_lam (sm_projector m)"
  shows "\<exists>m' w fired e. sm_step clock m [1] [l] (Some [c]) = Inr (m', w, fired) \<and> fired = [True] \<and>
           sm_vlog m' = [e] \<and> cv_load e \<le> cv_cap e"
proof -
  let ?r = "project_full (sm_projector m) [1] [l] (Some [c])"
  have ready: "cbf_ready (sm_projector m) [1] [l] (Some [c])"
    using assms by (simp add: cbf_ready_def caps_of_def)
  have "cr_fired ?r = [True]" "length (cr_weights ?r) = 1"
    using project_full_fired[OF ready assms(6), of 0] project_full_is_dist[OF ready] assms(1)
    by (cases "cr_fired ?r"; simp add: caps_of_def)+
  then show ?thesis
    using assms(2-5) by (simp add: sm_step_def sm_note_def Let_def py_get_def deque_push_def)
qed

theorem violation_logged_with_default_cap_witness:
  "\<exists>m' w fired e. sm_step (\<lambda>i. 0) (sm_init 1 (8/10) (1/2) (1/100) 100 300) [1] [5/10] (Some [3/10]) = Inr (m', w, fired) \<and>
     fired = [True] \<and> sm_vlog m' = [e] \<and> cv_load e \<le> cv_cap e"
  by (rule violation_logged_with_default_cap) (simp_all add: sm_init_def)

text \<open>
  The last \<open>n\<close> violations, most recent first, for positive \<open>n\<close>; asking for none returns the
  whole log, since the slice from minus zero is the slice from zero.
\<close>

theorem recent_violations_slice:
  "(0 < n \<longrightarrow> recent_violations m (int n) = rev (last_n n (sm_vlog m))) \<and>
   recent_violations m 0 = rev (sm_vlog m)"
  by (auto simp: recent_violations_def slice_from_def last_n_def nat_diff_distrib' intro: arg_cong)

theorem recent_violations_slice_witness:
  "recent_violations (sm_init 1 (8/10) (1/2) (1/100) 100 300) (int 3) = []"
  using recent_violations_slice[of 3 "sm_init 1 (8/10) (1/2) (1/100) 100 300"]
  by (simp add: sm_init_def last_n_def)

end
