(* ===== verification/Metrics_Store.thy ===== *)
theory Metrics_Store
  imports Omega_Prelude
begin

text \<open>
  \<open>MetricsStore\<close> of \<open>demo/metrics_store.py\<close>: per-backend request windows, counters and
  histories, updated by the request handler and once a second by the aggregator, and the
  snapshot the dashboard reads. The clock is an argument; each method is one step:
  the request methods hold the lock throughout, and what the aggregator does after releasing it
  (shifting the histories) touches no field they write. The file is the argument of \<open>read_live_metrics\<close>.
\<close>

section \<open>State\<close>

definition HISTORY_LEN :: nat where "HISTORY_LEN = 120"

record metrics_store =
  ms_n :: nat
  ms_names :: "string list"
  ms_zones :: "string list"
  ms_lat_win :: "(real \<times> real) list list"
  ms_err_win :: "(real \<times> real) list list"
  ms_req_win :: "real list list"
  ms_active :: "int list"
  ms_total_req :: "nat list"
  ms_total_err :: "nat list"
  ms_total_bytes :: "nat list"
  ms_latency_hist :: "real list list"
  ms_load_hist :: "real list list"
  ms_error_hist :: "real list list"
  ms_rps_hist :: "real list"
  ms_vnode_counts :: "real list"
  ms_health :: "bool list"
  ms_cbf_active :: "bool list"
  ms_rate_limits :: "real list"
  ms_kan_weights :: "real list"
  ms_proactive_active :: bool
  ms_tick :: nat

definition or_default :: "'a list option \<Rightarrow> 'a list \<Rightarrow> 'a list" where
  \<comment> \<open>\<open>names or default\<close>: the default replaces both \<open>None\<close> and the empty list\<close>
  "or_default given dflt = (case given of None \<Rightarrow> dflt | Some xs \<Rightarrow> if xs = [] then dflt else xs)"

definition metrics_init :: "nat \<Rightarrow> string list option \<Rightarrow> string list option \<Rightarrow> metrics_store" where
  "metrics_init n names zones =
     \<lparr>ms_n = n,
      ms_names = or_default names (map (\<lambda>i. ''backend-'' @ nat_str i) [0..<n]),
      ms_zones = or_default zones (replicate n ''local''),
      ms_lat_win = replicate n [], ms_err_win = replicate n [], ms_req_win = replicate n [],
      ms_active = replicate n 0, ms_total_req = replicate n 0, ms_total_err = replicate n 0,
      ms_total_bytes = replicate n 0,
      ms_latency_hist = replicate n (replicate HISTORY_LEN 0),
      ms_load_hist = replicate n (replicate HISTORY_LEN 0),
      ms_error_hist = replicate n (replicate HISTORY_LEN 0),
      ms_rps_hist = replicate HISTORY_LEN 0,
      ms_vnode_counts = replicate n 150, ms_health = replicate n True,
      ms_cbf_active = replicate n False, ms_rate_limits = replicate n 1000,
      ms_kan_weights = replicate n (1 / real n), ms_proactive_active = False, ms_tick = 0\<rparr>"

section \<open>Operations\<close>

definition record_request_start :: "metrics_store \<Rightarrow> int \<Rightarrow> py_err + metrics_store" where
  "record_request_start s backend_id =
     bindE (py_get (ms_active s) backend_id) (\<lambda>a.
     bindE (py_set (ms_active s) backend_id (a + 1)) (\<lambda>active.
       Inr (s\<lparr>ms_active := active\<rparr>)))"

definition record_request_end :: "metrics_store \<Rightarrow> int \<Rightarrow> real \<Rightarrow> bool \<Rightarrow> nat \<Rightarrow> real \<Rightarrow> py_err + metrics_store" where
  \<comment> \<open>all the arrays have one entry per backend, so the first access decides for all\<close>
  "record_request_end s backend_id latency_ms is_error resp_bytes now =
     (case py_index (length (ms_active s)) backend_id of
        None \<Rightarrow> Inl IndexError
      | Some i \<Rightarrow> Inr (s\<lparr>
          ms_active := (ms_active s)[i := max 0 (ms_active s ! i - 1)],
          ms_lat_win := (ms_lat_win s)[i := ms_lat_win s ! i @ [(now, latency_ms)]],
          ms_err_win := (ms_err_win s)[i := ms_err_win s ! i @ [(now, if is_error then 1 else 0)]],
          ms_req_win := (ms_req_win s)[i := ms_req_win s ! i @ [now]],
          ms_total_req := (ms_total_req s)[i := ms_total_req s ! i + 1],
          ms_total_err := (if is_error then (ms_total_err s)[i := ms_total_err s ! i + 1] else ms_total_err s),
          ms_total_bytes := (ms_total_bytes s)[i := ms_total_bytes s ! i + resp_bytes]\<rparr>))"

definition prune :: "(real \<times> 'v) list \<Rightarrow> real \<Rightarrow> (real \<times> 'v) list" where
  "prune window cutoff = filter (\<lambda>(ts, v). cutoff < ts) window"

definition mean_or_zero :: "real list \<Rightarrow> real" where
  "mean_or_zero xs = (if xs = [] then 0 else vmean xs)"

definition backend_load :: "int \<Rightarrow> real \<Rightarrow> real \<Rightarrow> real" where
  \<comment> \<open>from the in-flight requests, the request rate and the rate limit\<close>
  "backend_load active rps rate_limit = min 1 ((real_of_int active + rps / 50) / (rate_limit / 50))"

definition recent_values :: "(real \<times> 'v) list \<Rightarrow> real \<Rightarrow> 'v list" where
  "recent_values window cutoff = map snd (prune window cutoff)"

definition column_means :: "real list list \<Rightarrow> nat \<Rightarrow> real list" where
  \<comment> \<open>\<open>rows[:, -k:].mean(axis=0)\<close>\<close>
  "column_means rows k = map (\<lambda>t. vmean (map (\<lambda>row. last_n k row ! t) rows)) [0..<k]"

definition slope_xs :: "real list" where
  \<comment> \<open>\<open>np.arange(10) - 4.5\<close>\<close>
  "slope_xs = map (\<lambda>t. real t - 45 / 10) [0..<10]"

definition vdot :: "real list \<Rightarrow> real list \<Rightarrow> real" where
  "vdot xs ys = sum_list (map2 (*) xs ys)"

definition load_slope :: "real list \<Rightarrow> real" where
  "load_slope mean_load =
     (let denom = vdot slope_xs slope_xs
      in if denom > 0 then vdot slope_xs mean_load / denom else 0)"

definition aggregate_tick :: "metrics_store \<Rightarrow> real \<Rightarrow> metrics_store" where
  "aggregate_tick s now =
     (let cutoff = now - 2;
          lat_win = map (\<lambda>w. prune w (now - 10)) (ms_lat_win s);
          err_win = map (\<lambda>w. prune w (now - 10)) (ms_err_win s);
          req_win = map (\<lambda>w. filter (\<lambda>ts. now - 2 < ts) w) (ms_req_win s);
          rps = map (\<lambda>w. real (length w) / 2) req_win;
          lats = map (\<lambda>w. mean_or_zero (recent_values w cutoff)) lat_win;
          errs = map (\<lambda>w. mean_or_zero (recent_values w cutoff)) err_win;
          loads = map (\<lambda>i. backend_load (ms_active s ! i) (rps ! i) (ms_rate_limits s ! i)) [0..<ms_n s];
          load_hist = map2 shift_in (ms_load_hist s) loads
      in s\<lparr>ms_lat_win := lat_win, ms_err_win := err_win, ms_req_win := req_win,
           ms_latency_hist := map2 shift_in (ms_latency_hist s) lats,
           ms_load_hist := load_hist,
           ms_error_hist := map2 shift_in (ms_error_hist s) errs,
           ms_rps_hist := shift_in (ms_rps_hist s) (sum_list rps),
           ms_proactive_active :=
             (if ms_tick s > 10 then load_slope (column_means load_hist 10) * 30 > 75 / 100
              else ms_proactive_active s),
           ms_tick := ms_tick s + 1\<rparr>)"

record snapshot =
  sn_tick :: nat
  sn_n_backends :: nat
  sn_backend_names :: "string list"
  sn_backend_zones :: "string list"
  sn_latency_hist :: "real list list"
  sn_load_hist :: "real list list"
  sn_error_hist :: "real list list"
  sn_rps_hist :: "real list"
  sn_vnode_counts :: "real list"
  sn_health :: "bool list"
  sn_cbf_active :: "bool list"
  sn_rate_limits :: "real list"
  sn_kan_weights :: "real list"
  sn_proactive_active :: bool
  sn_active_conns :: "int list"
  sn_total_requests :: "nat list"
  sn_total_errors :: "nat list"
  sn_ts :: real

definition snapshot_of :: "metrics_store \<Rightarrow> real \<Rightarrow> snapshot" where
  "snapshot_of s now =
     \<lparr>sn_tick = ms_tick s, sn_n_backends = ms_n s, sn_backend_names = ms_names s,
      sn_backend_zones = ms_zones s, sn_latency_hist = ms_latency_hist s,
      sn_load_hist = ms_load_hist s, sn_error_hist = ms_error_hist s, sn_rps_hist = ms_rps_hist s,
      sn_vnode_counts = ms_vnode_counts s, sn_health = ms_health s, sn_cbf_active = ms_cbf_active s,
      sn_rate_limits = ms_rate_limits s, sn_kan_weights = ms_kan_weights s,
      sn_proactive_active = ms_proactive_active s, sn_active_conns = ms_active s,
      sn_total_requests = ms_total_req s, sn_total_errors = ms_total_err s, sn_ts = now\<rparr>"

definition write_json :: "metrics_store \<Rightarrow> real \<Rightarrow> bool \<Rightarrow> snapshot option \<Rightarrow> snapshot option" where
  \<comment> \<open>the file after \<open>_write_json\<close>: replaced as a whole, or left as it was when writing fails\<close>
  "write_json s now write_ok file = (if write_ok then Some (snapshot_of s now) else file)"

definition aggregator_step :: "metrics_store \<Rightarrow> real \<Rightarrow> real \<Rightarrow> bool \<Rightarrow> snapshot option \<Rightarrow> metrics_store \<times> snapshot option" where
  "aggregator_step s now now' write_ok file =
     (let s = aggregate_tick s now in (s, write_json s now' write_ok file))"

definition read_live_metrics :: "snapshot option \<Rightarrow> real \<Rightarrow> snapshot option" where
  \<comment> \<open>the argument is the parsed file, \<open>None\<close> when it is absent or unreadable\<close>
  "read_live_metrics file now =
     (case file of None \<Rightarrow> None | Some data \<Rightarrow> if now - sn_ts data > 5 then None else Some data)"

section \<open>The invariant\<close>

definition unit_rows :: "nat \<Rightarrow> nat \<Rightarrow> real list list \<Rightarrow> bool" where
  \<comment> \<open>\<open>n\<close> rows of length \<open>len\<close> with entries between 0 and 1\<close>
  "unit_rows n len rows \<longleftrightarrow> length rows = n \<and>
     (\<forall>row \<in> set rows. length row = len \<and> (\<forall>x \<in> set row. 0 \<le> x \<and> x \<le> 1))"

definition metrics_ok :: "metrics_store \<Rightarrow> bool" where
  "metrics_ok s \<longleftrightarrow>
     length (ms_lat_win s) = ms_n s \<and> length (ms_err_win s) = ms_n s \<and> length (ms_req_win s) = ms_n s \<and>
     length (ms_active s) = ms_n s \<and> length (ms_total_req s) = ms_n s \<and> length (ms_total_err s) = ms_n s \<and>
     length (ms_total_bytes s) = ms_n s \<and> length (ms_health s) = ms_n s \<and> length (ms_rate_limits s) = ms_n s \<and>
     length (ms_latency_hist s) = ms_n s \<and> (\<forall>row \<in> set (ms_latency_hist s). length row = HISTORY_LEN) \<and>
     unit_rows (ms_n s) HISTORY_LEN (ms_load_hist s) \<and> unit_rows (ms_n s) HISTORY_LEN (ms_error_hist s) \<and>
     length (ms_rps_hist s) = HISTORY_LEN \<and>
     (\<forall>w \<in> set (ms_err_win s). \<forall>(ts, v) \<in> set w. v = 0 \<or> v = 1) \<and>
     (\<forall>a \<in> set (ms_active s). 0 \<le> a) \<and> (\<forall>r \<in> set (ms_rate_limits s). 0 < r) \<and>
     (\<forall>i < ms_n s. ms_total_err s ! i \<le> ms_total_req s ! i)"

lemma unit_rows_eq: "unit_rows = rows_of (\<lambda>x. 0 \<le> x \<and> x \<le> 1)"
  by (intro ext) (simp add: unit_rows_def rows_of_def)

lemma unit_rows_replicate: "unit_rows n len (replicate n (replicate len 0))"
  by (simp add: unit_rows_eq rows_of_replicate)

lemma unit_rows_shift:
  "unit_rows n len rows \<Longrightarrow> length vs = n \<Longrightarrow> \<forall>v \<in> set vs. 0 \<le> v \<and> v \<le> 1 \<Longrightarrow> unit_rows n len (map2 shift_in rows vs)"
  unfolding unit_rows_eq by (rule rows_of_shift)

lemma metrics_init_ok: "metrics_ok (metrics_init n names zones)"
  by (auto simp: metrics_ok_def metrics_init_def unit_rows_replicate)

lemma metrics_init_simps [simp]:
  "ms_n (metrics_init n names zones) = n" "ms_active (metrics_init n names zones) = replicate n 0"
  "ms_err_win (metrics_init n names zones) = replicate n []" "ms_req_win (metrics_init n names zones) = replicate n []"
  "ms_health (metrics_init n names zones) = replicate n True"
  "ms_rate_limits (metrics_init n names zones) = replicate n 1000"
  by (simp_all add: metrics_init_def)

lemma hist_rows:
  assumes "metrics_ok s" and "i < ms_n s"
  shows "length (ms_error_hist s ! i) = HISTORY_LEN" "length (ms_load_hist s ! i) = HISTORY_LEN"
    "length (ms_error_hist s) = ms_n s" "length (ms_load_hist s) = ms_n s"
  using assms by (simp_all add: metrics_ok_def unit_rows_def)

lemma metrics_okD:
  assumes "metrics_ok s"
  shows "length (ms_active s) = ms_n s" "length (ms_health s) = ms_n s" "length (ms_rate_limits s) = ms_n s"
    "length (ms_load_hist s) = ms_n s" "unit_rows (ms_n s) HISTORY_LEN (ms_load_hist s)"
  using assms by (simp_all add: metrics_ok_def unit_rows_def)

lemma start_ok:
  assumes "metrics_ok s" and "i < ms_n s"
  shows "\<exists>s'. record_request_start s (int i) = Inr s' \<and> metrics_ok s'"
  using assms by (auto simp: metrics_ok_def record_request_start_def dest!: set_update_subset_insert[THEN subsetD])

lemma end_ok:
  assumes "metrics_ok s" and "i < ms_n s"
  shows "\<exists>s'. record_request_end s (int i) lat e b now = Inr s' \<and> metrics_ok s'"
proof -
  define act where "act = (ms_active s)[i := max 0 (ms_active s ! i - 1)]"
  define err where "err = (ms_err_win s)[i := ms_err_win s ! i @ [(now, if e then 1 else 0 :: real)]]"
  define te where "te = (if e then (ms_total_err s)[i := ms_total_err s ! i + 1] else ms_total_err s)"
  define tr where "tr = (ms_total_req s)[i := ms_total_req s ! i + 1]"
  have len: "length act = ms_n s" "length err = ms_n s" "length te = ms_n s" "length tr = ms_n s"
    using assms by (simp_all add: metrics_ok_def act_def err_def te_def tr_def)
  define P :: "(real \<times> real) list \<Rightarrow> bool" where "P w \<longleftrightarrow> (\<forall>(ts, v) \<in> set w. v = 0 \<or> v = 1)" for w
  have old: "\<forall>w \<in> set (ms_err_win s). P w" using assms(1) unfolding metrics_ok_def P_def by blast
  moreover have "ms_err_win s ! i \<in> set (ms_err_win s)" using assms by (simp add: metrics_ok_def)
  ultimately have "P (ms_err_win s ! i @ [(now, if e then 1 else 0)])" by (auto simp: P_def)
  moreover have "set err \<subseteq> insert (ms_err_win s ! i @ [(now, if e then 1 else 0)]) (set (ms_err_win s))"
    unfolding err_def by (rule set_update_subset_insert)
  ultimately have errs: "\<forall>w \<in> set err. \<forall>(ts, v) \<in> set w. v = 0 \<or> v = 1"
    using old unfolding P_def by blast
  have "set act \<subseteq> insert (max 0 (ms_active s ! i - 1)) (set (ms_active s))"
    unfolding act_def by (rule set_update_subset_insert)
  then have acts: "\<forall>a \<in> set act. 0 \<le> a" using assms(1) by (auto simp: metrics_ok_def)
  have tot: "\<forall>j < ms_n s. te ! j \<le> tr ! j"
    using assms by (auto simp: metrics_ok_def te_def tr_def nth_list_update le_SucI)
  have "record_request_end s (int i) lat e b now = Inr (s\<lparr>ms_active := act,
      ms_lat_win := (ms_lat_win s)[i := ms_lat_win s ! i @ [(now, lat)]], ms_err_win := err,
      ms_req_win := (ms_req_win s)[i := ms_req_win s ! i @ [now]], ms_total_req := tr, ms_total_err := te,
      ms_total_bytes := (ms_total_bytes s)[i := ms_total_bytes s ! i + b]\<rparr>)" (is "_ = Inr ?s")
    using assms by (simp add: metrics_ok_def record_request_end_def act_def err_def te_def tr_def)
  moreover have "metrics_ok ?s"
    using assms(1) len errs acts tot unfolding metrics_ok_def by simp
  ultimately show ?thesis by blast
qed

lemma mean_or_zero_unit: "\<forall>x \<in> set xs. 0 \<le> x \<and> x \<le> 1 \<Longrightarrow> 0 \<le> mean_or_zero xs \<and> mean_or_zero xs \<le> 1"
  using vmean_bounds[of xs 0 1] by (simp add: mean_or_zero_def)

lemma backend_load_unit:
  "0 \<le> a \<Longrightarrow> 0 \<le> rps \<Longrightarrow> 0 < limit \<Longrightarrow> 0 \<le> backend_load a rps limit \<and> backend_load a rps limit \<le> 1"
  by (simp add: backend_load_def)

lemma tick_ok:
  assumes "metrics_ok s"
  shows "metrics_ok (aggregate_tick s now)"
proof -
  define err_win where "err_win = map (\<lambda>w. prune w (now - 10)) (ms_err_win s)"
  define errs where "errs = map (\<lambda>w. mean_or_zero (recent_values w (now - 2))) err_win"
  define rps where "rps = map (\<lambda>w. real (length w) / 2) (map (\<lambda>w. filter (\<lambda>ts. now - 2 < ts) w) (ms_req_win s))"
  define loads where "loads = map (\<lambda>i. backend_load (ms_active s ! i) (rps ! i) (ms_rate_limits s ! i)) [0..<ms_n s]"
  have win: "\<forall>w \<in> set err_win. \<forall>(ts, v) \<in> set w. v = 0 \<or> v = 1"
    using assms by (auto simp: metrics_ok_def err_win_def prune_def)
  have "\<forall>v \<in> set errs. 0 \<le> v \<and> v \<le> 1"
  proof
    fix v assume "v \<in> set errs"
    then obtain w where "w \<in> set err_win" "v = mean_or_zero (recent_values w (now - 2))" by (auto simp: errs_def)
    moreover from this have "\<forall>x \<in> set (recent_values w (now - 2)). 0 \<le> x \<and> x \<le> 1"
      using win by (fastforce simp: recent_values_def prune_def)
    ultimately show "0 \<le> v \<and> v \<le> 1" using mean_or_zero_unit by simp
  qed
  then have e: "unit_rows (ms_n s) HISTORY_LEN (map2 shift_in (ms_error_hist s) errs)"
    using assms by (intro unit_rows_shift) (simp_all add: metrics_ok_def errs_def err_win_def)
  have "0 \<le> ms_active s ! i \<and> 0 < ms_rate_limits s ! i \<and> 0 \<le> rps ! i" if "i < ms_n s" for i
    using assms that by (simp add: metrics_ok_def rps_def)
  then have "\<forall>v \<in> set loads. 0 \<le> v \<and> v \<le> 1"
    using backend_load_unit by (auto simp: loads_def)
  then have l: "unit_rows (ms_n s) HISTORY_LEN (map2 shift_in (ms_load_hist s) loads)"
    using assms by (intro unit_rows_shift) (simp_all add: metrics_ok_def loads_def)
  have len: "length err_win = ms_n s" "length errs = ms_n s" "length loads = ms_n s"
    using assms by (simp_all add: metrics_ok_def errs_def err_win_def loads_def)
  show ?thesis
    using assms e l win len unfolding metrics_ok_def aggregate_tick_def Let_def
    by (auto simp flip: err_win_def errs_def rps_def loads_def simp del: map_map dest: set_zip_leftD)
qed

section \<open>Events\<close>

datatype ms_event =
    ReqStart nat
  | ReqEnd nat real bool nat real
  | Tick real
  | NewRate nat real
  | NewHealth nat bool

fun ms_apply :: "metrics_store \<Rightarrow> ms_event \<Rightarrow> py_err + metrics_store" where
  "ms_apply s (ReqStart i) = record_request_start s (int i)"
| "ms_apply s (ReqEnd i lat e b now) = record_request_end s (int i) lat e b now"
| "ms_apply s (Tick now) = Inr (aggregate_tick s now)"
| "ms_apply s (NewRate i r) = bindE (py_set (ms_rate_limits s) (int i) r) (\<lambda>rs. Inr (s\<lparr>ms_rate_limits := rs\<rparr>))"
| "ms_apply s (NewHealth i h) = bindE (py_set (ms_health s) (int i) h) (\<lambda>hs. Inr (s\<lparr>ms_health := hs\<rparr>))"

fun ms_event_ok :: "nat \<Rightarrow> ms_event \<Rightarrow> bool" where
  \<comment> \<open>a backend that exists, and a positive rate limit\<close>
  "ms_event_ok n (ReqStart i) \<longleftrightarrow> i < n"
| "ms_event_ok n (ReqEnd i lat e b now) \<longleftrightarrow> i < n"
| "ms_event_ok n (Tick now) \<longleftrightarrow> True"
| "ms_event_ok n (NewRate i r) \<longleftrightarrow> i < n \<and> 0 < r"
| "ms_event_ok n (NewHealth i h) \<longleftrightarrow> i < n"

lemma set_rate_ok:
  "metrics_ok s \<Longrightarrow> i < ms_n s \<Longrightarrow> 0 < r \<Longrightarrow> metrics_ok (s\<lparr>ms_rate_limits := (ms_rate_limits s)[i := r]\<rparr>)"
  using set_update_subset_insert[of "ms_rate_limits s" i r] by (auto simp: metrics_ok_def)

lemma set_health_flag_ok: "metrics_ok s \<Longrightarrow> metrics_ok (s\<lparr>ms_health := (ms_health s)[i := h]\<rparr>)"
  by (simp add: metrics_ok_def)

lemma ms_apply_n: "ms_apply s e = Inr s' \<Longrightarrow> ms_n s' = ms_n s"
  by (cases e) (auto simp: record_request_start_def record_request_end_def aggregate_tick_def Let_def bindE_Inr_iff
      split: option.splits)

lemma ms_apply_ok:
  assumes "metrics_ok s" and "ms_event_ok (ms_n s) e"
  shows "\<exists>s'. ms_apply s e = Inr s' \<and> metrics_ok s'"
proof (cases e)
  case (ReqStart i)
  then show ?thesis using assms start_ok by simp
next
  case (ReqEnd i lat err b now)
  then show ?thesis using assms end_ok by simp
next
  case (Tick now)
  then show ?thesis using assms tick_ok by simp
next
  case (NewRate i r)
  then show ?thesis using assms set_rate_ok by (simp add: metrics_okD)
next
  case (NewHealth i h)
  then show ?thesis using assms set_health_flag_ok by (simp add: metrics_okD)
qed

lemma ms_run_ok:
  assumes "\<forall>e \<in> set es. ms_event_ok n e"
  shows "\<exists>s. foldE ms_apply (metrics_init n names zones) es = Inr s \<and> metrics_ok s \<and> ms_n s = n"
proof (rule foldE_invariant)
  show "metrics_ok (metrics_init n names zones) \<and> ms_n (metrics_init n names zones) = n"
    by (simp add: metrics_init_ok)
  show "\<exists>s'. ms_apply s e = Inr s' \<and> metrics_ok s' \<and> ms_n s' = n"
    if "metrics_ok s \<and> ms_n s = n" "e \<in> set es" for s e
    using that assms ms_apply_ok[of s e] ms_apply_n[of s e] by auto
qed

text \<open>In-flight requests of backend \<open>i\<close> after a sequence of events, counted from zero.\<close>

fun delta_active :: "nat \<Rightarrow> ms_event \<Rightarrow> int" where
  "delta_active i (ReqStart j) = (if i = j then 1 else 0)"
| "delta_active i (ReqEnd j lat e b now) = (if i = j then -1 else 0)"
| "delta_active i _ = 0"

definition in_flight :: "nat \<Rightarrow> ms_event list \<Rightarrow> int" where
  "in_flight i es = sum_list (map (delta_active i) es)"

lemma ms_apply_active:
  assumes "metrics_ok s" and "ms_event_ok (ms_n s) e" and "ms_apply s e = Inr s'" and "i < ms_n s"
    and "0 \<le> ms_active s ! i + delta_active i e"
  shows "ms_active s' ! i = ms_active s ! i + delta_active i e"
  using assms(2-5) metrics_okD(1)[OF assms(1)]
  by (cases e) (auto simp: record_request_start_def record_request_end_def aggregate_tick_def Let_def bindE_Inr_iff
      nth_list_update)

section \<open>Properties\<close>

text \<open>
  C16. The metrics store never raises and keeps its invariant under any sequence of requests on
  existing backends, aggregation ticks, rate-limit and health updates: windows and histories keep
  their shapes, recorded loads and error rates lie between zero and one, in-flight counts are not
  negative, and no backend has more errors than requests.
\<close>

theorem metrics_never_corrupt:
  assumes "\<forall>e \<in> set es. ms_event_ok n e"
  shows "\<exists>s. foldE ms_apply (metrics_init n names zones) es = Inr s \<and> metrics_ok s \<and> ms_n s = n"
  using ms_run_ok[OF assms] .

theorem metrics_never_corrupt_witness:
  "\<exists>s. foldE ms_apply (metrics_init 2 None None) [ReqStart 1, ReqEnd 1 5 True 10 3, Tick 4] = Inr s \<and> metrics_ok s"
  using metrics_never_corrupt[of "[ReqStart 1, ReqEnd 1 5 True 10 3, Tick 4]" 2 None None] by auto

text \<open>
  The in-flight counters are exact: if every end of a request follows its start, then after
  any interleaving of requests, ticks and updates the counter of a backend is the number of
  requests started on it and not yet ended, and it is zero once all have ended.
\<close>

theorem active_counts_in_flight:
  assumes "\<forall>e \<in> set es. ms_event_ok n e" and "i < n"
    and "\<forall>k \<le> length es. 0 \<le> in_flight i (take k es)"
    and "foldE ms_apply (metrics_init n names zones) es = Inr s"
  shows "ms_active s ! i = in_flight i es"
  using assms
proof (induction es arbitrary: s rule: rev_induct)
  case Nil
  then show ?case by (auto simp: in_flight_def)
next
  case (snoc e es)
  obtain t where t: "foldE ms_apply (metrics_init n names zones) es = Inr t" "ms_apply t e = Inr s"
    using snoc.prems(4) by (auto simp: foldE_append split: sum.splits)
  have ok: "metrics_ok t" "ms_n t = n"
    using ms_run_ok[of es n names zones] snoc.prems(1) t(1) by auto
  have "\<forall>k \<le> length es. 0 \<le> in_flight i (take k es)"
  proof (intro allI impI)
    fix k assume "k \<le> length es"
    then show "0 \<le> in_flight i (take k es)" using spec[OF snoc.prems(3), of k] by simp
  qed
  then have IH: "ms_active t ! i = in_flight i es" using snoc.IH snoc.prems(1,2) t(1) by simp
  have "0 \<le> in_flight i (es @ [e])" using spec[OF snoc.prems(3), of "length es + 1"] by simp
  then have "0 \<le> ms_active t ! i + delta_active i e" using IH by (simp add: in_flight_def)
  then show ?case using ms_apply_active[OF ok(1) _ t(2)] snoc.prems(1,2) ok(2) IH
    by (simp add: in_flight_def)
qed

theorem active_counts_in_flight_witness:
  "\<exists>s. foldE ms_apply (metrics_init 2 None None) [ReqStart 1, ReqStart 1, ReqEnd 1 5 True 10 3] = Inr s \<and> ms_active s ! 1 = 1"
proof -
  obtain s where s: "foldE ms_apply (metrics_init 2 None None) [ReqStart 1, ReqStart 1, ReqEnd 1 5 True 10 3] = Inr s"
    using ms_run_ok[of "[ReqStart 1, ReqStart 1, ReqEnd 1 5 True 10 3]" 2 None None] by auto
  have "\<forall>k\<le>3. 0 \<le> in_flight 1 (take k [ReqStart 1, ReqStart 1, ReqEnd 1 5 True 10 3])"
    by (auto simp: in_flight_def take_Cons' le_Suc_eq numeral_3_eq_3)
  then show ?thesis using s active_counts_in_flight[OF _ _ _ s, of 1] by (auto simp: in_flight_def)
qed

text \<open>
  C17. What a tick records: the error rate is the mean of the flags of the requests that ended in
  the last two seconds, and the load is the in-flight count plus a fiftieth of the request rate,
  relative to a fiftieth of the rate limit and capped at one.
\<close>

theorem tick_records_window:
  assumes "metrics_ok s" and "i < ms_n s"
  shows "last (ms_error_hist (aggregate_tick s now) ! i) =
           mean_or_zero (map snd (filter (\<lambda>(ts, v). now - 2 < ts) (ms_err_win s ! i))) \<and>
         last (ms_load_hist (aggregate_tick s now) ! i) =
           min 1 ((50 * ms_active s ! i + real (length (filter (\<lambda>ts. now - 2 < ts) (ms_req_win s ! i))) / 2)
                  / ms_rate_limits s ! i)"
proof -
  have "ms_error_hist s ! i \<noteq> []" "ms_load_hist s ! i \<noteq> []"
    using hist_rows[OF assms] by (auto simp: HISTORY_LEN_def)
  note rows = this hist_rows(3,4)[OF assms]
  have win: "filter (\<lambda>(ts, v). now - 2 < ts) (filter (\<lambda>(ts, v). now - 10 < ts) w) = filter (\<lambda>(ts, v). now - 2 < ts) w"
    for w :: "(real \<times> real) list"
    by (auto intro: filter_cong)
  have len: "length (ms_err_win s) = ms_n s" "length (ms_req_win s) = ms_n s"
    using assms(1) by (simp_all add: metrics_ok_def)
  have "last (ms_error_hist (aggregate_tick s now) ! i) = mean_or_zero (recent_values (prune (ms_err_win s ! i) (now - 10)) (now - 2))"
    using rows len assms(2) by (simp add: aggregate_tick_def Let_def last_shift_in)
  moreover have "last (ms_load_hist (aggregate_tick s now) ! i) =
      backend_load (ms_active s ! i) (real (length (filter (\<lambda>ts. now - 2 < ts) (ms_req_win s ! i))) / 2) (ms_rate_limits s ! i)"
    using rows len assms(2) by (simp add: aggregate_tick_def Let_def last_shift_in)
  moreover have "(a + r / 50) / (l / 50) = (50 * a + r) / l" for a r l :: real
    by (cases "l = 0") (simp_all add: field_simps)
  ultimately show ?thesis
    by (simp add: recent_values_def prune_def win backend_load_def mult.commute[of _ 50] del: filter_filter)
qed

theorem tick_records_window_witness:
  "last (ms_error_hist (aggregate_tick (metrics_init 1 None None) 9) ! 0) = 0"
  using tick_records_window[OF metrics_init_ok, of 0 1 None None 9]
  by (simp add: metrics_init_def mean_or_zero_def)

text \<open>
  The dashboard reads what the proxy last wrote, and only while it is fresh: a snapshot
  written at one time is returned unchanged for five seconds and not after; a failed write leaves
  the previous snapshot in place.
\<close>

theorem live_metrics_fresh:
  "read_live_metrics (write_json s now True file) now' =
     (if now' - now > 5 then None else Some (snapshot_of s now)) \<and>
   write_json s now False file = file"
  by (simp add: read_live_metrics_def write_json_def snapshot_of_def)

text \<open>
  The trend estimator is exact on linear trends: on loads that change by \<open>b\<close> per sample it
  returns \<open>b\<close>, whatever the level.
\<close>

theorem slope_of_line:
  "load_slope (map (\<lambda>t. a + b * real t) [0..<10]) = b"
  by (simp add: load_slope_def Let_def vdot_def slope_xs_def upt_rec) (simp add: field_simps)

end
