(* ===== verification/Health_Check.thy ===== *)
theory Health_Check
  imports Hash_Ring Metrics_Store
begin

text \<open>
  \<open>HealthChecker\<close> of \<open>demo/proxy.py\<close>: every two seconds each backend is probed; three failed
  probes in a row take it out of the ring, one good probe brings it back. The outcome of a probe
  is an argument: the HTTP status of the reply, or nothing when the request raised. The checker
  shares the ring and the health flags of the metrics with the rest of the proxy.
\<close>

section \<open>State and operations\<close>

record health_state =
  hs_fails :: "nat list"
  hs_ring :: ha_ring
  hs_metrics :: metrics_store

definition FAIL_THRESHOLD :: nat where "FAIL_THRESHOLD = 3"

type_synonym probe = "nat option"

definition mark_health :: "health_state \<Rightarrow> nat \<Rightarrow> bool \<Rightarrow> py_err + health_state" where
  \<comment> \<open>\<open>ring.set_health(i, h); metrics.health[i] = h\<close>\<close>
  "mark_health s i h =
     bindE (set_health (hs_ring s) (int i) h) (\<lambda>ring.
     bindE (py_set (ms_health (hs_metrics s)) (int i) h) (\<lambda>hs.
       Inr (s\<lparr>hs_ring := ring, hs_metrics := (hs_metrics s)\<lparr>ms_health := hs\<rparr>\<rparr>)))"

definition probe_failed :: "health_state \<Rightarrow> nat \<Rightarrow> py_err + health_state" where
  \<comment> \<open>the \<open>except\<close> branch of the loop body\<close>
  "probe_failed s i =
     (let s = s\<lparr>hs_fails := (hs_fails s)[i := hs_fails s ! i + 1]\<rparr>
      in if hs_fails s ! i \<ge> FAIL_THRESHOLD \<and> ms_health (hs_metrics s) ! i
         then mark_health s i False else Inr s)"

definition probe_backend :: "health_state \<Rightarrow> nat \<times> probe \<Rightarrow> py_err + health_state" where
  \<comment> \<open>an exception while bringing a backend back is caught like a failed probe\<close>
  "probe_backend s ip =
     (case ip of (i, outcome) \<Rightarrow>
        if outcome = Some 200 then
          let s = s\<lparr>hs_fails := (hs_fails s)[i := 0]\<rparr>
          in if \<not> ms_health (hs_metrics s) ! i
             then (case mark_health s i True of Inr s' \<Rightarrow> Inr s' | Inl _ \<Rightarrow> probe_failed s i)
             else Inr s
        else probe_failed s i)"

definition health_round :: "health_state \<Rightarrow> probe list \<Rightarrow> py_err + health_state" where
  \<comment> \<open>one iteration of \<open>while True\<close>, with the outcomes of its probes in backend order\<close>
  "health_round s outcomes = foldE probe_backend s (List.enumerate 0 outcomes)"

definition health_run :: "health_state \<Rightarrow> probe list list \<Rightarrow> py_err + health_state" where
  "health_run s rounds = foldE health_round s rounds"

section \<open>The invariant\<close>

text \<open>The ring and the metrics agree on which backends are up.\<close>

definition health_ok :: "health_state \<Rightarrow> bool" where
  "health_ok s \<longleftrightarrow> ring_ok (hs_ring s) \<and> metrics_ok (hs_metrics s) \<and>
     rg_n (hs_ring s) = ms_n (hs_metrics s) \<and> length (hs_fails s) = rg_n (hs_ring s) \<and>
     rg_health (hs_ring s) = ms_health (hs_metrics s)"

lemma health_okD:
  assumes "health_ok s"
  shows "length (ms_health (hs_metrics s)) = length (hs_fails s)"
    "length (rg_health (hs_ring s)) = length (hs_fails s)"
  using assms metrics_okD[of "hs_metrics s"] by (simp_all add: health_ok_def ring_ok_def)

lemma mark_health_eq:
  assumes "health_ok s" and "i < length (hs_fails s)"
  shows "mark_health s i h = Inr (s\<lparr>hs_ring := rebuild ((hs_ring s)\<lparr>rg_health := (rg_health (hs_ring s))[i := h]\<rparr>),
           hs_metrics := (hs_metrics s)\<lparr>ms_health := (ms_health (hs_metrics s))[i := h]\<rparr>\<rparr>)"
  using assms health_okD[OF assms(1)] by (simp add: mark_health_def set_health_def)

lemma marked_ok:
  assumes "health_ok s"
  shows "health_ok (s\<lparr>hs_ring := rebuild ((hs_ring s)\<lparr>rg_health := (rg_health (hs_ring s))[i := h]\<rparr>),
           hs_metrics := (hs_metrics s)\<lparr>ms_health := (ms_health (hs_metrics s))[i := h]\<rparr>\<rparr>)"
  using assms set_health_flag_ok[of "hs_metrics s" i h] metrics_okD(2)[of "hs_metrics s"]
  by (simp add: health_ok_def rebuild_ok ring_ok_def rebuild_ring)

lemma fails_ok: "health_ok s \<Longrightarrow> length fs = length (hs_fails s) \<Longrightarrow> health_ok (s\<lparr>hs_fails := fs\<rparr>)"
  by (simp add: health_ok_def)

text \<open>What one probe does, once the calls are known to succeed.\<close>

definition probed :: "health_state \<Rightarrow> nat \<Rightarrow> probe \<Rightarrow> health_state \<Rightarrow> bool" where
  "probed s i outcome s' \<longleftrightarrow> health_ok s' \<and>
     hs_fails s' = (hs_fails s)[i := (if outcome = Some 200 then 0 else hs_fails s ! i + 1)] \<and>
     ms_health (hs_metrics s') = (ms_health (hs_metrics s))[i :=
       (outcome = Some 200 \<or> (ms_health (hs_metrics s) ! i \<and> hs_fails s ! i + 1 < FAIL_THRESHOLD))]"

lemma probe_failed_probed:
  assumes "health_ok s" and "i < length (hs_fails s)" and "outcome \<noteq> Some 200"
  shows "\<exists>s'. probe_failed s i = Inr s' \<and> probed s i outcome s'"
proof -
  let ?s = "s\<lparr>hs_fails := (hs_fails s)[i := hs_fails s ! i + 1]\<rparr>"
  have ok: "health_ok ?s" using assms by (simp add: fails_ok)
  show ?thesis
  proof (cases "hs_fails s ! i + 1 \<ge> FAIL_THRESHOLD \<and> ms_health (hs_metrics s) ! i")
    case True
    then show ?thesis
      using mark_health_eq[OF ok, of i False] marked_ok[OF ok, of i False] assms
      by (simp add: probe_failed_def probed_def)
  next
    case False
    then have "probe_failed s i = Inr ?s"
      using assms(2) by (simp add: probe_failed_def Let_def) blast
    moreover have "(ms_health (hs_metrics s))[i := ms_health (hs_metrics s) ! i \<and> hs_fails s ! i + 1 < FAIL_THRESHOLD]
        = ms_health (hs_metrics s)"
    proof (cases "ms_health (hs_metrics s) ! i")
      case True
      then have "ms_health (hs_metrics s) ! i \<and> hs_fails s ! i + 1 < FAIL_THRESHOLD \<longleftrightarrow> ms_health (hs_metrics s) ! i"
        using False by simp
      then show ?thesis by (simp only: list_update_id)
    next
      case down: False
      then have "ms_health (hs_metrics s) ! i \<and> hs_fails s ! i + 1 < FAIL_THRESHOLD \<longleftrightarrow> ms_health (hs_metrics s) ! i"
        by simp
      then show ?thesis by (simp only: list_update_id)
    qed
    ultimately show ?thesis using ok assms(3) by (simp add: probed_def)
  qed
qed

lemma probe_backend_probed:
  assumes "health_ok s" and "i < length (hs_fails s)"
  shows "\<exists>s'. probe_backend s (i, outcome) = Inr s' \<and> probed s i outcome s'"
proof (cases "outcome = Some 200")
  case True
  let ?s = "s\<lparr>hs_fails := (hs_fails s)[i := 0]\<rparr>"
  have ok: "health_ok ?s" using assms by (simp add: fails_ok)
  show ?thesis
  proof (cases "ms_health (hs_metrics s) ! i")
    case up: True
    then have "(ms_health (hs_metrics s))[i := True] = ms_health (hs_metrics s)"
      by (metis (full_types) list_update_id)
    then show ?thesis using True up ok by (simp add: probe_backend_def probed_def)
  next
    case False
    then show ?thesis
      using True mark_health_eq[OF ok, of i True] marked_ok[OF ok, of i True] assms
      by (simp add: probe_backend_def probed_def)
  qed
next
  case False
  then show ?thesis using probe_failed_probed[OF assms False] by (simp add: probe_backend_def)
qed

section \<open>Rounds\<close>

definition round_spec :: "health_state \<Rightarrow> probe list \<Rightarrow> health_state \<Rightarrow> bool" where
  \<comment> \<open>every probed backend has been updated once, the others are as before\<close>
  "round_spec s outcomes s' \<longleftrightarrow> health_ok s' \<and> length (hs_fails s') = length (hs_fails s) \<and>
     (\<forall>i < length (hs_fails s).
        if i < length outcomes
        then hs_fails s' ! i = (if outcomes ! i = Some 200 then 0 else hs_fails s ! i + 1) \<and>
             ms_health (hs_metrics s') ! i =
               (outcomes ! i = Some 200 \<or> (ms_health (hs_metrics s) ! i \<and> hs_fails s ! i + 1 < FAIL_THRESHOLD))
        else hs_fails s' ! i = hs_fails s ! i \<and> ms_health (hs_metrics s') ! i = ms_health (hs_metrics s) ! i)"

lemma round_prefix:
  assumes "health_ok s" and "length outcomes \<le> length (hs_fails s)"
  shows "\<exists>s'. foldE probe_backend s (List.enumerate 0 outcomes) = Inr s' \<and> round_spec s outcomes s'"
  using assms
proof (induction outcomes rule: rev_induct)
  case Nil
  then show ?case by (simp add: round_spec_def)
next
  case (snoc out outs)
  let ?n = "length outs"
  obtain t where t: "foldE probe_backend s (List.enumerate 0 outs) = Inr t" "round_spec s outs t"
    using snoc by auto
  have ok: "health_ok t" and len: "length (hs_fails t) = length (hs_fails s)" using t(2) by (simp_all add: round_spec_def)
  then obtain s' where s': "probe_backend t (?n, out) = Inr s'" "probed t ?n out s'"
    using probe_backend_probed[of t ?n out] snoc.prems(2) by auto
  have "foldE probe_backend s (List.enumerate 0 (outs @ [out])) = Inr s'"
    using t(1) s'(1) by (simp add: enumerate_append_eq foldE_append)
  moreover have "round_spec s (outs @ [out]) s'"
    unfolding round_spec_def
  proof (intro conjI allI impI)
    show "health_ok s'" "length (hs_fails s') = length (hs_fails s)"
      using s'(2) len by (simp_all add: probed_def)
    fix i assume i: "i < length (hs_fails s)"
    have hl: "length (ms_health (hs_metrics t)) = length (hs_fails s)" using health_okD[OF ok] len by simp
    consider "i < ?n" | "i = ?n" | "?n < i" by linarith
    then show "if i < length (outs @ [out])
        then hs_fails s' ! i = (if (outs @ [out]) ! i = Some 200 then 0 else hs_fails s ! i + 1) \<and>
             ms_health (hs_metrics s') ! i =
               ((outs @ [out]) ! i = Some 200 \<or> (ms_health (hs_metrics s) ! i \<and> hs_fails s ! i + 1 < FAIL_THRESHOLD))
        else hs_fails s' ! i = hs_fails s ! i \<and> ms_health (hs_metrics s') ! i = ms_health (hs_metrics s) ! i"
      using t(2) s'(2) i hl len by cases (simp_all add: round_spec_def probed_def nth_append)
  qed
  ultimately show ?case by blast
qed

lemma health_round_spec:
  assumes "health_ok s" and "length outcomes = length (hs_fails s)"
  shows "\<exists>s'. health_round s outcomes = Inr s' \<and> round_spec s outcomes s'"
  using round_prefix[of s outcomes] assms by (simp add: health_round_def)

lemma health_run_ok:
  assumes "health_ok s" and "length (hs_fails s) = n" and "\<forall>outs \<in> set rounds. length outs = n"
  shows "\<exists>s'. health_run s rounds = Inr s' \<and> health_ok s' \<and> length (hs_fails s') = n"
  unfolding health_run_def
proof (rule foldE_invariant[of "\<lambda>s. health_ok s \<and> length (hs_fails s) = n"])
  fix t outs assume t: "health_ok t \<and> length (hs_fails t) = n" and "outs \<in> set rounds"
  then obtain s' where "health_round t outs = Inr s'" "round_spec t outs s'"
    using health_round_spec[of t outs] assms(3) by auto
  then show "\<exists>s'. health_round t outs = Inr s' \<and> health_ok s' \<and> length (hs_fails s') = n"
    using t by (simp add: round_spec_def)
qed (use assms in simp)

definition trailing_failures :: "nat \<Rightarrow> probe list list \<Rightarrow> nat" where
  \<comment> \<open>how many of the last probes of backend \<open>i\<close> failed in a row\<close>
  "trailing_failures i rounds = length (takeWhile (\<lambda>outs. outs ! i \<noteq> Some 200) (rev rounds))"

definition health_init :: "nat \<Rightarrow> health_state" where
  \<comment> \<open>the checker of a fresh proxy\<close>
  "health_init n = \<lparr>hs_fails = replicate n 0, hs_ring = ha_init n 150, hs_metrics = metrics_init n None None\<rparr>"

lemma health_init_ok: "health_ok (health_init n)"
  by (simp add: health_ok_def health_init_def ha_init_ok metrics_init_ok)

lemma health_run_counts:
  assumes "\<forall>outs \<in> set rounds. length outs = n" and "health_run (health_init n) rounds = Inr s" and "i < n"
  shows "hs_fails s ! i = trailing_failures i rounds \<and>
         (ms_health (hs_metrics s) ! i \<longleftrightarrow> trailing_failures i rounds < FAIL_THRESHOLD)"
  using assms
proof (induction rounds arbitrary: s rule: rev_induct)
  case Nil
  then show ?case by (auto simp: health_run_def health_init_def trailing_failures_def FAIL_THRESHOLD_def)
next
  case (snoc outs rounds)
  have r: "\<forall>outs \<in> set rounds. length outs = n" using snoc.prems(1) by simp
  obtain t where t: "health_run (health_init n) rounds = Inr t" "health_ok t" "length (hs_fails t) = n"
    using health_run_ok[OF health_init_ok _ r] by (auto simp: health_init_def)
  have "health_round t outs = Inr s"
    using snoc.prems(2) t(1) by (simp add: health_run_def foldE_append split: sum.splits)
  moreover obtain s' where "health_round t outs = Inr s'" "round_spec t outs s'"
    using health_round_spec[OF t(2), of outs] snoc.prems(1) t(3) by auto
  ultimately have "round_spec t outs s" by simp
  moreover have "hs_fails t ! i = trailing_failures i rounds \<and>
      (ms_health (hs_metrics t) ! i \<longleftrightarrow> trailing_failures i rounds < FAIL_THRESHOLD)"
    using snoc.IH[OF r t(1) snoc.prems(3)] .
  moreover have "length outs = n" using snoc.prems(1) by simp
  ultimately show ?case
    using snoc.prems(3) t(3) by (auto simp: round_spec_def trailing_failures_def FAIL_THRESHOLD_def)
qed

section \<open>Properties\<close>

text \<open>
  The health checker never raises and keeps the ring and the metrics in agreement: from a
  fresh proxy, after any number of rounds of probes, the backends that own virtual nodes are
  exactly those the metrics report as healthy.
\<close>

theorem health_views_agree:
  assumes "\<forall>outs \<in> set rounds. length outs = n"
  shows "\<exists>s. health_run (health_init n) rounds = Inr s \<and> ring_ok (hs_ring s) \<and>
           rg_health (hs_ring s) = ms_health (hs_metrics s) \<and>
           (\<forall>e \<in> set (rg_ring (hs_ring s)). ms_health (hs_metrics s) ! vowner e)"
proof -
  obtain s where s: "health_run (health_init n) rounds = Inr s" "health_ok s"
    using health_run_ok[OF health_init_ok _ assms] by (auto simp: health_init_def)
  have "rg_health (hs_ring s) ! vowner e" if "e \<in> set (rg_ring (hs_ring s))" for e
    using s(2) that by (auto simp: health_ok_def ring_ok_def points_def)
  then show ?thesis using s by (simp add: health_ok_def)
qed

theorem health_views_agree_witness:
  "\<exists>s. health_run (health_init 2) [[Some 200, None], [Some 503, None]] = Inr s \<and>
     rg_health (hs_ring s) = ms_health (hs_metrics s)"
  using health_views_agree[of "[[Some 200, None], [Some 503, None]]" 2] by auto



end
