(* ===== verification/Proactive.thy ===== *)
theory Proactive
  imports Hash_Ring Metrics_Store
begin

text \<open>
  \<open>ProactiveController\<close> of \<open>demo/proxy.py\<close>: from the trend of the mean load over ten samples
  it either takes virtual nodes from loaded backends or restores them. The loops over the
  backends that call \<open>set_vnodes\<close> share the function \<open>resize_loop\<close>, which the control loop of
  \<open>Proxy_Core\<close> uses too.
\<close>

section \<open>Resizing backends in a loop\<close>

fun resize_loop :: "(nat \<Rightarrow> real \<Rightarrow> int option) \<Rightarrow> ha_ring \<Rightarrow> nat list \<Rightarrow> py_err + ha_ring" where
  \<comment> \<open>\<open>for i in ...: if ...: ring.set_vnodes(i, ...)\<close>: \<open>f i c\<close> is the requested count, or nothing,
      for backend \<open>i\<close> with \<open>c\<close> virtual nodes at that moment\<close>
  "resize_loop f r [] = Inr r"
| "resize_loop f r (i # is) =
     bindE (py_get (vnode_counts r) (int i)) (\<lambda>c.
       case f i c of
         None \<Rightarrow> resize_loop f r is
       | Some k \<Rightarrow> bindE (set_vnodes r (int i) k) (\<lambda>r'. resize_loop f r' is))"

definition resized :: "(nat \<Rightarrow> real \<Rightarrow> int option) \<Rightarrow> nat \<Rightarrow> real \<Rightarrow> real" where
  "resized f i c = (case f i c of None \<Rightarrow> c | Some k \<Rightarrow> real_of_int (max 10 (min 300 k)))"

lemma set_vnodes_total:
  "ring_ok r \<Longrightarrow> b < rg_n r \<Longrightarrow> \<exists>r'. set_vnodes r (int b) c = Inr r'"
  by (simp add: set_vnodes_def ring_ok_def)

text \<open>One pass over distinct backends resizes each from its own count; the rest is untouched.\<close>

lemma resize_loop_spec:
  assumes "ring_ok r" and "distinct is" and "\<forall>i \<in> set is. i < rg_n r"
  shows "\<exists>r'. resize_loop f r is = Inr r' \<and> ring_ok r' \<and> rg_n r' = rg_n r \<and> rg_health r' = rg_health r \<and>
           (\<forall>i < rg_n r. rg_vnodes r' ! i =
              (if i \<in> set is then resized f i (rg_vnodes r ! i) else rg_vnodes r ! i))"
  using assms
proof (induction "is" arbitrary: r)
  case Nil
  then show ?case by simp
next
  case (Cons b bs)
  have b: "b < rg_n r" "b < length (rg_vnodes r)" using Cons.prems by (auto simp: ring_ok_def)
  then have get: "py_get (vnode_counts r) (int b) = Inr (rg_vnodes r ! b)" by (simp add: vnode_counts_def)
  show ?case
  proof (cases "f b (rg_vnodes r ! b)")
    case None
    then show ?thesis using Cons get by (force simp: resized_def)
  next
    case (Some k)
    obtain t where t: "set_vnodes r (int b) k = Inr t" using set_vnodes_total[OF Cons.prems(1) b(1)] by blast
    note ti = set_vnodes_Inr[OF Cons.prems(1) t]
    have "\<exists>r'. resize_loop f t bs = Inr r' \<and> ring_ok r' \<and> rg_n r' = rg_n t \<and> rg_health r' = rg_health t \<and>
           (\<forall>i < rg_n t. rg_vnodes r' ! i =
              (if i \<in> set bs then resized f i (rg_vnodes t ! i) else rg_vnodes t ! i))"
      using Cons.IH[OF ti(2)] Cons.prems ti(3) by simp
    then obtain r' where r': "resize_loop f t bs = Inr r'" "ring_ok r'" "rg_n r' = rg_n t" "rg_health r' = rg_health t"
      "\<forall>i < rg_n t. rg_vnodes r' ! i = (if i \<in> set bs then resized f i (rg_vnodes t ! i) else rg_vnodes t ! i)"
      by blast
    have "rg_vnodes r' ! i = (if i \<in> set (b # bs) then resized f i (rg_vnodes r ! i) else rg_vnodes r ! i)"
      if "i < rg_n r" for i
      using r'(5) ti(3,5) that Cons.prems(2) b Some by (cases "i = b") (auto simp: resized_def)
    then show ?thesis using r' ti get t Some by simp
  qed
qed

section \<open>The controller\<close>

definition shed_count :: "metrics_store \<Rightarrow> nat \<Rightarrow> real \<Rightarrow> int option" where
  \<comment> \<open>the branch under pressure: three per cent fewer for a healthy backend above 0.70, at least 50\<close>
  "shed_count m i c =
     (if last (ms_load_hist m ! i) > 70 / 100 \<and> ms_health m ! i
      then Some (max 50 (py_int (c * 97 / 100))) else None)"

definition restore_count :: "nat \<Rightarrow> real \<Rightarrow> int option" where
  \<comment> \<open>the other branch: move below-148 counts towards 150\<close>
  "restore_count i c = (if c < 148 then Some (py_int (c * 99 / 100 + 150 * 1 / 100)) else None)"

definition proactive_step :: "ha_ring \<Rightarrow> metrics_store \<Rightarrow> py_err + ha_ring \<times> metrics_store" where
  "proactive_step ring m =
     (if \<exists>row \<in> set (ms_load_hist m). length (last_n 10 row) < 10 then Inr (ring, m)
      else let slope = load_slope (column_means (ms_load_hist m) 10)
           in if slope * 30 > 75 / 100
              then let m = m\<lparr>ms_proactive_active := True\<rparr>
                   in bindE (resize_loop (shed_count m) ring [0..<length (ms_health m)]) (\<lambda>ring.
                        Inr (ring, m\<lparr>ms_vnode_counts := vnode_counts ring\<rparr>))
              else let m = m\<lparr>ms_proactive_active := False\<rparr>
                   in bindE (resize_loop restore_count ring [0..<length (vnode_counts ring)]) (\<lambda>ring.
                        Inr (ring, m\<lparr>ms_vnode_counts := vnode_counts ring\<rparr>)))"

definition pressure :: "metrics_store \<Rightarrow> bool" where
  \<comment> \<open>the forecast over thirty samples exceeds 0.75\<close>
  "pressure m \<longleftrightarrow> load_slope (column_means (ms_load_hist m) 10) * 30 > 75 / 100"

definition control_ok :: "ha_ring \<Rightarrow> metrics_store \<Rightarrow> bool" where
  "control_ok ring m \<longleftrightarrow> ring_ok ring \<and> metrics_ok m \<and> rg_n ring = ms_n m"

lemma metrics_ok_updates [simp]:
  "metrics_ok (m\<lparr>ms_proactive_active := b\<rparr>) = metrics_ok m"
  "metrics_ok (m\<lparr>ms_vnode_counts := v\<rparr>) = metrics_ok m"
  "metrics_ok (m\<lparr>ms_kan_weights := w\<rparr>) = metrics_ok m"
  "metrics_ok (m\<lparr>ms_cbf_active := f\<rparr>) = metrics_ok m"
  by (simp_all add: metrics_ok_def)

lemma enough_history: "metrics_ok m \<Longrightarrow> \<not> (\<exists>row \<in> set (ms_load_hist m). length (last_n 10 row) < 10)"
  by (auto simp: metrics_ok_def unit_rows_def length_last_n HISTORY_LEN_def)

lemma proactive_step_spec:
  assumes "control_ok ring m"
  shows "\<exists>ring' m'. proactive_step ring m = Inr (ring', m') \<and> control_ok ring' m' \<and> rg_health ring' = rg_health ring \<and>
           ms_health m' = ms_health m \<and> ms_rate_limits m' = ms_rate_limits m \<and> ms_load_hist m' = ms_load_hist m \<and>
           ms_proactive_active m' = pressure m \<and> ms_vnode_counts m' = rg_vnodes ring' \<and>
           ms_active m' = ms_active m \<and> ms_kan_weights m' = ms_kan_weights m \<and> ms_n m' = ms_n m \<and>
           (\<forall>i < rg_n ring. rg_vnodes ring' ! i =
              resized (if pressure m then shed_count m else restore_count) i (rg_vnodes ring ! i))"
proof -
  have ok: "ring_ok ring" "metrics_ok m" "rg_n ring = ms_n m" using assms by (simp_all add: control_ok_def)
  have lens: "length (ms_health m) = rg_n ring" "length (vnode_counts ring) = rg_n ring"
    using ok metrics_okD by (simp_all add: ring_ok_def vnode_counts_def)
  have shed: "shed_count (m\<lparr>ms_proactive_active := True\<rparr>) = shed_count m"
    by (intro ext) (simp add: shed_count_def)
  let ?f = "if pressure m then shed_count m else restore_count"
  obtain ring' where r': "resize_loop ?f ring [0..<rg_n ring] = Inr ring'" "ring_ok ring'" "rg_n ring' = rg_n ring"
    "rg_health ring' = rg_health ring" "\<forall>i < rg_n ring. rg_vnodes ring' ! i = resized ?f i (rg_vnodes ring ! i)"
    using resize_loop_spec[OF ok(1), of "[0..<rg_n ring]" ?f] by auto
  have "proactive_step ring m =
      Inr (ring', m\<lparr>ms_proactive_active := pressure m, ms_vnode_counts := rg_vnodes ring'\<rparr>)"
    using r'(1) enough_history[OF ok(2)] lens shed
    unfolding proactive_step_def Let_def pressure_def[symmetric]
    by (cases "pressure m") (simp_all add: vnode_counts_def)
  then show ?thesis using r'(2-5) ok by (simp add: control_ok_def)
qed

lemma resized_shed:
  assumes "last (ms_load_hist m ! i) > 70 / 100" and "ms_health m ! i" and that: "0 \<le> k"
  shows "resized (shed_count m) i (real_of_int k) =
         (if k \<le> 309 then real_of_int (max 50 \<lfloor>real_of_int k * 97 / 100\<rfloor>) else 300)"
proof (cases "k \<le> 309")
  case True
  then have "\<lfloor>real_of_int k * 97 / 100\<rfloor> \<le> 300" by (simp add: floor_le_iff)
  then show ?thesis using assms that True by (simp add: resized_def shed_count_def py_int_def)
next
  case False
  then have "300 \<le> \<lfloor>real_of_int k * 97 / 100\<rfloor>" by (simp add: le_floor_iff)
  then show ?thesis using assms that False by (simp add: resized_def shed_count_def py_int_def)
qed

lemma resized_restore:
  "0 \<le> k \<Longrightarrow> k \<le> 50 \<Longrightarrow> resized restore_count i (real_of_int k) = real_of_int (max 10 (k + 1))"
  "51 \<le> k \<Longrightarrow> resized restore_count i (real_of_int k) = real_of_int k"
proof -
  show "resized restore_count i (real_of_int k) = real_of_int (max 10 (k + 1))" if "0 \<le> k" "k \<le> 50"
  proof -
    have "real_of_int k \<le> 50" using that by simp
    then have "py_int (real_of_int k * 99 / 100 + 150 * 1 / 100) = k + 1"
      using that by (intro py_int_eqI) simp_all
    moreover have "real_of_int k < 148" using that by simp
    ultimately show ?thesis using that by (simp add: resized_def restore_count_def)
  qed
  show "resized restore_count i (real_of_int k) = real_of_int k" if "51 \<le> k"
  proof (cases "k < 148")
    case True
    then have "51 \<le> real_of_int k" "real_of_int k < 148" using that by simp_all
    then have "py_int (real_of_int k * 99 / 100 + 150 * 1 / 100) = k" by (intro py_int_eqI) simp_all
    then show ?thesis using True that by (simp add: resized_def restore_count_def)
  next
    case False
    then show ?thesis by (simp add: resized_def restore_count_def)
  qed
qed

section \<open>Properties\<close>

text \<open>
  Under pressure the controller takes virtual nodes only from healthy backends above 0.70: such
  a backend with more than 51 (and at most 300) ends with fewer, but no fewer than 50; every other
  backend keeps its count, the health flags and rate limits are untouched, and the ring and the
  published counts agree.
\<close>

theorem pressure_sheds_loaded:
  assumes "control_ok ring m" and "pressure m"
  shows "\<exists>ring' m'. proactive_step ring m = Inr (ring', m') \<and> control_ok ring' m' \<and>
           ms_vnode_counts m' = vnode_counts ring' \<and> ms_proactive_active m' \<and>
           rg_health ring' = rg_health ring \<and> ms_rate_limits m' = ms_rate_limits m \<and>
           (\<forall>i < rg_n ring. \<not> (last (ms_load_hist m ! i) > 70 / 100 \<and> ms_health m ! i) \<longrightarrow>
              vnode_counts ring' ! i = vnode_counts ring ! i) \<and>
           (\<forall>i < rg_n ring. \<forall>k. last (ms_load_hist m ! i) > 70 / 100 \<and> ms_health m ! i \<and>
              vnode_counts ring ! i = real_of_int k \<and> 51 < k \<and> k \<le> 300 \<longrightarrow>
              50 \<le> vnode_counts ring' ! i \<and> vnode_counts ring' ! i < vnode_counts ring ! i)"
proof -
  obtain ring' m' where s: "proactive_step ring m = Inr (ring', m')" "control_ok ring' m'"
    "rg_health ring' = rg_health ring" "ms_rate_limits m' = ms_rate_limits m" "ms_proactive_active m' = pressure m"
    "ms_vnode_counts m' = rg_vnodes ring'"
    "\<forall>i < rg_n ring. rg_vnodes ring' ! i = resized (shed_count m) i (rg_vnodes ring ! i)"
    using proactive_step_spec[OF assms(1)] assms(2) by auto
  have "resized (shed_count m) i c = c" if "\<not> (last (ms_load_hist m ! i) > 70 / 100 \<and> ms_health m ! i)" for i c
    using that by (auto simp: resized_def shed_count_def)
  moreover have "50 \<le> resized (shed_count m) i (real_of_int k) \<and> resized (shed_count m) i (real_of_int k) < real_of_int k"
    if "last (ms_load_hist m ! i) > 70 / 100" "ms_health m ! i" "51 < k" "k \<le> 300" for i k
  proof -
    have "\<lfloor>real_of_int k * 97 / 100\<rfloor> < k" using that(3) by (simp add: floor_less_iff)
    then show ?thesis using resized_shed[OF that(1,2), of k] that(3,4) by simp
  qed
  ultimately show ?thesis using s assms(2) by (auto simp: vnode_counts_def)
qed

text \<open>
  Without pressure the restoring branch does not restore: a count of at most 50 gains one
  virtual node per step, and every count from 51 on stays where it is, so a backend that has been
  reduced never returns to 150.
\<close>

theorem restore_stalls_at_51:
  assumes "control_ok ring m" and "\<not> pressure m" and "i < rg_n ring" and "vnode_counts ring ! i = real_of_int k"
    and "10 \<le> k"
  shows "\<exists>ring' m'. proactive_step ring m = Inr (ring', m') \<and>
           vnode_counts ring' ! i = real_of_int (if k \<le> 50 then k + 1 else k)"
proof -
  obtain ring' m' where "proactive_step ring m = Inr (ring', m')"
    "rg_vnodes ring' ! i = resized restore_count i (rg_vnodes ring ! i)"
    using proactive_step_spec[OF assms(1)] assms(2,3) by auto
  then show ?thesis
    using resized_restore(1)[of k i] resized_restore(2)[of k i] assms(4,5) by (auto simp: vnode_counts_def)
qed

text \<open>
  Under pressure a loaded backend with fewer than 50 virtual nodes is given more traffic, not
  less: the floor of 50 raises its count.
\<close>

theorem pressure_raises_small_backend:
  assumes "control_ok ring m" and "pressure m" and "i < rg_n ring" and "vnode_counts ring ! i = real_of_int k"
    and "10 \<le> k" and "k < 50" and "last (ms_load_hist m ! i) > 70 / 100" and "ms_health m ! i"
  shows "\<exists>ring' m'. proactive_step ring m = Inr (ring', m') \<and> vnode_counts ring' ! i = 50 \<and>
           vnode_counts ring ! i < vnode_counts ring' ! i"
proof -
  obtain ring' m' where "proactive_step ring m = Inr (ring', m')"
    "rg_vnodes ring' ! i = resized (shed_count m) i (rg_vnodes ring ! i)"
    using proactive_step_spec[OF assms(1)] assms(2,3) by auto
  moreover have "\<lfloor>real_of_int k * 97 / 100\<rfloor> \<le> 50" using assms(6) by (simp add: floor_le_iff)
  ultimately show ?thesis
    using resized_shed[OF assms(7,8), of k] assms(4-6) by (simp add: vnode_counts_def)
qed

text \<open>A state of a single backend whose load has been rising by a tenth per sample.\<close>

definition rising :: metrics_store where
  "rising = (metrics_init 1 None None)\<lparr>ms_load_hist :=
     [replicate 110 0 @ [0, 1/10, 2/10, 3/10, 4/10, 5/10, 6/10, 7/10, 8/10, 9/10]]\<rparr>"

lemma rising_ok: "control_ok (ha_init 1 c) rising"
proof -
  have "metrics_ok (metrics_init 1 None None)" by (rule metrics_init_ok)
  then have "metrics_ok rising" by (simp add: metrics_ok_def rising_def unit_rows_def HISTORY_LEN_def)
  then show ?thesis by (simp add: control_ok_def ha_init_ok rising_def)
qed

lemma rising_pressure: "pressure rising"
  by (simp add: pressure_def rising_def column_means_def load_slope_def Let_def vdot_def slope_xs_def
      upt_rec last_n_def vmean_def nth_append)

lemma rising_state [simp]:
  "last (ms_load_hist rising ! 0) = 9/10" "ms_health rising ! 0"
  by (simp_all add: rising_def)

theorem pressure_sheds_loaded_witness:
  "\<exists>ring' m'. proactive_step (ha_init 1 150) rising = Inr (ring', m') \<and> vnode_counts ring' ! 0 < 150"
proof -
  obtain ring' m' where "proactive_step (ha_init 1 150) rising = Inr (ring', m')"
    "\<forall>i < 1. \<forall>k. last (ms_load_hist rising ! i) > 70 / 100 \<and> ms_health rising ! i \<and>
       vnode_counts (ha_init 1 150) ! i = real_of_int k \<and> 51 < k \<and> k \<le> 300 \<longrightarrow>
       50 \<le> vnode_counts ring' ! i \<and> vnode_counts ring' ! i < vnode_counts (ha_init 1 150) ! i"
    using pressure_sheds_loaded[OF rising_ok rising_pressure, of 150] by auto
  then show ?thesis by (auto dest!: spec[of _ "150 :: int"])
qed

theorem restore_stalls_at_51_witness:
  "\<exists>ring' m'. proactive_step (ha_init 1 60) (metrics_init 1 None None) = Inr (ring', m') \<and> vnode_counts ring' ! 0 = 60"
proof -
  have "control_ok (ha_init 1 60) (metrics_init 1 None None)"
    by (simp add: control_ok_def ha_init_ok metrics_init_ok)
  moreover have "\<not> pressure (metrics_init 1 None None)"
    by (simp add: pressure_def metrics_init_def column_means_def load_slope_def Let_def vdot_def slope_xs_def
      upt_rec last_n_def vmean_def HISTORY_LEN_def)
  ultimately show ?thesis using restore_stalls_at_51[of "ha_init 1 60" "metrics_init 1 None None" 0 60] by simp
qed

theorem pressure_raises_small_backend_witness:
  "\<exists>ring' m'. proactive_step (ha_init 1 20) rising = Inr (ring', m') \<and> vnode_counts ring' ! 0 = 50"
  using pressure_raises_small_backend[OF rising_ok rising_pressure, of 0 20 20] by auto

end
