(* ===== verification/Rate_Adjuster.thy ===== *)
theory Rate_Adjuster
  imports Token_Bucket Metrics_Store
begin

text \<open>
  \<open>DQNRateLimitAdjuster\<close> of \<open>demo/proxy.py\<close>: an epsilon-greedy choice among three factors per
  healthy backend, clipped to the configured range, written to the metrics and to the backend's
  token bucket. The random draws are arguments: for each backend the number compared with
  epsilon and the action drawn when exploring.
\<close>

section \<open>State and operations\<close>

record adjuster =
  ad_step :: nat
  ad_epsilon :: real

record rate_limits =
  rl_min :: real
  rl_max :: real

definition adjuster_init :: adjuster where
  "adjuster_init = \<lparr>ad_step = 0, ad_epsilon = 3/10\<rparr>"

definition ACTIONS :: "real list" where
  "ACTIONS = [90/100, 1, 110/100]"

definition q_values :: "real \<Rightarrow> real list" where
  "q_values load =
     (if load > 80/100 then [1, 2/10, 0]
      else if load > 65/100 then [3/10, 6/10, 1/10]
      else [0, 3/10, 7/10])"

type_synonym draw = "real \<times> nat"

definition choose_action :: "real \<Rightarrow> draw \<Rightarrow> real \<Rightarrow> nat" where
  "choose_action epsilon d load =
     (if fst d < epsilon then snd d else np_argmax (q_values load))"

definition adjust_one :: "rate_limits \<Rightarrow> real \<Rightarrow> draw list \<Rightarrow> metrics_store \<times> token_bucket list \<Rightarrow> nat \<Rightarrow>
    py_err + metrics_store \<times> token_bucket list" where
  \<comment> \<open>the loop body for bucket \<open>i\<close>\<close>
  "adjust_one lims epsilon draws mb i =
     (case mb of (m, buckets) \<Rightarrow>
        bindE (py_get (ms_health m) (int i)) (\<lambda>healthy.
          if \<not> healthy then Inr (m, buckets)
          else bindE (py_get (ms_load_hist m) (int i)) (\<lambda>row.
               let action = choose_action epsilon (draws ! i) (last row)
               in bindE (py_get (ms_rate_limits m) (int i)) (\<lambda>current_rate.
                  let new_rate = np_clip (current_rate * ACTIONS ! action) (rl_min lims) (rl_max lims)
                  in Inr (m\<lparr>ms_rate_limits := (ms_rate_limits m)[i := new_rate]\<rparr>,
                          buckets[i := tb_set_rate (buckets ! i) new_rate])))))"

definition adjuster_update :: "rate_limits \<Rightarrow> draw list \<Rightarrow> adjuster \<Rightarrow> metrics_store \<Rightarrow> token_bucket list \<Rightarrow>
    py_err + adjuster \<times> metrics_store \<times> token_bucket list" where
  "adjuster_update lims draws a m buckets =
     (let a = a\<lparr>ad_step := ad_step a + 1\<rparr>;
          a = a\<lparr>ad_epsilon := max (5/100) (3/10 - real (ad_step a) / 5000)\<rparr>
      in bindE (foldE (adjust_one lims (ad_epsilon a) draws) (m, buckets) [0..<length buckets]) (\<lambda>mb.
           Inr (a, fst mb, snd mb)))"

section \<open>One pass\<close>

definition draws_ok :: "nat \<Rightarrow> draw list \<Rightarrow> bool" where
  \<comment> \<open>one draw per backend, an action in range, as \<open>randint(3)\<close> gives\<close>
  "draws_ok n draws \<longleftrightarrow> length draws = n \<and> (\<forall>d \<in> set draws. 0 \<le> fst d \<and> fst d < 1 \<and> snd d < 3)"

definition adjusted :: "rate_limits \<Rightarrow> real \<Rightarrow> draw list \<Rightarrow> metrics_store \<Rightarrow> nat \<Rightarrow> real" where
  \<comment> \<open>the rate backend \<open>i\<close> gets\<close>
  "adjusted lims epsilon draws m i =
     (if ms_health m ! i
      then np_clip (ms_rate_limits m ! i * ACTIONS ! choose_action epsilon (draws ! i) (last (ms_load_hist m ! i)))
             (rl_min lims) (rl_max lims)
      else ms_rate_limits m ! i)"

definition adjust_mid :: "rate_limits \<Rightarrow> real \<Rightarrow> draw list \<Rightarrow> metrics_store \<Rightarrow> token_bucket list \<Rightarrow> nat \<Rightarrow>
    metrics_store \<times> token_bucket list \<Rightarrow> bool" where
  \<comment> \<open>the state after the first \<open>k\<close> backends\<close>
  "adjust_mid lims epsilon draws m0 b0 k mb \<longleftrightarrow>
     length (ms_rate_limits (fst mb)) = length b0 \<and> length (snd mb) = length b0 \<and>
     fst mb = m0\<lparr>ms_rate_limits := ms_rate_limits (fst mb)\<rparr> \<and>
     (\<forall>i < length b0. ms_rate_limits (fst mb) ! i =
        (if i < k then adjusted lims epsilon draws m0 i else ms_rate_limits m0 ! i) \<and>
      snd mb ! i = (if i < k \<and> ms_health m0 ! i then tb_set_rate (b0 ! i) (adjusted lims epsilon draws m0 i) else b0 ! i))"

lemma adjust_one_mid:
  assumes "adjust_mid lims epsilon draws m0 b0 k mb" and "k < length b0"
    and "length (ms_health m0) = length b0" and "length (ms_load_hist m0) = length b0"
  shows "\<exists>mb'. adjust_one lims epsilon draws mb k = Inr mb' \<and> adjust_mid lims epsilon draws m0 b0 (Suc k) mb'"
proof -
  obtain m b where mb: "mb = (m, b)" by (cases mb)
  define rs where "rs = ms_rate_limits m"
  have m: "m = m0\<lparr>ms_rate_limits := rs\<rparr>" and len: "length rs = length b0" "length b = length b0"
    and each: "\<And>i. i < length b0 \<Longrightarrow> rs ! i = (if i < k then adjusted lims epsilon draws m0 i else ms_rate_limits m0 ! i)"
    "\<And>i. i < length b0 \<Longrightarrow> b ! i = (if i < k \<and> ms_health m0 ! i then tb_set_rate (b0 ! i) (adjusted lims epsilon draws m0 i) else b0 ! i)"
    using assms(1) unfolding adjust_mid_def mb rs_def by simp_all
  show ?thesis
  proof (cases "ms_health m0 ! k")
    case True
    have "rs ! k = ms_rate_limits m0 ! k" using each(1)[OF assms(2)] by simp
    then have "adjust_one lims epsilon draws mb k = Inr (m0\<lparr>ms_rate_limits := rs[k := adjusted lims epsilon draws m0 k]\<rparr>,
        b[k := tb_set_rate (b0 ! k) (adjusted lims epsilon draws m0 k)])"
      using True assms(2-4) len each(2)[OF assms(2)]
      by (simp add: adjust_one_def mb m adjusted_def Let_def)
    moreover have "adjust_mid lims epsilon draws m0 b0 (Suc k) (m0\<lparr>ms_rate_limits := rs[k := adjusted lims epsilon draws m0 k]\<rparr>,
        b[k := tb_set_rate (b0 ! k) (adjusted lims epsilon draws m0 k)])"
      using True len each by (auto simp: adjust_mid_def nth_list_update less_Suc_eq)
    ultimately show ?thesis by blast
  next
    case False
    then have "adjust_one lims epsilon draws mb k = Inr mb"
      using assms(2-4) by (simp add: adjust_one_def mb m)
    moreover have "adjust_mid lims epsilon draws m0 b0 (Suc k) mb"
      using False len each m by (auto simp: adjust_mid_def mb less_Suc_eq adjusted_def)
    ultimately show ?thesis by blast
  qed
qed

lemma adjust_loop:
  assumes "adjust_mid lims epsilon draws m0 b0 k mb" and "k \<le> length b0"
    and "length (ms_health m0) = length b0" and "length (ms_load_hist m0) = length b0"
  shows "\<exists>mb'. foldE (adjust_one lims epsilon draws) mb [k..<length b0] = Inr mb' \<and>
           adjust_mid lims epsilon draws m0 b0 (length b0) mb'"
  using assms
proof (induction "length b0 - k" arbitrary: k mb)
  case 0
  then show ?case by simp
next
  case (Suc d)
  then have less: "k < length b0" by simp
  obtain mb' where mb': "adjust_one lims epsilon draws mb k = Inr mb'" "adjust_mid lims epsilon draws m0 b0 (Suc k) mb'"
    using adjust_one_mid[OF Suc.prems(1) less Suc.prems(3,4)] by blast
  have "\<exists>mb''. foldE (adjust_one lims epsilon draws) mb' [Suc k..<length b0] = Inr mb'' \<and>
      adjust_mid lims epsilon draws m0 b0 (length b0) mb''"
    by (rule Suc.hyps(1)[OF _ mb'(2) _ Suc.prems(3,4)]) (use Suc.hyps(2) less in simp_all)
  then show ?case using mb'(1) by (simp add: upt_conv_Cons[OF less])
qed

definition next_epsilon :: "adjuster \<Rightarrow> real" where
  "next_epsilon a = max (5/100) (3/10 - real (ad_step a + 1) / 5000)"

lemma next_epsilon_range: "1/20 \<le> next_epsilon a \<and> next_epsilon a \<le> 3/10"
  unfolding next_epsilon_def by (intro conjI max.boundedI) simp_all

lemma adjuster_update_spec:
  assumes "metrics_ok m" and "length buckets = ms_n m"
  shows "\<exists>a' m' buckets'. adjuster_update lims draws a m buckets = Inr (a', m', buckets') \<and>
           ad_step a' = ad_step a + 1 \<and> ad_epsilon a' = next_epsilon a \<and>
           m' = m\<lparr>ms_rate_limits := ms_rate_limits m'\<rparr> \<and> length (ms_rate_limits m') = ms_n m \<and> length buckets' = ms_n m \<and>
           (\<forall>i < ms_n m. ms_rate_limits m' ! i = adjusted lims (next_epsilon a) draws m i \<and>
              buckets' ! i = (if ms_health m ! i then tb_set_rate (buckets ! i) (adjusted lims (next_epsilon a) draws m i)
                              else buckets ! i))"
proof -
  note l = metrics_okD[OF assms(1)]
  have "adjust_mid lims (next_epsilon a) draws m buckets 0 (m, buckets)"
    using assms(2) l by (simp add: adjust_mid_def)
  from adjust_loop[OF this] obtain m' b' where
    "foldE (adjust_one lims (next_epsilon a) draws) (m, buckets) [0..<length buckets] = Inr (m', b')"
    "adjust_mid lims (next_epsilon a) draws m buckets (length buckets) (m', b')"
    using assms(2) l by auto
  then show ?thesis
    using assms(2) by (simp add: adjuster_update_def next_epsilon_def adjust_mid_def)
qed

section \<open>Properties\<close>

lemma q_values_argmax:
  "np_argmax (q_values load) = (if load > 80/100 then 0 else if load > 65/100 then 1 else 2)"
  by (simp add: q_values_def np_argmax_def)

lemma choose_action_range: "draws_ok n draws \<Longrightarrow> i < n \<Longrightarrow> choose_action e (draws ! i) load < 3"
  by (auto simp: choose_action_def q_values_argmax draws_ok_def)

lemma ACTIONS_range: "a < 3 \<Longrightarrow> 9/10 \<le> ACTIONS ! a \<and> ACTIONS ! a \<le> 11/10"
  by (auto simp: ACTIONS_def numeral_3_eq_3 less_Suc_eq)

lemma rates_replaced_ok:
  "metrics_ok m \<Longrightarrow> m' = m\<lparr>ms_rate_limits := rs\<rparr> \<Longrightarrow> length rs = ms_n m \<Longrightarrow> \<forall>i < ms_n m. 0 < rs ! i \<Longrightarrow> metrics_ok m'"
  by (auto simp: metrics_ok_def in_set_conv_nth)

lemma adjuster_update_ok:
  assumes "metrics_ok m" and "length buckets = ms_n m" and "0 < rl_min lims" and "rl_min lims \<le> rl_max lims"
  shows "\<exists>a' m' buckets'. adjuster_update lims draws a m buckets = Inr (a', m', buckets') \<and> metrics_ok m' \<and>
           m' = m\<lparr>ms_rate_limits := ms_rate_limits m'\<rparr> \<and>
           1/20 \<le> ad_epsilon a' \<and> ad_epsilon a' \<le> 3/10 \<and> length buckets' = ms_n m \<and>
           (\<forall>i < ms_n m. if ms_health m ! i
              then rl_min lims \<le> ms_rate_limits m' ! i \<and> ms_rate_limits m' ! i \<le> rl_max lims \<and>
                   tb_rate (buckets' ! i) = max 10 (ms_rate_limits m' ! i)
              else ms_rate_limits m' ! i = ms_rate_limits m ! i \<and> buckets' ! i = buckets ! i)"
proof -
  obtain a' m' b' where u: "adjuster_update lims draws a m buckets = Inr (a', m', b')" "ad_epsilon a' = next_epsilon a"
    "m' = m\<lparr>ms_rate_limits := ms_rate_limits m'\<rparr>" "length (ms_rate_limits m') = ms_n m" "length b' = ms_n m"
    "\<forall>i < ms_n m. ms_rate_limits m' ! i = adjusted lims (next_epsilon a) draws m i \<and>
       b' ! i = (if ms_health m ! i then tb_set_rate (buckets ! i) (adjusted lims (next_epsilon a) draws m i) else buckets ! i)"
    using adjuster_update_spec[OF assms(1,2), of lims draws a] by (elim exE conjE) (rule that; assumption)
  have range: "rl_min lims \<le> adjusted lims e draws m i \<and> adjusted lims e draws m i \<le> rl_max lims"
    if "ms_health m ! i" for e i
    using that np_clip_range[OF assms(4)] by (simp add: adjusted_def)
  have "0 < ms_rate_limits m ! i" if "i < ms_n m" for i
    using assms(1) that by (simp add: metrics_ok_def)
  then have "0 < ms_rate_limits m' ! i" if "i < ms_n m" for i
    using u(6) range[of i] assms(3) that by (cases "ms_health m ! i") (auto simp: adjusted_def intro: less_le_trans)
  then have "metrics_ok m'" using rates_replaced_ok[OF assms(1) u(3,4)] by blast
  moreover have "if ms_health m ! i
              then rl_min lims \<le> ms_rate_limits m' ! i \<and> ms_rate_limits m' ! i \<le> rl_max lims \<and>
                   tb_rate (b' ! i) = max 10 (ms_rate_limits m' ! i)
              else ms_rate_limits m' ! i = ms_rate_limits m ! i \<and> b' ! i = buckets ! i" if "i < ms_n m" for i
    using u(6) range[of i] that by (cases "ms_health m ! i") (simp_all add: tb_set_rate_def adjusted_def)
  ultimately have "metrics_ok m' \<and> (\<forall>i < ms_n m. if ms_health m ! i
              then rl_min lims \<le> ms_rate_limits m' ! i \<and> ms_rate_limits m' ! i \<le> rl_max lims \<and>
                   tb_rate (b' ! i) = max 10 (ms_rate_limits m' ! i)
              else ms_rate_limits m' ! i = ms_rate_limits m ! i \<and> b' ! i = buckets ! i)" by blast
  moreover have "1/20 \<le> ad_epsilon a' \<and> ad_epsilon a' \<le> 3/10" unfolding u(2) by (rule next_epsilon_range)
  ultimately show ?thesis using u(1,3,5) by (intro exI[of _ a'] exI[of _ m'] exI[of _ b']) blast
qed

text \<open>
  One adjustment never raises on a consistent store and keeps the rates in the configured
  range: every healthy backend gets a rate between the minimum and the maximum, its bucket gets
  the same rate (but at least 10), unhealthy backends are left alone, and epsilon stays between
  0.05 and 0.3.
\<close>

theorem adjuster_rates_in_range:
  assumes "metrics_ok m" and "length buckets = ms_n m" and "0 < rl_min lims" and "rl_min lims \<le> rl_max lims"
  shows "\<exists>a' m' buckets'. adjuster_update lims draws a m buckets = Inr (a', m', buckets') \<and> metrics_ok m' \<and>
           1/20 \<le> ad_epsilon a' \<and> ad_epsilon a' \<le> 3/10 \<and> length buckets' = ms_n m \<and>
           (\<forall>i < ms_n m. if ms_health m ! i
              then rl_min lims \<le> ms_rate_limits m' ! i \<and> ms_rate_limits m' ! i \<le> rl_max lims \<and>
                   tb_rate (buckets' ! i) = max 10 (ms_rate_limits m' ! i)
              else ms_rate_limits m' ! i = ms_rate_limits m ! i \<and> buckets' ! i = buckets ! i)"
  using adjuster_update_ok[OF assms, of draws a] by (elim exE conjE) (intro exI conjI; assumption)

theorem adjuster_rates_in_range_witness:
  "\<exists>a' m' buckets'. adjuster_update \<lparr>rl_min = 100, rl_max = 5000\<rparr> [(1/10, 2)] adjuster_init (metrics_init 1 None None)
       [tb_init 1000 0] = Inr (a', m', buckets') \<and> ms_rate_limits m' ! 0 \<le> 5000"
proof -
  have "length [tb_init 1000 0] = ms_n (metrics_init 1 None None)" by simp
  from adjuster_rates_in_range[OF metrics_init_ok this, of "\<lparr>rl_min = 100, rl_max = 5000\<rparr>" "[(1/10, 2)]" adjuster_init]
  obtain a' m' buckets' where "adjuster_update \<lparr>rl_min = 100, rl_max = 5000\<rparr> [(1/10, 2)] adjuster_init (metrics_init 1 None None)
       [tb_init 1000 0] = Inr (a', m', buckets')" "ms_rate_limits m' ! 0 \<le> 5000" by auto
  then show ?thesis by blast
qed

text \<open>
  When it does not explore, the adjuster throttles overloaded backends and opens up idle ones:
  above a load of 0.80 the rate falls by a tenth, up to 0.65 it rises by a tenth, in between it is
  held, always within the configured range.
\<close>

theorem greedy_adjustment:
  assumes "metrics_ok m" and "length buckets = ms_n m" and "i < ms_n m" and "ms_health m ! i"
    and "3/10 \<le> fst (draws ! i)"
  shows "\<exists>a' m' buckets'. adjuster_update lims draws a m buckets = Inr (a', m', buckets') \<and>
           ms_rate_limits m' ! i = np_clip (ms_rate_limits m ! i *
             (if last (ms_load_hist m ! i) > 80/100 then 90/100 else if last (ms_load_hist m ! i) > 65/100 then 1 else 110/100))
             (rl_min lims) (rl_max lims)"
proof -
  have "\<not> fst (draws ! i) < next_epsilon a" using assms(5) next_epsilon_range[of a] by simp
  then have "adjusted lims (next_epsilon a) draws m i = np_clip (ms_rate_limits m ! i *
             (if last (ms_load_hist m ! i) > 80/100 then 90/100 else if last (ms_load_hist m ! i) > 65/100 then 1 else 110/100))
             (rl_min lims) (rl_max lims)"
    using assms(4) by (simp add: adjusted_def choose_action_def q_values_argmax ACTIONS_def)
  moreover obtain a' m' b' where "adjuster_update lims draws a m buckets = Inr (a', m', b')"
    "\<forall>i < ms_n m. ms_rate_limits m' ! i = adjusted lims (next_epsilon a) draws m i \<and>
       b' ! i = (if ms_health m ! i then tb_set_rate (buckets ! i) (adjusted lims (next_epsilon a) draws m i) else buckets ! i)"
    using adjuster_update_spec[OF assms(1,2), of lims draws a] by (elim exE conjE) (rule that; assumption)
  ultimately show ?thesis using assms(3) by (intro exI[of _ a'] exI[of _ m'] exI[of _ b']) simp
qed

theorem greedy_adjustment_witness:
  "\<exists>a' m' buckets'. adjuster_update \<lparr>rl_min = 100, rl_max = 5000\<rparr> [(1/2, 0)] adjuster_init (metrics_init 1 None None)
       [tb_init 1000 0] = Inr (a', m', buckets') \<and> ms_rate_limits m' ! 0 = 1100"
  using greedy_adjustment[OF metrics_init_ok, of "[tb_init 1000 0]" 1 None None 0 "[(1/2, 0)]" "\<lparr>rl_min = 100, rl_max = 5000\<rparr>" adjuster_init]
  by (simp add: np_clip_def) (simp add: metrics_init_def HISTORY_LEN_def)

text \<open>
  The configured initial rate is lost at the first adjustment: the adjuster starts from the
  1000 requests per second that the metrics store assumes, so a healthy backend's bucket ends at
  900 or more whatever rate it was created with (as long as the maximum allows it).
\<close>

theorem initial_rate_lost:
  assumes "draws_ok n draws" and "900 \<le> rl_max lims" and "i < n"
  shows "\<exists>a' m' buckets'. adjuster_update lims draws adjuster_init (metrics_init n names zones)
             (replicate n (tb_init initial_rps now)) = Inr (a', m', buckets') \<and> 900 \<le> tb_rate (buckets' ! i)"
proof -
  let ?m = "metrics_init n names zones"
  have "choose_action e (draws ! i) load < 3" for e load using choose_action_range[OF assms(1,3)] .
  then have "9/10 \<le> ACTIONS ! choose_action e (draws ! i) load" for e load using ACTIONS_range by blast
  then have "900 \<le> adjusted lims e draws ?m i" for e
    using assms(2,3) mult_left_mono[of "9/10" "ACTIONS ! choose_action e (draws ! i) (last (ms_load_hist ?m ! i))" 1000]
    by (simp add: adjusted_def np_clip_def max.coboundedI1)
  moreover obtain a' m' b' where "adjuster_update lims draws adjuster_init ?m (replicate n (tb_init initial_rps now)) = Inr (a', m', b')"
    "\<forall>i < n. b' ! i = tb_set_rate (tb_init initial_rps now) (adjusted lims (next_epsilon adjuster_init) draws ?m i)"
    using adjuster_update_spec[OF metrics_init_ok, of "replicate n (tb_init initial_rps now)" n names zones lims draws adjuster_init]
    by simp (elim exE conjE, rule that, assumption, simp)
  ultimately show ?thesis
    using assms(3) by (intro exI[of _ a'] exI[of _ m'] exI[of _ b']) (simp add: tb_set_rate_def le_max_iff_disj)
qed

theorem initial_rate_lost_witness:
  "\<exists>a' m' buckets'. adjuster_update \<lparr>rl_min = 100, rl_max = 5000\<rparr> [(1/2, 0)] adjuster_init (metrics_init 1 None None)
       (replicate 1 (tb_init 200 0)) = Inr (a', m', buckets') \<and> 900 \<le> tb_rate (buckets' ! 0)"
  by (rule initial_rate_lost) (simp_all add: draws_ok_def)

end
