(* ===== verification/Ip_Address.thy ===== *)
theory Ip_Address
  imports Omega_Prelude
begin

text \<open>
  What \<open>demo/proxy.py\<close> uses of Python's \<open>ipaddress\<close>: parsing addresses and networks (with
  \<open>strict=False\<close>) in both families, and membership. A failed parse, which Python reports with
  \<open>ValueError\<close>, is \<open>None\<close>. Scope ids of IPv6 addresses are not accepted.
\<close>

section \<open>Strings\<close>

fun split_on :: "char \<Rightarrow> string \<Rightarrow> string list" where
  "split_on c [] = [[]]"
| "split_on c (x # xs) = (if x = c then [] # split_on c xs
     else case split_on c xs of [] \<Rightarrow> [[x]] | p # ps \<Rightarrow> (x # p) # ps)"

definition is_space :: "char \<Rightarrow> bool" where
  \<comment> \<open>the whitespace of \<open>str.strip\<close> within ASCII\<close>
  "is_space c \<longleftrightarrow> (let n = of_char c :: nat in (9 \<le> n \<and> n \<le> 13) \<or> (28 \<le> n \<and> n \<le> 32))"

definition strip :: "string \<Rightarrow> string" where
  "strip s = rev (dropWhile is_space (rev (dropWhile is_space s)))"

definition digit_val :: "char \<Rightarrow> nat option" where
  "digit_val c = (let n = of_char c :: nat in if 48 \<le> n \<and> n \<le> 57 then Some (n - 48) else None)"

definition hex_val :: "char \<Rightarrow> nat option" where
  "hex_val c = (let n = of_char c :: nat in
     if 48 \<le> n \<and> n \<le> 57 then Some (n - 48)
     else if 97 \<le> n \<and> n \<le> 102 then Some (n - 87)
     else if 65 \<le> n \<and> n \<le> 70 then Some (n - 55) else None)"

fun radix_val :: "(char \<Rightarrow> nat option) \<Rightarrow> nat \<Rightarrow> nat \<Rightarrow> string \<Rightarrow> nat option" where
  \<comment> \<open>the value of a numeral in base \<open>b\<close>, with accumulator\<close>
  "radix_val dv b acc [] = Some acc"
| "radix_val dv b acc (c # cs) = (case dv c of None \<Rightarrow> None | Some d \<Rightarrow> radix_val dv b (acc * b + d) cs)"

section \<open>Addresses\<close>

definition parse_octet :: "string \<Rightarrow> nat option" where
  \<comment> \<open>one to three decimal digits, no leading zero, at most 255\<close>
  "parse_octet s =
     (if s = [] \<or> 3 < length s \<or> (1 < length s \<and> hd s = CHR ''0'') then None
      else case radix_val digit_val 10 0 s of None \<Rightarrow> None | Some v \<Rightarrow> if v \<le> 255 then Some v else None)"

fun all_some :: "'a option list \<Rightarrow> 'a list option" where
  "all_some [] = Some []"
| "all_some (x # xs) = (case x of None \<Rightarrow> None | Some a \<Rightarrow> map_option (\<lambda>as. a # as) (all_some xs))"

definition parse_ipv4 :: "string \<Rightarrow> nat option" where
  "parse_ipv4 s =
     (let octets = split_on CHR ''.'' s
      in if length octets \<noteq> 4 then None
         else map_option (foldl (\<lambda>acc v. acc * 256 + v) 0) (all_some (map parse_octet octets)))"

definition parse_hextet :: "string \<Rightarrow> nat option" where
  "parse_hextet s = (if s = [] \<or> 4 < length s then None else radix_val hex_val 16 0 s)"

definition hextets_val :: "nat option list \<Rightarrow> nat option" where
  "hextets_val hs = map_option (foldl (\<lambda>acc v. acc * 65536 + v) 0) (all_some hs)"

definition ipv6_parts :: "string \<Rightarrow> nat option list option" where
  \<comment> \<open>the colon-separated parts; an empty part is \<open>None\<close>; a trailing dotted quad becomes two parts\<close>
  "ipv6_parts s =
     (let parts = split_on CHR '':'' s;
          groups = map (\<lambda>p. if p = [] then Some None else map_option Some (parse_hextet p))
      in if length parts < 3 then None
         else if CHR ''.'' \<in> set (last parts)
         then case parse_ipv4 (last parts) of
                None \<Rightarrow> None
              | Some v \<Rightarrow> map_option (\<lambda>gs. gs @ [Some (v div 65536), Some (v mod 65536)])
                            (all_some (groups (butlast parts)))
         else all_some (groups parts))"

definition parse_ipv6 :: "string \<Rightarrow> nat option" where
  "parse_ipv6 s =
     (case ipv6_parts s of
        None \<Rightarrow> None
      | Some parts \<Rightarrow>
          let n = length parts;
              skips = filter (\<lambda>i. parts ! i = None) [1..<n - 1]
          in if 9 < n then None
             else case skips of
               [] \<Rightarrow> if n = 8 then hextets_val parts else None
             | [k] \<Rightarrow>
                 let hi = take k parts; lo = drop (k + 1) parts;
                     hi = (if hd parts = None then tl hi else hi);
                     lo = (if last parts = None then butlast lo else lo)
                 in if (hd parts = None \<and> hi \<noteq> []) \<or> (last parts = None \<and> lo \<noteq> []) \<or> 8 \<le> length hi + length lo
                    then None
                    else hextets_val (hi @ replicate (8 - (length hi + length lo)) (Some 0) @ lo)
             | _ \<Rightarrow> None)"

datatype ip_addr = IPv4 nat | IPv6 nat

fun ip_width :: "ip_addr \<Rightarrow> nat" where
  "ip_width (IPv4 _) = 32"
| "ip_width (IPv6 _) = 128"

fun ip_value :: "ip_addr \<Rightarrow> nat" where
  "ip_value (IPv4 v) = v"
| "ip_value (IPv6 v) = v"

definition ip_address :: "string \<Rightarrow> ip_addr option" where
  "ip_address s = (case parse_ipv4 s of Some v \<Rightarrow> Some (IPv4 v) | None \<Rightarrow> map_option IPv6 (parse_ipv6 s))"

section \<open>Networks\<close>

datatype ip_net = Net (net_width: nat) (net_base: nat) (net_plen: nat)

definition net_of :: "nat \<Rightarrow> nat \<Rightarrow> nat \<Rightarrow> ip_net" where
  \<comment> \<open>host bits are cleared (\<open>strict=False\<close>)\<close>
  "net_of w v p = Net w (v div 2 ^ (w - p) * 2 ^ (w - p)) p"

definition parse_plen :: "nat \<Rightarrow> string \<Rightarrow> nat option" where
  "parse_plen w s = (if s = [] then None else case radix_val digit_val 10 0 s of
      None \<Rightarrow> None | Some p \<Rightarrow> if p \<le> w then Some p else None)"

definition parse_mask4 :: "string \<Rightarrow> nat option" where
  \<comment> \<open>a prefix length, a netmask or a host mask\<close>
  "parse_mask4 s =
     (case parse_plen 32 s of
        Some p \<Rightarrow> Some p
      | None \<Rightarrow> (case parse_ipv4 s of
          None \<Rightarrow> None
        | Some m \<Rightarrow> (case List.find (\<lambda>p. m = (2 ^ p - 1) * 2 ^ (32 - p)) [0..<33] of
            Some p \<Rightarrow> Some p
          | None \<Rightarrow> List.find (\<lambda>p. m = 2 ^ (32 - p) - 1) [0..<33])))"

definition ip_network :: "string \<Rightarrow> ip_net option" where
  "ip_network s =
     (case split_on CHR ''/'' s of
        [a] \<Rightarrow> (case ip_address a of None \<Rightarrow> None | Some x \<Rightarrow> Some (net_of (ip_width x) (ip_value x) (ip_width x)))
      | [a, m] \<Rightarrow> (case (parse_ipv4 a, parse_mask4 m) of
            (Some v, Some p) \<Rightarrow> Some (net_of 32 v p)
          | _ \<Rightarrow> (case (parse_ipv6 a, parse_plen 128 m) of
              (Some v, Some p) \<Rightarrow> Some (net_of 128 v p)
            | _ \<Rightarrow> None))
      | _ \<Rightarrow> None)"

definition ip_in :: "ip_addr \<Rightarrow> ip_net \<Rightarrow> bool" where
  "ip_in a n \<longleftrightarrow> ip_width a = net_width n \<and>
     ip_value a div 2 ^ (net_width n - net_plen n) * 2 ^ (net_width n - net_plen n) = net_base n"

lemma ip_in_net_of:
  "ip_in a (net_of w v p) \<longleftrightarrow> ip_width a = w \<and> ip_value a div 2 ^ (w - p) = v div 2 ^ (w - p)"
  by (simp add: ip_in_def net_of_def)

lemmas ip_evals = ip_network_def ip_address_def net_of_def parse_mask4_def parse_plen_def parse_ipv4_def
  parse_octet_def parse_ipv6_def ipv6_parts_def parse_hextet_def hextets_val_def digit_val_def hex_val_def

lemma loopback4_parts: "parse_ipv4 ''127.0.0.1'' = Some 2130706433" "parse_mask4 ''32'' = Some 32"
  by (simp add: parse_ipv4_def parse_octet_def digit_val_def) (simp add: parse_mask4_def parse_plen_def digit_val_def)

lemma loopback4_parses: "ip_network ''127.0.0.1/32'' = Some (Net 32 2130706433 32)"
  by (simp add: ip_network_def loopback4_parts net_of_def)

lemma loopback6_parts: "ipv6_parts ''::1'' = Some [None, None, Some 1]"
  by (simp add: ipv6_parts_def parse_hextet_def hex_val_def Let_def)

lemma replicate_7: "replicate 7 x = [x, x, x, x, x, x, x]"
  by (simp add: numeral_eq_Suc)

lemma loopback6_value: "parse_ipv6 ''::1'' = Some 1"
  by (simp add: parse_ipv6_def loopback6_parts Let_def hextets_val_def upt_conv_Cons replicate_7)

lemma loopback6_parses: "ip_network ''::1/128'' = Some (Net 128 1 128)"
  by (simp add: ip_network_def loopback6_value parse_ipv4_def parse_plen_def digit_val_def net_of_def)

end
