(* ===== verification/Admin_Guard.thy ===== *)
theory Admin_Guard
  imports Ip_Address
begin

text \<open>
  The guards of the admin endpoint of \<open>demo/proxy.py\<close>: the IP allowlist, the fixed-window
  limiter and the token. Only loopback addresses are allowed by default; the limiter counts the
  calls of each address in windows of one minute.
\<close>

section \<open>Allowlist\<close>

definition DEFAULT_ALLOWLIST :: "string list" where
  "DEFAULT_ALLOWLIST = [''127.0.0.1/32'', ''::1/128'']"

definition admin_allowlist :: "string option \<Rightarrow> string list option \<Rightarrow> string list" where
  \<comment> \<open>from the environment variable if it is set and not empty, else from the configuration\<close>
  "admin_allowlist env cfg =
     (case env of
        Some raw \<Rightarrow> if raw \<noteq> [] then filter (\<lambda>p. p \<noteq> []) (map strip (split_on CHR '','' raw))
                    else (case cfg of None \<Rightarrow> DEFAULT_ALLOWLIST | Some l \<Rightarrow> l)
      | None \<Rightarrow> (case cfg of None \<Rightarrow> DEFAULT_ALLOWLIST | Some l \<Rightarrow> l))"

definition parse_admin_networks :: "string list \<Rightarrow> ip_net list" where
  \<comment> \<open>invalid entries are reported and ignored\<close>
  "parse_admin_networks raw_list = List.map_filter ip_network raw_list"

record peer_info =
  pi_remote :: "string option"
  pi_peername :: "string option" \<comment> \<open>the host of the transport's peer, when it is a non-empty tuple\<close>

definition client_ip :: "peer_info \<Rightarrow> string option" where
  "client_ip p =
     (case pi_remote p of
        Some ip \<Rightarrow> if ip \<noteq> [] then Some ip else (case pi_peername p of None \<Rightarrow> Some [] | Some h \<Rightarrow> Some h)
      | None \<Rightarrow> pi_peername p)"

definition is_ip_allowed :: "ip_net list \<Rightarrow> string option \<Rightarrow> bool" where
  "is_ip_allowed nets ip_txt =
     (if nets = [] then True
      else case ip_txt of
        None \<Rightarrow> False
      | Some s \<Rightarrow> if s = [] then False
                  else case ip_address s of None \<Rightarrow> False | Some a \<Rightarrow> \<exists>n \<in> set nets. ip_in a n)"

section \<open>Rate limiter\<close>

record admin_limiter =
  lm_limit :: int
  lm_state :: "string \<Rightarrow> (int \<times> int) option" \<comment> \<open>window start and count per address\<close>

definition limiter_init :: "int \<Rightarrow> admin_limiter" where
  "limiter_init limit_per_min = \<lparr>lm_limit = max 1 limit_per_min, lm_state = (\<lambda>ip. None)\<rparr>"

definition window_start :: "int \<Rightarrow> int" where
  "window_start now = now - now mod 60"

definition limiter_allow :: "admin_limiter \<Rightarrow> string \<Rightarrow> int \<Rightarrow> admin_limiter \<times> bool \<times> int" where
  "limiter_allow l ip now =
     (let w = window_start now;
          fresh = (l\<lparr>lm_state := (lm_state l)(ip := Some (w, 1))\<rparr>, True, lm_limit l - 1)
      in case lm_state l ip of
           None \<Rightarrow> fresh
         | Some (start, count) \<Rightarrow>
             if start \<noteq> w then fresh
             else if count \<ge> lm_limit l then (l, False, 0)
             else (l\<lparr>lm_state := (lm_state l)(ip := Some (w, count + 1))\<rparr>, True, lm_limit l - (count + 1)))"

section \<open>Token\<close>

definition lower_char :: "char \<Rightarrow> char" where
  "lower_char c = (let n = of_char c :: nat in if 65 \<le> n \<and> n \<le> 90 then char_of (n + 32) else c)"

definition starts_with :: "string \<Rightarrow> string \<Rightarrow> bool" where
  "starts_with s p \<longleftrightarrow> take (length p) s = p"

definition token_ok :: "string option \<Rightarrow> string \<Rightarrow> string \<Rightarrow> bool" where
  \<comment> \<open>the configured token, and the two headers with their default of the empty string;
      an empty configured token switches the check off\<close>
  "token_ok admin_token header auth =
     (case admin_token of
        None \<Rightarrow> True
      | Some t \<Rightarrow> if t = [] then True
          else let token = (if starts_with (map lower_char auth) ''bearer '' then strip (drop 7 auth) else header)
               in token = t)"

section \<open>Counting the limiter's grants\<close>

definition hits :: "string \<Rightarrow> int \<Rightarrow> (string \<times> int) list \<Rightarrow> nat" where
  \<comment> \<open>the calls of one address in one window\<close>
  "hits ip w calls = length (filter (\<lambda>(a, t). a = ip \<and> window_start t = w) calls)"

definition count_grants :: "string \<Rightarrow> int \<Rightarrow> admin_limiter \<times> nat \<Rightarrow> string \<times> int \<Rightarrow> admin_limiter \<times> nat" where
  \<comment> \<open>one call of the limiter, counting the grants to one address in one window\<close>
  "count_grants ip w acc call =
     (case call of (a, t) \<Rightarrow> case limiter_allow (fst acc) a t of (l', ok, _) \<Rightarrow>
        (l', if ok \<and> a = ip \<and> window_start t = w then snd acc + 1 else snd acc))"

lemma window_start_mono: "s \<le> t \<Longrightarrow> window_start s \<le> window_start t"
proof -
  assume "s \<le> t"
  then have "s div 60 \<le> t div 60" by (rule zdiv_mono1) simp
  moreover have "window_start u = 60 * (u div 60)" for u by (simp add: window_start_def minus_mod_eq_mult_div)
  ultimately show ?thesis by simp
qed

definition limiter_inv :: "int \<Rightarrow> (string \<times> int) list \<Rightarrow> string \<Rightarrow> int \<Rightarrow> admin_limiter \<times> nat \<Rightarrow> bool" where
  "limiter_inv limit calls ip w acc \<longleftrightarrow>
     lm_limit (fst acc) = limit \<and> int (snd acc) = min limit (int (hits ip w calls)) \<and>
     (case lm_state (fst acc) ip of
        None \<Rightarrow> (\<forall>t. (ip, t) \<notin> set calls)
      | Some (start, count) \<Rightarrow> count = min limit (int (hits ip start calls)) \<and>
          (\<forall>t. (ip, t) \<in> set calls \<longrightarrow> window_start t \<le> start) \<and> (\<exists>t. (ip, t) \<in> set calls \<and> window_start t = start))"

lemma hits_snoc: "hits ip w (calls @ [(a, t)]) = hits ip w calls + (if a = ip \<and> window_start t = w then 1 else 0)"
  by (simp add: hits_def)

lemma hits_0: "(\<forall>t. (ip, t) \<in> set calls \<longrightarrow> window_start t \<noteq> w) \<Longrightarrow> hits ip w calls = 0"
  by (auto simp: hits_def filter_empty_conv)

lemma limiter_inv_other:
  assumes "limiter_inv limit calls ip w acc" and "a \<noteq> ip"
  shows "limiter_inv limit (calls @ [(a, t)]) ip w (count_grants ip w acc (a, t))"
proof -
  have "lm_state (fst (count_grants ip w acc (a, t))) ip = lm_state (fst acc) ip \<and>
      lm_limit (fst (count_grants ip w acc (a, t))) = lm_limit (fst acc) \<and> snd (count_grants ip w acc (a, t)) = snd acc"
    using assms(2) by (auto simp: count_grants_def limiter_allow_def Let_def split: option.splits prod.splits if_splits)
  then show ?thesis
    using assms by (auto simp: limiter_inv_def hits_snoc split: option.splits)
qed

lemma limiter_inv_fresh:
  \<comment> \<open>the first call of an address in a window\<close>
  assumes "limiter_inv limit calls ip w acc" and "1 \<le> limit"
    and below: "\<And>s. (ip, s) \<in> set calls \<Longrightarrow> window_start s \<le> window_start t"
    and none: "\<forall>s. (ip, s) \<in> set calls \<longrightarrow> window_start s \<noteq> window_start t"
    and st: "limiter_allow (fst acc) ip t =
      ((fst acc)\<lparr>lm_state := (lm_state (fst acc))(ip := Some (window_start t, 1))\<rparr>, True, lm_limit (fst acc) - 1)"
  shows "limiter_inv limit (calls @ [(ip, t)]) ip w (count_grants ip w acc (ip, t))"
proof -
  have h: "hits ip (window_start t) calls = 0" using none by (rule hits_0)
  have "count_grants ip w acc (ip, t) = ((fst acc)\<lparr>lm_state := (lm_state (fst acc))(ip := Some (window_start t, 1))\<rparr>,
      if window_start t = w then snd acc + 1 else snd acc)"
    using st by (simp add: count_grants_def)
  moreover have "lm_limit (fst acc) = limit" "int (snd acc) = min limit (int (hits ip w calls))"
    using assms(1) by (simp_all add: limiter_inv_def)
  ultimately show ?thesis
    using h assms(2) below by (auto simp: limiter_inv_def hits_snoc)
qed

lemma limiter_inv_again:
  \<comment> \<open>a further call of an address in its window\<close>
  assumes inv: "limiter_inv limit calls ip w acc"
    and below: "\<And>s. (ip, s) \<in> set calls \<Longrightarrow> window_start s \<le> window_start t"
    and st: "lm_state (fst acc) ip = Some (window_start t, count)"
  shows "limiter_inv limit (calls @ [(ip, t)]) ip w (count_grants ip w acc (ip, t))"
proof -
  let ?W = "window_start t"
  have lim: "lm_limit (fst acc) = limit" "int (snd acc) = min limit (int (hits ip w calls))"
    and s: "count = min limit (int (hits ip ?W calls))" "\<exists>s. (ip, s) \<in> set calls \<and> window_start s = ?W"
    using inv st by (simp_all add: limiter_inv_def)
  show ?thesis
  proof (cases "limit \<le> count")
    case True
    then have "count_grants ip w acc (ip, t) = acc"
      using st lim(1) by (simp add: count_grants_def limiter_allow_def prod_eq_iff)
    then show ?thesis
      using inv True s st lim below by (auto simp: limiter_inv_def hits_snoc)
  next
    case False
    then have "count_grants ip w acc (ip, t) =
        ((fst acc)\<lparr>lm_state := (lm_state (fst acc))(ip := Some (?W, count + 1))\<rparr>, if ?W = w then snd acc + 1 else snd acc)"
      using st lim(1) by (simp add: count_grants_def limiter_allow_def Let_def)
    then show ?thesis
      using lim s below False by (auto simp: limiter_inv_def hits_snoc min_def)
  qed
qed

lemma limiter_inv_step:
  assumes inv: "limiter_inv limit calls ip w acc" and "1 \<le> limit"
    and later: "\<forall>(b, s) \<in> set calls. s \<le> t"
  shows "limiter_inv limit (calls @ [(a, t)]) ip w (count_grants ip w acc (a, t))"
proof (cases "a = ip")
  case False
  then show ?thesis using limiter_inv_other[OF inv] by simp
next
  case True
  have below: "window_start s \<le> window_start t" if "(ip, s) \<in> set calls" for s
    using later that by (intro window_start_mono) auto
  show ?thesis
  proof (cases "lm_state (fst acc) ip")
    case None
    then show ?thesis unfolding True using inv
      by (intro limiter_inv_fresh[OF inv assms(2) below]) (auto simp: limiter_inv_def limiter_allow_def Let_def)
  next
    case (Some sc)
    obtain start count where sc: "sc = (start, count)" by (cases sc)
    have s: "\<And>s. (ip, s) \<in> set calls \<Longrightarrow> window_start s \<le> start" "\<exists>s. (ip, s) \<in> set calls \<and> window_start s = start"
      using inv Some sc by (simp_all add: limiter_inv_def)
    show ?thesis
    proof (cases "start = window_start t")
      case False
      then have "start < window_start t" using s(2) below by force
      then show ?thesis unfolding True using Some sc False
        by (intro limiter_inv_fresh[OF inv assms(2) below]) (auto simp: limiter_allow_def Let_def dest: s(1))
    next
      case same: True
      then show ?thesis unfolding True using limiter_inv_again[OF inv below] Some sc by simp
    qed
  qed
qed

lemma limiter_inv_run:
  assumes "1 \<le> limit" and "sorted (map snd calls)"
  shows "limiter_inv limit calls ip w (foldl (count_grants ip w) (limiter_init limit, 0) calls)"
  using assms(2)
proof (induction calls rule: rev_induct)
  case Nil
  then show ?case using assms(1) by (simp add: limiter_inv_def limiter_init_def hits_def)
next
  case (snoc call calls)
  obtain a t where call: "call = (a, t)" by (cases call)
  have "\<forall>(b, s) \<in> set calls. s \<le> t" and "sorted (map snd calls)"
    using snoc.prems call by (auto simp: sorted_append)
  then show ?case using limiter_inv_step[OF snoc.IH assms(1)] call by simp
qed

section \<open>Properties\<close>

text \<open>
  C21. The limiter is exact: on calls in the order of the clock, the number of calls of an address
  admitted in a one-minute window is the number made, capped at the limit; calls of other
  addresses make no difference.
\<close>

theorem limiter_exact:
  assumes "sorted (map snd calls)" and "1 \<le> limit"
  shows "int (snd (foldl (count_grants ip w) (limiter_init limit, 0) calls)) = min limit (int (hits ip w calls))"
  using limiter_inv_run[OF assms(2,1)] by (simp add: limiter_inv_def)

theorem limiter_exact_witness:
  "snd (foldl (count_grants ''a'' 60) (limiter_init 2, 0) [(''a'', 61), (''b'', 62), (''a'', 70), (''a'', 119), (''a'', 120)]) = 2"
  using limiter_exact[of "[(''a'', 61), (''b'', 62), (''a'', 70), (''a'', 119), (''a'', 120)]" 2 "''a''" 60]
  by (simp add: hits_def window_start_def)

text \<open>
  By default the admin endpoint is reachable from the two loopback addresses and from no other,
  in any spelling of the address.
\<close>

theorem default_allowlist_loopback:
  "is_ip_allowed (parse_admin_networks (admin_allowlist None None)) ip_txt \<longleftrightarrow>
   (\<exists>s. ip_txt = Some s \<and> s \<noteq> [] \<and> ip_address s \<in> {Some (IPv4 2130706433), Some (IPv6 1)})"
proof -
  have nets: "parse_admin_networks (admin_allowlist None None) = [Net 32 2130706433 32, Net 128 1 128]"
    by (simp add: parse_admin_networks_def admin_allowlist_def DEFAULT_ALLOWLIST_def List.map_filter_def
        loopback4_parses loopback6_parses)
  have "ip_in a (Net 32 2130706433 32) \<or> ip_in a (Net 128 1 128) \<longleftrightarrow> a = IPv4 2130706433 \<or> a = IPv6 1" for a
    by (cases a) (simp_all add: ip_in_def)
  then show ?thesis
    unfolding nets by (auto simp: is_ip_allowed_def split: option.splits)
qed

text \<open>
  A misconfigured allowlist fails open: when every entry is invalid, for instance a host name,
  the list of networks is empty and every client is allowed, even one whose address is unknown.
\<close>

theorem invalid_allowlist_fails_open:
  assumes "\<forall>entry \<in> set raw. ip_network entry = None"
  shows "is_ip_allowed (parse_admin_networks raw) ip_txt"
proof -
  have "parse_admin_networks raw = []"
    using assms by (induction raw) (simp_all add: parse_admin_networks_def List.map_filter_def)
  then show ?thesis by (simp add: is_ip_allowed_def)
qed

theorem invalid_allowlist_fails_open_witness:
  "is_ip_allowed (parse_admin_networks (admin_allowlist (Some '' localhost ,'') None)) (Some ''203.0.113.9'')"
proof -
  have "ip_network ''localhost'' = None"
    by (simp add: ip_network_def ip_address_def parse_ipv4_def parse_ipv6_def ipv6_parts_def)
  moreover have "admin_allowlist (Some '' localhost ,'') None = [''localhost'']"
    by (simp add: admin_allowlist_def strip_def is_space_def)
  ultimately show ?thesis using invalid_allowlist_fails_open[of "[''localhost'']"] by simp
qed

end
