(* ===== verification/Py_Value.thy ===== *)
theory Py_Value
  imports Ip_Address
begin

text \<open>
  Values of parsed JSON and YAML documents, and the conversions the sources apply to them. A dict
  is an association list in insertion order with string keys. Numbers are exact: a float is a
  real.
\<close>

datatype py_val =
    PNone
  | PBool bool
  | PInt int
  | PFloat real
  | PStr string
  | PList "py_val list"
  | PDict "(string \<times> py_val) list"

fun truthy :: "py_val \<Rightarrow> bool" where
  "truthy PNone = False"
| "truthy (PBool b) = b"
| "truthy (PInt k) = (k \<noteq> 0)"
| "truthy (PFloat x) = (x \<noteq> 0)"
| "truthy (PStr s) = (s \<noteq> [])"
| "truthy (PList vs) = (vs \<noteq> [])"
| "truthy (PDict kvs) = (kvs \<noteq> [])"

fun is_infix :: "string \<Rightarrow> string \<Rightarrow> bool" where
  \<comment> \<open>substring test\<close>
  "is_infix p [] = (p = [])"
| "is_infix p (c # cs) = (take (length p) (c # cs) = p \<or> is_infix p cs)"

fun py_contains :: "py_val \<Rightarrow> string \<Rightarrow> py_err + bool" where
  \<comment> \<open>\<open>key in data\<close>\<close>
  "py_contains (PDict kvs) key = Inr (key \<in> set (map fst kvs))"
| "py_contains (PList vs) key = Inr (PStr key \<in> set vs)"
| "py_contains (PStr s) key = Inr (is_infix key s)"
| "py_contains _ key = Inl TypeError"

fun py_item :: "py_val \<Rightarrow> string \<Rightarrow> py_err + py_val" where
  \<comment> \<open>\<open>data[key]\<close>\<close>
  "py_item (PDict kvs) key = (case map_of kvs key of None \<Rightarrow> Inl KeyError | Some v \<Rightarrow> Inr v)"
| "py_item _ key = Inl TypeError"

fun py_dot_get :: "py_val \<Rightarrow> string \<Rightarrow> py_val \<Rightarrow> py_err + py_val" where
  \<comment> \<open>\<open>v.get(key, default)\<close>\<close>
  "py_dot_get (PDict kvs) key d = Inr (case map_of kvs key of None \<Rightarrow> d | Some v \<Rightarrow> v)"
| "py_dot_get _ key d = Inl AttributeError"

fun dict_put :: "(string \<times> 'v) list \<Rightarrow> string \<Rightarrow> 'v \<Rightarrow> (string \<times> 'v) list" where
  \<comment> \<open>\<open>d[key] = v\<close>, keeping the position of an existing key\<close>
  "dict_put [] key v = [(key, v)]"
| "dict_put ((k, u) # kvs) key v = (if k = key then (k, v) # kvs else (k, u) # dict_put kvs key v)"

definition dict_update :: "(string \<times> 'v) list \<Rightarrow> (string \<times> 'v) list \<Rightarrow> (string \<times> 'v) list" where
  "dict_update kvs new = foldl (\<lambda>d (k, v). dict_put d k v) kvs new"

lemma map_of_dict_put: "map_of (dict_put kvs k v) = (map_of kvs)(k \<mapsto> v)"
  by (induction kvs k v rule: dict_put.induct) auto

lemma fst_dict_put: "set (map fst (dict_put kvs k v)) = insert k (set (map fst kvs))"
  by (induction kvs k v rule: dict_put.induct) auto

lemma map_of_dict_update:
  "map_of (dict_update kvs new) key = (case map_of (rev new) key of Some v \<Rightarrow> Some v | None \<Rightarrow> map_of kvs key)"
proof (induction new arbitrary: kvs)
  case (Cons kv new)
  then show ?case by (cases kv) (auto simp: dict_update_def map_of_dict_put map_add_def split: option.splits)
qed (simp add: dict_update_def)

datatype save_outcome = Writes | Open_fails | Write_fails \<comment> \<open>of overwriting a file in place\<close>

section \<open>Conversions\<close>

fun digits_us :: "bool \<Rightarrow> nat \<Rightarrow> string \<Rightarrow> nat option" where
  \<comment> \<open>decimal digits with single underscores between them; the flag says whether an underscore
      may come next\<close>
  "digits_us us acc [] = (if us then Some acc else None)"
| "digits_us us acc (c # cs) =
     (case digit_val c of
        Some d \<Rightarrow> digits_us True (acc * 10 + d) cs
      | None \<Rightarrow> if c = CHR ''_'' \<and> us then digits_us False acc cs else None)"

definition parse_int :: "string \<Rightarrow> py_err + int" where
  "parse_int s =
     (let s = strip s;
          neg = (s \<noteq> [] \<and> hd s = CHR ''-'');
          body = (if s \<noteq> [] \<and> (hd s = CHR ''-'' \<or> hd s = CHR ''+'') then tl s else s)
      in case digits_us False 0 body of
           None \<Rightarrow> Inl ValueError
         | Some v \<Rightarrow> Inr (if neg then - int v else int v))"

fun to_int :: "py_val \<Rightarrow> py_err + int" where
  \<comment> \<open>\<open>int(v)\<close>\<close>
  "to_int (PBool b) = Inr (if b then 1 else 0)"
| "to_int (PInt k) = Inr k"
| "to_int (PFloat x) = Inr (py_int x)"
| "to_int (PStr s) = parse_int s"
| "to_int _ = Inl TypeError"

definition strip_sign :: "string \<Rightarrow> bool \<times> string" where
  \<comment> \<open>whether a numeral starts with a minus, and what follows its sign\<close>
  "strip_sign s =
     (s \<noteq> [] \<and> hd s = CHR ''-'',
      if s \<noteq> [] \<and> (hd s = CHR ''-'' \<or> hd s = CHR ''+'') then tl s else s)"

definition digit_part :: "string \<Rightarrow> nat option" where
  "digit_part s = (if s = [] then Some 0 else digits_us False 0 s)"

definition parse_float :: "string \<Rightarrow> py_err + real" where
  \<comment> \<open>decimal literals; the spellings of infinity and NaN have no real value and are not modelled\<close>
  "parse_float s =
     (case strip_sign (strip s) of (neg, body) \<Rightarrow>
        let mant = takeWhile (\<lambda>c. c \<noteq> CHR ''e'' \<and> c \<noteq> CHR ''E'') body;
            ex = drop (length mant) body;
            whole = takeWhile (\<lambda>c. c \<noteq> CHR ''.'') mant;
            frac = tl (drop (length whole) mant);
            scale = length (filter (\<lambda>c. c \<noteq> CHR ''_'') frac)
        in case (digit_part whole, digit_part frac) of
             (Some w, Some f) \<Rightarrow>
               if whole = [] \<and> frac = [] then Inl ValueError
               else let v = real w + real f / 10 ^ scale;
                        v = (if neg then - v else v)
                    in if ex = [] then Inr v
                       else (case strip_sign (tl ex) of (eneg, digits) \<Rightarrow>
                               (case digits_us False 0 digits of
                                  None \<Rightarrow> Inl ValueError
                                | Some e \<Rightarrow> Inr (if eneg then v / 10 ^ e else v * 10 ^ e)))
           | _ \<Rightarrow> Inl ValueError)"

fun to_float :: "py_val \<Rightarrow> py_err + real" where
  \<comment> \<open>\<open>float(v)\<close>\<close>
  "to_float (PBool b) = Inr (if b then 1 else 0)"
| "to_float (PInt k) = Inr (real_of_int k)"
| "to_float (PFloat x) = Inr x"
| "to_float (PStr s) = parse_float s"
| "to_float _ = Inl TypeError"

section \<open>Numerals and whitespace\<close>

definition isdigit :: "string \<Rightarrow> bool" where
  \<comment> \<open>\<open>s.isdigit()\<close> within ASCII\<close>
  "isdigit s \<longleftrightarrow> s \<noteq> [] \<and> (\<forall>c \<in> set s. digit_val c \<noteq> None)"

lemma digit_val_dec_digit: "d < 10 \<Longrightarrow> digit_val (dec_digit d) = Some d"
  by (simp add: digit_val_def Let_def)

lemma digits_us_nat_str:
  "digits_us us acc (nat_str n @ cs) = digits_us True (acc * 10 ^ length (nat_str n) + n) cs"
proof (induction n arbitrary: us acc cs rule: nat_str.induct)
  case (1 n)
  show ?case
  proof (cases "n < 10")
    case True
    then show ?thesis by (simp add: nat_str.simps[of n] digit_val_dec_digit del: dec_digit.simps)
  next
    case False
    have "acc * 10 ^ length (nat_str (n div 10)) * 10 + n div 10 * 10 + n mod 10 =
        acc * (10 * 10 ^ length (nat_str (n div 10))) + n"
      by (simp add: algebra_simps)
    then show ?thesis using False 1
      by (simp add: nat_str.simps[of n] digit_val_dec_digit algebra_simps del: dec_digit.simps)
  qed
qed

lemma isdigit_nat_str: "isdigit (nat_str n)"
proof (induction n rule: nat_str.induct)
  case (1 n)
  then show ?case
    by (cases "n < 10") (simp_all add: nat_str.simps[of n] isdigit_def digit_val_dec_digit del: dec_digit.simps)
qed

lemma digit_not_space: "digit_val c = Some d \<Longrightarrow> \<not> is_space c \<and> c \<noteq> CHR ''-'' \<and> c \<noteq> CHR ''+''"
  by (auto simp: digit_val_def is_space_def Let_def split: if_splits)

lemma strip_no_space: "\<forall>c \<in> set s. \<not> is_space c \<Longrightarrow> strip s = s"
proof -
  have dw: "dropWhile is_space t = t" if "\<forall>c \<in> set t. \<not> is_space c" for t
    using that by (cases t) simp_all
  show "\<forall>c \<in> set s. \<not> is_space c \<Longrightarrow> strip s = s" by (simp add: strip_def dw)
qed

lemma strip_isdigit: "isdigit s \<Longrightarrow> strip s = s"
  using digit_not_space by (intro strip_no_space) (auto simp: isdigit_def)

lemma parse_int_nat_str: "parse_int (nat_str n) = Inr (int n)"
proof -
  obtain c cs where s: "nat_str n = c # cs" using isdigit_nat_str[of n] by (cases "nat_str n") (auto simp: isdigit_def)
  then obtain d where "digit_val c = Some d" using isdigit_nat_str[of n] by (auto simp: isdigit_def)
  then have "c \<noteq> CHR ''-''" "c \<noteq> CHR ''+''" using digit_not_space by auto
  then show ?thesis
    using digits_us_nat_str[of False 0 n "[]"] strip_isdigit[OF isdigit_nat_str[of n]] s
    by (simp add: parse_int_def Let_def)
qed

lemma strip_strip [simp]: "strip (strip s) = strip s"
proof -
  have dw: "t = [] \<or> \<not> is_space (hd t) \<Longrightarrow> dropWhile is_space t = t" for t
    by (cases t) simp_all
  have ends: "t = [] \<or> (\<not> is_space (hd t) \<and> \<not> is_space (last t)) \<Longrightarrow> strip t = t" for t
    using dw[of t] dw[of "rev t"] by (auto simp: strip_def hd_rev)
  define u where "u = dropWhile is_space s"
  define v where "v = dropWhile is_space (rev u)"
  have "strip s = rev v" by (simp add: strip_def u_def v_def)
  moreover have "v = [] \<or> (\<not> is_space (hd v) \<and> \<not> is_space (last v))"
  proof (cases "v = []")
    case False
    then have "\<not> is_space (hd v)" unfolding v_def by (rule hd_dropWhile)
    moreover have "last v = hd u"
      using False takeWhile_dropWhile_id[of is_space "rev u"] by (metis v_def last_appendR last_rev)
    moreover have "u \<noteq> []" using False by (auto simp: v_def)
    then have "\<not> is_space (hd u)" unfolding u_def by (rule hd_dropWhile)
    ultimately show ?thesis by simp
  qed simp
  ultimately show ?thesis using ends[of "rev v"] by (auto simp: hd_rev last_rev)
qed

end
