(* ===== verification/Admin_Handler.thy ===== *)
theory Admin_Handler
  imports Admin_Guard Py_Value Health_Check
begin

text \<open>
  \<open>handle_admin\<close> of \<open>demo/proxy.py\<close>: the guards in their order, then the commands of the request
  body. Every exception of the body is answered with status 400, and what was done before it
  stays done, so each stage returns the state together with its outcome. The outcomes of the
  request to the backend and of the write of the spike file are arguments.
\<close>

section \<open>State\<close>

record admin_state =
  as_limiter :: admin_limiter
  as_health :: health_state
  as_posts :: "((string \<times> int) \<times> bool) list" \<comment> \<open>requests sent to backends: address, overload flag\<close>
  as_spike :: "string option" \<comment> \<open>the contents of the spike file\<close>

record admin_config =
  ac_nets :: "ip_net list"
  ac_token :: "string option"
  ac_backends :: "(string \<times> int) list"

record admin_request =
  ar_peer :: peer_info
  ar_token_header :: string
  ar_auth_header :: string
  ar_now :: int
  ar_json :: "py_err + py_val"
  ar_kill_post_ok :: bool
  ar_revive_post_ok :: bool
  ar_file_ok :: bool

datatype admin_reply =
    Forbidden
  | AdminRateLimited
  | Unauthorized
  | AdminOk int \<comment> \<open>with the remaining calls in the window\<close>
  | BadRequest py_err

fun admin_status :: "admin_reply \<Rightarrow> nat" where
  "admin_status Forbidden = 403"
| "admin_status AdminRateLimited = 429"
| "admin_status Unauthorized = 401"
| "admin_status (AdminOk _) = 200"
| "admin_status (BadRequest _) = 400"

section \<open>Commands\<close>

definition set_backend_up :: "admin_config \<Rightarrow> bool \<Rightarrow> bool \<Rightarrow> admin_state \<Rightarrow> int \<Rightarrow> admin_state \<times> (py_err + unit)" where
  \<comment> \<open>the statements shared by killing (\<open>up\<close> false) and reviving a backend\<close>
  "set_backend_up cfg up post_ok st i =
     (case set_health (hs_ring (as_health st)) i up of
        Inl e \<Rightarrow> (st, Inl e)
      | Inr ring \<Rightarrow>
          let st = st\<lparr>as_health := (as_health st)\<lparr>hs_ring := ring\<rparr>\<rparr>
          in case py_set (ms_health (hs_metrics (as_health st))) i up of
               Inl e \<Rightarrow> (st, Inl e)
             | Inr hs \<Rightarrow>
                 let st = st\<lparr>as_health := (as_health st)\<lparr>hs_metrics := (hs_metrics (as_health st))\<lparr>ms_health := hs\<rparr>\<rparr>\<rparr>
                 in case py_get (ac_backends cfg) i of
                      Inl e \<Rightarrow> (st, Inl e)
                    | Inr addr \<Rightarrow>
                        let st = st\<lparr>as_posts := as_posts st @ [(addr, \<not> up)]\<rparr>
                        in (st, if post_ok then Inr () else Inl ClientError))"

definition backend_command :: "admin_config \<Rightarrow> string \<Rightarrow> bool \<Rightarrow> bool \<Rightarrow> py_val \<Rightarrow> admin_state \<Rightarrow> admin_state \<times> (py_err + unit)" where
  \<comment> \<open>\<open>if key in data: i = int(data[key]); ...\<close>\<close>
  "backend_command cfg key up post_ok data st =
     (case py_contains data key of
        Inl e \<Rightarrow> (st, Inl e)
      | Inr present \<Rightarrow>
          if \<not> present then (st, Inr ())
          else case bindE (py_item data key) to_int of
                 Inl e \<Rightarrow> (st, Inl e)
               | Inr i \<Rightarrow> set_backend_up cfg up post_ok st i)"

definition spike_command :: "bool \<Rightarrow> py_val \<Rightarrow> admin_state \<Rightarrow> admin_state \<times> (py_err + unit)" where
  "spike_command file_ok data st =
     (case py_contains data ''spike'' of
        Inl e \<Rightarrow> (st, Inl e)
      | Inr present \<Rightarrow>
          if \<not> present then (st, Inr ())
          else if \<not> file_ok then (st, Inl RuntimeError)
          else case py_item data ''spike'' of
                 Inl e \<Rightarrow> (st\<lparr>as_spike := Some []\<rparr>, Inl e)
               | Inr v \<Rightarrow> (st\<lparr>as_spike := Some (if truthy v then ''1'' else ''0'')\<rparr>, Inr ()))"

definition admin_commands :: "admin_config \<Rightarrow> admin_request \<Rightarrow> admin_state \<Rightarrow> admin_state \<times> (py_err + unit)" where
  "admin_commands cfg rq st =
     (case ar_json rq of
        Inl e \<Rightarrow> (st, Inl e)
      | Inr data \<Rightarrow>
          case backend_command cfg ''kill_backend'' False (ar_kill_post_ok rq) data st of
            (st, Inl e) \<Rightarrow> (st, Inl e)
          | (st, Inr _) \<Rightarrow>
              case backend_command cfg ''revive_backend'' True (ar_revive_post_ok rq) data st of
                (st, Inl e) \<Rightarrow> (st, Inl e)
              | (st, Inr _) \<Rightarrow> spike_command (ar_file_ok rq) data st)"

definition client_key :: "string option \<Rightarrow> string" where
  \<comment> \<open>\<open>client_ip or "unknown"\<close>\<close>
  "client_key ip = (case ip of None \<Rightarrow> ''unknown'' | Some s \<Rightarrow> if s = [] then ''unknown'' else s)"

definition handle_admin :: "admin_config \<Rightarrow> admin_state \<Rightarrow> admin_request \<Rightarrow> admin_state \<times> admin_reply" where
  "handle_admin cfg st rq =
     (let ip = client_ip (ar_peer rq)
      in if \<not> is_ip_allowed (ac_nets cfg) ip then (st, Forbidden)
         else case limiter_allow (as_limiter st) (client_key ip) (ar_now rq) of (limiter, ok, remaining) \<Rightarrow>
                let st = st\<lparr>as_limiter := limiter\<rparr>
                in if \<not> ok then (st, AdminRateLimited)
                   else if \<not> token_ok (ac_token cfg) (ar_token_header rq) (ar_auth_header rq) then (st, Unauthorized)
                   else case admin_commands cfg rq st of
                          (st, Inl e) \<Rightarrow> (st, BadRequest e)
                        | (st, Inr _) \<Rightarrow> (st, AdminOk remaining))"

section \<open>Every command keeps the state consistent\<close>

lemma set_health_error: "set_health r i h = Inl e \<Longrightarrow> e = IndexError"
  by (auto simp: set_health_def py_set_def split: option.splits)

lemma set_backend_up_ok:
  assumes "health_ok (as_health st)" and "set_backend_up cfg up post_ok st i = (st', r)"
  shows "health_ok (as_health st') \<and> as_limiter st' = as_limiter st \<and> as_spike st' = as_spike st \<and>
         hs_fails (as_health st') = hs_fails (as_health st)"
proof -
  let ?s = "as_health st"
  have lens: "length (ms_health (hs_metrics ?s)) = length (hs_fails ?s)" "length (rg_health (hs_ring ?s)) = length (hs_fails ?s)"
    using health_okD[OF assms(1)] by simp_all
  show ?thesis
  proof (cases "py_index (length (hs_fails ?s)) i")
    case None
    then have "st' = st" using assms(2) lens by (simp add: set_backend_up_def set_health_def py_set_def)
    then show ?thesis using assms(1) by simp
  next
    case (Some j)
    let ?t = "?s\<lparr>hs_ring := rebuild ((hs_ring ?s)\<lparr>rg_health := (rg_health (hs_ring ?s))[j := up]\<rparr>),
           hs_metrics := (hs_metrics ?s)\<lparr>ms_health := (ms_health (hs_metrics ?s))[j := up]\<rparr>\<rparr>"
    have "as_health st' = ?t \<and> as_limiter st' = as_limiter st \<and> as_spike st' = as_spike st"
      using assms(2) lens Some
      by (auto simp: set_backend_up_def set_health_def py_set_def Let_def split: sum.splits)
    then show ?thesis using marked_ok[OF assms(1), of j up] by simp
  qed
qed

lemma backend_command_ok:
  assumes "health_ok (as_health st)" and "backend_command cfg key up post_ok data st = (st', r)"
  shows "health_ok (as_health st') \<and> as_limiter st' = as_limiter st \<and> hs_fails (as_health st') = hs_fails (as_health st)"
  using assms set_backend_up_ok[OF assms(1)]
  by (auto simp: backend_command_def split: sum.splits if_splits)

lemma spike_command_ok:
  "spike_command file_ok data st = (st', r) \<Longrightarrow> as_health st' = as_health st \<and> as_limiter st' = as_limiter st"
  by (auto simp: spike_command_def split: sum.splits if_splits)

lemma admin_commands_ok:
  assumes "health_ok (as_health st)" and "admin_commands cfg rq st = (st', r)"
  shows "health_ok (as_health st') \<and> hs_fails (as_health st') = hs_fails (as_health st)"
proof (cases "ar_json rq")
  case (Inl e)
  then show ?thesis using assms by (simp add: admin_commands_def)
next
  case (Inr data)
  obtain s1 r1 where k: "backend_command cfg ''kill_backend'' False (ar_kill_post_ok rq) data st = (s1, r1)" by fastforce
  obtain s2 r2 where v: "backend_command cfg ''revive_backend'' True (ar_revive_post_ok rq) data s1 = (s2, r2)" by fastforce
  obtain s3 r3 where p: "spike_command (ar_file_ok rq) data s2 = (s3, r3)" by fastforce
  note 1 = backend_command_ok[OF assms(1) k]
  note 2 = backend_command_ok[OF conjunct1[OF 1] v]
  have "st' = s1 \<or> st' = s2 \<or> st' = s3"
    using assms(2) Inr k v p by (auto simp: admin_commands_def split: sum.splits)
  then show ?thesis using 1 2 spike_command_ok[OF p] by auto
qed

section \<open>Properties\<close>

definition admitted :: "admin_config \<Rightarrow> admin_state \<Rightarrow> admin_request \<Rightarrow> bool" where
  \<comment> \<open>the client passes the allowlist, the limiter and the token check\<close>
  "admitted cfg st rq \<longleftrightarrow>
     is_ip_allowed (ac_nets cfg) (client_ip (ar_peer rq)) \<and>
     fst (snd (limiter_allow (as_limiter st)
       (client_key (client_ip (ar_peer rq))) (ar_now rq))) \<and>
     token_ok (ac_token cfg) (ar_token_header rq) (ar_auth_header rq)"

lemma handle_admin_admitted:
  assumes "admitted cfg st rq"
  shows "\<exists>st1 remaining. as_health st1 = as_health st \<and> handle_admin cfg st rq =
           (case admin_commands cfg rq st1 of
              (st', Inl e) \<Rightarrow> (st', BadRequest e)
            | (st', Inr _) \<Rightarrow> (st', AdminOk remaining))"
proof -
  obtain l ok remaining where l: "limiter_allow (as_limiter st) (client_key (client_ip (ar_peer rq))) (ar_now rq) = (l, ok, remaining)"
    by (rule prod_cases3)
  have "handle_admin cfg st rq = (case admin_commands cfg rq (st\<lparr>as_limiter := l\<rparr>) of
              (st', Inl e) \<Rightarrow> (st', BadRequest e)
            | (st', Inr _) \<Rightarrow> (st', AdminOk remaining))"
    using assms l by (simp add: admitted_def handle_admin_def Let_def)
  then show ?thesis by (intro exI[of _ "st\<lparr>as_limiter := l\<rparr>"] exI[of _ remaining]) simp
qed

lemma handle_admin_denied:
  assumes "\<not> admitted cfg st rq"
  shows "\<exists>st' r. handle_admin cfg st rq = (st', r) \<and> r \<in> {Forbidden, AdminRateLimited, Unauthorized} \<and>
           as_health st' = as_health st \<and> as_posts st' = as_posts st \<and> as_spike st' = as_spike st"
proof -
  obtain l ok remaining where "limiter_allow (as_limiter st) (client_key (client_ip (ar_peer rq))) (ar_now rq) = (l, ok, remaining)"
    by (rule prod_cases3)
  then show ?thesis using assms by (auto simp: admitted_def handle_admin_def Let_def)
qed

lemma handle_admin_ok:
  assumes "health_ok (as_health st)" and "handle_admin cfg st rq = (st', r)"
  shows "health_ok (as_health st') \<and> hs_fails (as_health st') = hs_fails (as_health st)"
proof (cases "admitted cfg st rq")
  case False
  then show ?thesis using handle_admin_denied[OF False] assms by auto
next
  case True
  obtain st1 remaining where h: "as_health st1 = as_health st" "handle_admin cfg st rq =
           (case admin_commands cfg rq st1 of (st', Inl e) \<Rightarrow> (st', BadRequest e) | (st', Inr _) \<Rightarrow> (st', AdminOk remaining))"
    using handle_admin_admitted[OF True] by blast
  obtain s2 r2 where c: "admin_commands cfg rq st1 = (s2, r2)" by fastforce
  then have "st' = s2" using h(2) assms(2) by (cases r2) simp_all
  then show ?thesis using admin_commands_ok[OF _ c] h(1) assms(1) by simp
qed

text \<open>
  Commands are executed only for admitted clients: a request that fails the allowlist, the
  limiter or the token check is answered 403, 429 or 401 and changes neither the ring, nor the
  health flags, nor the spike file, and sends nothing to a backend.
\<close>

theorem admin_guard:
  assumes "\<not> admitted cfg st rq"
  shows "\<exists>st' r. handle_admin cfg st rq = (st', r) \<and> r \<in> {Forbidden, AdminRateLimited, Unauthorized} \<and>
           as_health st' = as_health st \<and> as_posts st' = as_posts st \<and> as_spike st' = as_spike st"
  using handle_admin_denied[OF assms] .

definition demo_config :: "string option \<Rightarrow> admin_config" where
  "demo_config token = \<lparr>ac_nets = [], ac_token = token, ac_backends = [(''127.0.0.1'', 9000), (''127.0.0.1'', 9001)]\<rparr>"

definition demo_state :: admin_state where
  "demo_state = \<lparr>as_limiter = limiter_init 60, as_health = health_init 2, as_posts = [], as_spike = None\<rparr>"

definition demo_request :: "string \<Rightarrow> py_val \<Rightarrow> bool \<Rightarrow> admin_request" where
  "demo_request token data post_ok = \<lparr>ar_peer = \<lparr>pi_remote = Some ''127.0.0.1'', pi_peername = None\<rparr>,
     ar_token_header = token, ar_auth_header = [], ar_now = 0, ar_json = Inr data,
     ar_kill_post_ok = post_ok, ar_revive_post_ok = post_ok, ar_file_ok = True\<rparr>"

theorem admin_guard_witness:
  "\<exists>st' r. handle_admin (demo_config (Some ''s'')) demo_state (demo_request ''x'' (PDict [(''kill_backend'', PInt 0)]) True) = (st', r) \<and>
     as_health st' = as_health demo_state"
proof -
  have "\<not> admitted (demo_config (Some ''s'')) demo_state (demo_request ''x'' (PDict [(''kill_backend'', PInt 0)]) True)"
    by (simp add: admitted_def token_ok_def demo_config_def demo_request_def starts_with_def)
  then show ?thesis using admin_guard by blast
qed

text \<open>
  C19. Whatever the body of an admin request holds (unknown backends, negative indices, wrong types,
  a reply that never comes), the ring and the metrics agree on the healthy backends afterwards,
  the ring is well formed, and the failure counts of the health checker are untouched.
\<close>

theorem admin_keeps_views_in_agreement:
  assumes "health_ok (as_health st)" and "handle_admin cfg st rq = (st', r)"
  shows "health_ok (as_health st') \<and> hs_fails (as_health st') = hs_fails (as_health st)"
  using handle_admin_ok[OF assms] .

theorem admin_keeps_views_in_agreement_witness:
  "\<exists>st' r. handle_admin (demo_config None) demo_state (demo_request [] (PDict [(''kill_backend'', PInt (- 1))]) True) = (st', r) \<and>
     health_ok (as_health st')"
proof -
  obtain st' r where h: "handle_admin (demo_config None) demo_state (demo_request [] (PDict [(''kill_backend'', PInt (- 1))]) True) = (st', r)"
    by fastforce
  have "health_ok (as_health demo_state)" by (simp add: demo_state_def health_init_ok)
  then show ?thesis using admin_keeps_views_in_agreement[OF _ h] h by blast
qed

lemma kill_command:
  assumes "health_ok (as_health st)" and "i < length (hs_fails (as_health st))"
    and "length (ac_backends cfg) = length (hs_fails (as_health st))"
  shows "\<exists>st'. backend_command cfg ''kill_backend'' False post_ok (PDict [(''kill_backend'', PInt (int i))]) st =
             (st', if post_ok then Inr () else Inl ClientError) \<and>
           ms_health (hs_metrics (as_health st')) = (ms_health (hs_metrics (as_health st)))[i := False]"
  using assms health_okD[OF assms(1)]
  by (simp add: backend_command_def set_backend_up_def set_health_def Let_def)

lemma kill_request:
  assumes "health_ok (as_health st)" and "i < length (hs_fails (as_health st))"
    and "length (ac_backends cfg) = length (hs_fails (as_health st))" and "admitted cfg st rq"
    and "ar_json rq = Inr (PDict [(''kill_backend'', PInt (int i))])"
  shows "\<exists>st' r. handle_admin cfg st rq = (st', r) \<and> (r = BadRequest ClientError \<longleftrightarrow> \<not> ar_kill_post_ok rq) \<and>
           ms_health (hs_metrics (as_health st')) = (ms_health (hs_metrics (as_health st)))[i := False]"
proof -
  obtain st1 remaining where st1: "as_health st1 = as_health st" "handle_admin cfg st rq =
        (case admin_commands cfg rq st1 of (st', Inl e) \<Rightarrow> (st', BadRequest e) | (st', Inr _) \<Rightarrow> (st', AdminOk remaining))"
    using handle_admin_admitted[OF assms(4)] by blast
  obtain s2 where s2: "backend_command cfg ''kill_backend'' False (ar_kill_post_ok rq) (PDict [(''kill_backend'', PInt (int i))]) st1 =
        (s2, if ar_kill_post_ok rq then Inr () else Inl ClientError)"
      "ms_health (hs_metrics (as_health s2)) = (ms_health (hs_metrics (as_health st)))[i := False]"
    using kill_command[of st1 i cfg] assms(1-3) st1(1) by auto
  have "admin_commands cfg rq st1 = (s2, if ar_kill_post_ok rq then Inr () else Inl ClientError)"
    using s2(1) assms(5) by (simp add: admin_commands_def backend_command_def[of cfg "''revive_backend''"] spike_command_def)
  then show ?thesis using st1(2) s2(2) by (cases "ar_kill_post_ok rq") simp_all
qed

text \<open>
  C20. Killing a backend takes it out of the ring and the metrics, and does so even when the reply
  is an error: when the request to the backend fails the caller is told 400, but the backend is
  already out.
\<close>

theorem kill_applies_despite_error:
  assumes "health_ok (as_health st)" and "i < length (hs_fails (as_health st))"
    and "length (ac_backends cfg) = length (hs_fails (as_health st))" and "admitted cfg st rq"
    and "ar_json rq = Inr (PDict [(''kill_backend'', PInt (int i))])" and "\<not> ar_kill_post_ok rq"
  shows "\<exists>st' r. handle_admin cfg st rq = (st', r) \<and> admin_status r = 400 \<and>
           \<not> ms_health (hs_metrics (as_health st')) ! i \<and>
           (\<forall>e \<in> set (rg_ring (hs_ring (as_health st'))). vowner e \<noteq> i)"
proof -
  obtain st' r where k: "handle_admin cfg st rq = (st', r)" "r = BadRequest ClientError"
    "ms_health (hs_metrics (as_health st')) = (ms_health (hs_metrics (as_health st)))[i := False]"
    using kill_request[OF assms(1-5)] assms(6) by blast
  have "health_ok (as_health st')" using handle_admin_ok[OF assms(1) k(1)] by simp
  then have "\<forall>e \<in> set (rg_ring (hs_ring (as_health st'))). ms_health (hs_metrics (as_health st')) ! vowner e"
    by (auto simp: health_ok_def ring_ok_def points_def)
  then show ?thesis using k assms(2) health_okD(1)[OF assms(1)] by auto
qed

theorem kill_applies_despite_error_witness:
  "\<exists>st' r. handle_admin (demo_config None) demo_state (demo_request [] (PDict [(''kill_backend'', PInt (int 1))]) False) = (st', r) \<and>
     admin_status r = 400 \<and> \<not> ms_health (hs_metrics (as_health st')) ! 1"
proof -
  have "admitted (demo_config None) demo_state (demo_request [] (PDict [(''kill_backend'', PInt (int 1))]) False)"
    by (simp add: admitted_def is_ip_allowed_def demo_config_def demo_request_def demo_state_def token_ok_def client_ip_def
        limiter_allow_def limiter_init_def)
  moreover have "health_ok (as_health demo_state)" "length (hs_fails (as_health demo_state)) = 2"
    by (simp_all add: demo_state_def health_init_ok) (simp add: health_init_def)
  ultimately show ?thesis
    using kill_applies_despite_error[of demo_state 1 "demo_config None"
        "demo_request [] (PDict [(''kill_backend'', PInt (int 1))]) False"]
    by (fastforce simp: demo_config_def demo_request_def)
qed

text \<open>
  The health checker undoes a kill: the next round in which the killed backend answers its
  health probe with status 200 (which the demo backends always do, overloaded or not) puts it back
  into the ring, so an administrator cannot keep a reachable backend out of service.
\<close>

theorem kill_undone_by_health_check:
  assumes "health_ok (as_health st)" and "i < length (hs_fails (as_health st))"
    and "length (ac_backends cfg) = length (hs_fails (as_health st))" and "admitted cfg st rq"
    and "ar_json rq = Inr (PDict [(''kill_backend'', PInt (int i))])"
    and "length outcomes = length (hs_fails (as_health st))" and "outcomes ! i = Some 200"
  shows "\<exists>st' r s. handle_admin cfg st rq = (st', r) \<and> \<not> ms_health (hs_metrics (as_health st')) ! i \<and>
           health_round (as_health st') outcomes = Inr s \<and> ms_health (hs_metrics s) ! i \<and> rg_health (hs_ring s) ! i"
proof -
  obtain st' r where k: "handle_admin cfg st rq = (st', r)"
    "ms_health (hs_metrics (as_health st')) = (ms_health (hs_metrics (as_health st)))[i := False]"
    using kill_request[OF assms(1-5)] by blast
  have ok: "health_ok (as_health st')" "hs_fails (as_health st') = hs_fails (as_health st)"
    using handle_admin_ok[OF assms(1) k(1)] by simp_all
  obtain s where "health_round (as_health st') outcomes = Inr s" "round_spec (as_health st') outcomes s"
    using health_round_spec[OF ok(1)] assms(6) ok(2) by auto
  then show ?thesis
    using k assms(2,6,7) ok(2) health_okD(1)[OF assms(1)]
    by (auto simp: round_spec_def health_ok_def)
qed

theorem kill_undone_by_health_check_witness:
  "\<exists>st' r s. handle_admin (demo_config None) demo_state (demo_request [] (PDict [(''kill_backend'', PInt (int 1))]) True) = (st', r) \<and>
     \<not> ms_health (hs_metrics (as_health st')) ! 1 \<and> health_round (as_health st') [Some 200, Some 200] = Inr s \<and>
     ms_health (hs_metrics s) ! 1"
proof -
  have "admitted (demo_config None) demo_state (demo_request [] (PDict [(''kill_backend'', PInt (int 1))]) True)"
    by (simp add: admitted_def is_ip_allowed_def demo_config_def demo_request_def demo_state_def token_ok_def client_ip_def
        limiter_allow_def limiter_init_def)
  moreover have "health_ok (as_health demo_state)" "length (hs_fails (as_health demo_state)) = 2"
    by (simp_all add: demo_state_def health_init_ok) (simp add: health_init_def)
  ultimately show ?thesis
    using kill_undone_by_health_check[of demo_state 1 "demo_config None"
        "demo_request [] (PDict [(''kill_backend'', PInt (int 1))]) True" "[Some 200, Some 200]"]
    by (fastforce simp: demo_config_def demo_request_def)
qed

end
