(* ===== verification/Proxy_Core.thy ===== *)
theory Proxy_Core
  imports Admin_Handler Proactive Rate_Adjuster Kan_Inference Safety_Monitor
begin

text \<open>
  The state of \<open>OmegaLBProxy\<close> in \<open>demo/proxy.py\<close> and its control loop: every half second the
  routing weights are inferred, projected, turned into virtual nodes, corrected by the proactive
  controller, and the rate limits are adjusted. The clock readings, the random draws and the
  ONNX session are arguments.
\<close>

section \<open>State\<close>

record proxy_config =
  pc_backends :: "(string \<times> int) list"
  pc_cap :: real
  pc_lam :: real
  pc_initial_rps :: real
  pc_limits :: rate_limits
  pc_retry_idempotent_only :: bool

record proxy =
  px_health :: health_state \<comment> \<open>ring, metrics and failure counts\<close>
  px_kan :: kan
  px_cbf :: safety_monitor
  px_buckets :: "token_bucket list"
  px_dqn :: adjuster
  px_req_count :: nat

abbreviation px_ring :: "proxy \<Rightarrow> ha_ring" where "px_ring p \<equiv> hs_ring (px_health p)"
abbreviation px_metrics :: "proxy \<Rightarrow> metrics_store" where "px_metrics p \<equiv> hs_metrics (px_health p)"

definition px_n :: "proxy_config \<Rightarrow> nat" where
  "px_n cfg = length (pc_backends cfg)"

definition proxy_init :: "proxy_config \<Rightarrow> kan \<Rightarrow> real \<Rightarrow> proxy" where
  "proxy_init cfg kan now =
     \<lparr>px_health = health_init (px_n cfg), px_kan = kan,
      px_cbf = sm_init (px_n cfg) (pc_cap cfg) (pc_lam cfg) (1/100) 100 300,
      px_buckets = replicate (px_n cfg) (tb_init (pc_initial_rps cfg) now),
      px_dqn = adjuster_init, px_req_count = 0\<rparr>"

section \<open>The control loop\<close>

record control_inputs =
  ci_t0 :: real
  ci_phase :: real
  ci_t1 :: real
  ci_clock :: "nat \<Rightarrow> real"
  ci_draws :: "draw list"

definition last_column :: "real list list \<Rightarrow> real list" where
  \<comment> \<open>\<open>hist[:, -1]\<close>\<close>
  "last_column rows = map last rows"

definition control_step :: "proxy_config \<Rightarrow> control_inputs \<Rightarrow> proxy \<Rightarrow> py_err + proxy" where
  "control_step cfg inp p =
     (let m = px_metrics p;
          loads = last_column (ms_load_hist m);
          lats = last_column (ms_latency_hist m);
          errors = last_column (ms_error_hist m);
          health = ms_health m
      in bindE (kan_infer (px_kan p) (ci_t0 inp) (ci_phase inp) (ci_t1 inp) loads lats errors health) (\<lambda>(kan, weights).
         bindE (sm_step (ci_clock inp) (px_cbf p) weights loads None) (\<lambda>(cbf, weights, cbf_active).
           let m = m\<lparr>ms_cbf_active := cbf_active, ms_kan_weights := weights\<rparr>
           in bindE (resize_loop (\<lambda>i c. Some (weight_count (px_n cfg) (weights ! i))) (px_ring p) [0..<length weights]) (\<lambda>ring.
              let m = m\<lparr>ms_vnode_counts := vnode_counts ring\<rparr>
              in bindE (proactive_step ring m) (\<lambda>(ring, m).
                 bindE (adjuster_update (pc_limits cfg) (ci_draws inp) (px_dqn p) m (px_buckets p)) (\<lambda>(dqn, m, buckets).
                   Inr (p\<lparr>px_health := (px_health p)\<lparr>hs_ring := ring, hs_metrics := m\<rparr>,
                          px_kan := kan, px_cbf := cbf, px_buckets := buckets, px_dqn := dqn\<rparr>)))))))"

record status_page =
  sp_snapshot :: snapshot
  sp_kan_equations :: "real list"
  sp_kan_stats :: kan_stats
  sp_kan_mode :: kan_path
  sp_cbf_audit :: cbf_audit

definition handle_status :: "proxy \<Rightarrow> real \<Rightarrow> status_page" where
  \<comment> \<open>the values of the status page; the equations by the numbers they end with\<close>
  "handle_status p now =
     (let m = px_metrics p
      in \<lparr>sp_snapshot = snapshot_of m now,
          sp_kan_equations = equation_raw (px_kan p) (last_column (ms_load_hist m)) (last_column (ms_latency_hist m))
                               (last_column (ms_error_hist m)) (ms_health m),
          sp_kan_stats = kn_stats (px_kan p), sp_kan_mode = stats_mode (kn_stats (px_kan p)),
          sp_cbf_audit = sm_audit (px_cbf p)\<rparr>)"

section \<open>The invariant\<close>

definition config_ok :: "proxy_config \<Rightarrow> bool" where
  "config_ok cfg \<longleftrightarrow> 1 < px_n cfg \<and> 0 \<le> pc_lam cfg \<and> 0 < rl_min (pc_limits cfg) \<and>
     rl_min (pc_limits cfg) \<le> rl_max (pc_limits cfg)"

definition proxy_ok :: "proxy_config \<Rightarrow> proxy \<Rightarrow> bool" where
  "proxy_ok cfg p \<longleftrightarrow> health_ok (px_health p) \<and> length (hs_fails (px_health p)) = px_n cfg \<and>
     sm_ok (px_cbf p) \<and> sm_n (px_cbf p) = px_n cfg \<and>
     0 \<le> cp_lr (sm_projector (px_cbf p)) \<and> 0 \<le> cp_lam (sm_projector (px_cbf p)) \<and>
     length (px_buckets p) = px_n cfg"

lemma proxy_okD:
  assumes "proxy_ok cfg p"
  shows "ring_ok (px_ring p)" "metrics_ok (px_metrics p)" "rg_n (px_ring p) = px_n cfg" "ms_n (px_metrics p) = px_n cfg"
    "rg_health (px_ring p) = ms_health (px_metrics p)" "length (ms_health (px_metrics p)) = px_n cfg"
    "length (ms_active (px_metrics p)) = px_n cfg" "length (px_buckets p) = px_n cfg"
  using assms health_okD[of "px_health p"] metrics_okD[of "px_metrics p"]
  by (simp_all add: proxy_ok_def health_ok_def)

lemma proxy_init_ok: "config_ok cfg \<Longrightarrow> proxy_ok cfg (proxy_init cfg kan now)"
  by (simp add: proxy_ok_def proxy_init_def health_init_ok config_ok_def sm_init_def sm_ok_def)
    (simp add: health_init_def)

lemma sm_init_ready: "cp_max_iter (sm_projector (sm_init n cap lam lr k h)) = k"
  by (simp add: sm_init_def)

text \<open>Inference answers in every state of the fleet, even with every backend down.\<close>

lemma masked_length: "masked health w \<Longrightarrow> length w = length health"
  by (simp add: masked_def)

lemma kan_infer_length:
  assumes "length lat_ms = length cpu" and "length err = length cpu" and "length health = length cpu" and "1 < length cpu"
  shows "\<exists>k' w. kan_infer k t0 t t1 cpu lat_ms err health = Inr (k', w) \<and> length w = length cpu"
proof (cases "True \<in> set health")
  case True
  then have "kan_ready cpu lat_ms err health" using assms by (simp add: kan_ready_def)
  then show ?thesis using kan_infer_masked[of cpu lat_ms err health] masked_length assms(3) by metis
next
  case False
  note sym = infer_symbolic_all_down[OF assms(1-3) False, of k]
  show ?thesis
  proof (cases "kn_session k")
    case None
    then show ?thesis using sym assms(3) by (simp add: kan_infer_def)
  next
    case (Some run)
    then show ?thesis
      using sym assms(3,4) infer_onnx_masked[of run t cpu lat_ms err health] masked_length
      by (cases "infer_onnx run t cpu lat_ms err health") (fastforce simp: kan_infer_def)+
  qed
qed

section \<open>One iteration of the control loop\<close>

lemma resized_range: "10 \<le> c \<and> c \<le> 300 \<Longrightarrow> 10 \<le> resized f i c \<and> resized f i c \<le> 300"
  by (auto simp: resized_def split: option.splits)

lemma resized_Some: "f i c = Some k \<Longrightarrow> 10 \<le> resized f i c \<and> resized f i c \<le> 300"
  by (auto simp: resized_def)

lemma replaced_ok:
  assumes "proxy_ok cfg p" and "control_ok ring m" and "rg_health ring = rg_health (px_ring p)"
    and "ms_health m = ms_health (px_metrics p)" and "ms_n m = px_n cfg"
  shows "health_ok ((px_health p)\<lparr>hs_ring := ring, hs_metrics := m\<rparr>)"
  using assms by (simp add: proxy_ok_def health_ok_def control_ok_def)

definition control_result :: "proxy_config \<Rightarrow> proxy \<Rightarrow> proxy \<Rightarrow> bool" where
  \<comment> \<open>what an iteration guarantees of the next state\<close>
  "control_result cfg p p' \<longleftrightarrow> proxy_ok cfg p' \<and>
     is_dist (ms_kan_weights (px_metrics p')) \<and> length (ms_kan_weights (px_metrics p')) = px_n cfg \<and>
     ms_health (px_metrics p') = ms_health (px_metrics p) \<and> ms_active (px_metrics p') = ms_active (px_metrics p) \<and>
     hs_fails (px_health p') = hs_fails (px_health p) \<and> px_req_count p' = px_req_count p \<and>
     ms_vnode_counts (px_metrics p') = rg_vnodes (px_ring p') \<and>
     (\<forall>i < px_n cfg. 10 \<le> rg_vnodes (px_ring p') ! i \<and> rg_vnodes (px_ring p') ! i \<le> 300) \<and>
     (\<forall>i < px_n cfg. ms_health (px_metrics p) ! i \<longrightarrow>
        rl_min (pc_limits cfg) \<le> ms_rate_limits (px_metrics p') ! i \<and>
        ms_rate_limits (px_metrics p') ! i \<le> rl_max (pc_limits cfg))"

lemma control_weights:
  \<comment> \<open>inference and safety projection within an iteration\<close>
  assumes p: "proxy_ok cfg p" and cfg: "config_ok cfg"
  shows "\<exists>kan w cbf w' fired.
    kan_infer (px_kan p) (ci_t0 inp) (ci_phase inp) (ci_t1 inp) (last_column (ms_load_hist (px_metrics p)))
      (last_column (ms_latency_hist (px_metrics p))) (last_column (ms_error_hist (px_metrics p))) (ms_health (px_metrics p)) = Inr (kan, w) \<and>
    sm_step (ci_clock inp) (px_cbf p) w (last_column (ms_load_hist (px_metrics p))) None = Inr (cbf, w', fired) \<and>
    sm_ok cbf \<and> sm_n cbf = px_n cfg \<and> sm_projector cbf = sm_projector (px_cbf p) \<and> is_dist w' \<and> length w' = px_n cfg"
proof -
  let ?m = "px_metrics p" and ?n = "px_n cfg"
  let ?loads = "last_column (ms_load_hist ?m)" and ?lats = "last_column (ms_latency_hist ?m)"
  let ?errs = "last_column (ms_error_hist ?m)"
  note d = proxy_okD[OF p]
  have lens: "length ?loads = ?n" "length ?lats = ?n" "length ?errs = ?n"
    using d(2,4) by (simp_all add: metrics_ok_def unit_rows_def last_column_def)
  obtain kan w where kan: "kan_infer (px_kan p) (ci_t0 inp) (ci_phase inp) (ci_t1 inp) ?loads ?lats ?errs (ms_health ?m) = Inr (kan, w)"
    "length w = ?n"
    using kan_infer_length[of ?lats ?loads ?errs "ms_health ?m" "px_kan p" "ci_t0 inp" "ci_phase inp" "ci_t1 inp"] lens d(6) cfg
    by (auto simp: config_ok_def)
  have ready: "sm_ready (px_cbf p) w ?loads None"
    using p kan(2) lens cfg by (auto simp: sm_ready_def cbf_ready_def caps_of_def proxy_ok_def config_ok_def)
  obtain cbf w' fired where "sm_step (ci_clock inp) (px_cbf p) w ?loads None = Inr (cbf, w', fired)"
    "sm_ok cbf" "sm_n cbf = ?n" "sm_projector cbf = sm_projector (px_cbf p)" "is_dist w'" "length w' = ?n"
    using sm_step_ok[OF _ ready, of "ci_clock inp"] p project_full_is_dist[of "sm_projector (px_cbf p)" w ?loads None] ready kan(2)
    by (auto simp: proxy_ok_def sm_ready_def)
  then show ?thesis using kan(1) by blast
qed

lemma control_step_spec:
  assumes p: "proxy_ok cfg p" and cfg: "config_ok cfg"
  shows "\<exists>p'. control_step cfg inp p = Inr p' \<and> control_result cfg p p'"
proof -
  let ?m = "px_metrics p" and ?n = "px_n cfg"
  let ?loads = "last_column (ms_load_hist ?m)" and ?lats = "last_column (ms_latency_hist ?m)"
  let ?errs = "last_column (ms_error_hist ?m)"
  note d = proxy_okD[OF p]
  obtain kan w cbf w' fired where kan: "kan_infer (px_kan p) (ci_t0 inp) (ci_phase inp) (ci_t1 inp) ?loads ?lats ?errs (ms_health ?m) = Inr (kan, w)"
    and cbf: "sm_step (ci_clock inp) (px_cbf p) w ?loads None = Inr (cbf, w', fired)"
    "sm_ok cbf" "sm_n cbf = ?n" "sm_projector cbf = sm_projector (px_cbf p)" "is_dist w'" "length w' = ?n"
    using control_weights[OF assms, of inp] by blast
  let ?f = "\<lambda>i c. Some (weight_count ?n (w' ! i))"
  obtain ring where ring: "resize_loop ?f (px_ring p) [0..<?n] = Inr ring" "ring_ok ring" "rg_n ring = ?n"
    "rg_health ring = rg_health (px_ring p)" "\<forall>i < ?n. rg_vnodes ring ! i = resized ?f i (rg_vnodes (px_ring p) ! i)"
    using resize_loop_spec[OF d(1), of "[0..<?n]" ?f] d(3) by auto
  have r1: "10 \<le> rg_vnodes ring ! i \<and> rg_vnodes ring ! i \<le> 300" if "i < ?n" for i
    using ring(5) that resized_Some[of ?f i] by simp
  let ?m1 = "?m\<lparr>ms_cbf_active := fired, ms_kan_weights := w', ms_vnode_counts := vnode_counts ring\<rparr>"
  have ok1: "control_ok ring ?m1" using d(2,4) ring by (simp add: control_ok_def)
  obtain ring2 m2 where pro: "proactive_step ring ?m1 = Inr (ring2, m2)" "control_ok ring2 m2"
    "rg_health ring2 = rg_health ring" "ms_health m2 = ms_health ?m1" "ms_vnode_counts m2 = rg_vnodes ring2"
    "ms_active m2 = ms_active ?m1" "ms_kan_weights m2 = ms_kan_weights ?m1" "ms_n m2 = ms_n ?m1"
    "\<forall>i < rg_n ring. rg_vnodes ring2 ! i = resized (if pressure ?m1 then shed_count ?m1 else restore_count) i (rg_vnodes ring ! i)"
    using proactive_step_spec[OF ok1] by blast
  have r2: "10 \<le> rg_vnodes ring2 ! i \<and> rg_vnodes ring2 ! i \<le> 300" if "i < ?n" for i
    using pro(9) ring(3) that resized_range[OF r1[OF that]] by simp
  have "length (px_buckets p) = ms_n m2" using d(4,8) pro(8) by simp
  from adjuster_update_ok[OF _ this, of "pc_limits cfg" "ci_draws inp" "px_dqn p"] cfg pro(2)
  obtain dqn m3 bs where adj: "adjuster_update (pc_limits cfg) (ci_draws inp) (px_dqn p) m2 (px_buckets p) = Inr (dqn, m3, bs)"
    "metrics_ok m3" "m3 = m2\<lparr>ms_rate_limits := ms_rate_limits m3\<rparr>" "length bs = ms_n m2"
    "\<forall>i < ms_n m2. if ms_health m2 ! i
              then rl_min (pc_limits cfg) \<le> ms_rate_limits m3 ! i \<and> ms_rate_limits m3 ! i \<le> rl_max (pc_limits cfg) \<and>
                   tb_rate (bs ! i) = max 10 (ms_rate_limits m3 ! i)
              else ms_rate_limits m3 ! i = ms_rate_limits m2 ! i \<and> bs ! i = px_buckets p ! i"
    by (elim meta_impE) (simp_all add: control_ok_def config_ok_def, elim exE conjE, rule that)
  have m3: "ms_health m3 = ms_health ?m" "ms_active m3 = ms_active ?m" "ms_kan_weights m3 = w'" "ms_n m3 = ?n"
    "ms_vnode_counts m3 = rg_vnodes ring2"
    by (subst adj(3), simp add: pro d)+
  let ?p' = "p\<lparr>px_health := (px_health p)\<lparr>hs_ring := ring2, hs_metrics := m3\<rparr>,
     px_kan := kan, px_cbf := cbf, px_buckets := bs, px_dqn := dqn\<rparr>"
  have "control_step cfg inp p = Inr ?p'"
    using kan cbf ring(1) pro(1) adj(1) by (simp add: control_step_def Let_def)
  moreover have "control_ok ring2 m3" using pro(2) adj(2) m3(4) pro(8) d(4) by (simp add: control_ok_def)
  then have "health_ok ((px_health p)\<lparr>hs_ring := ring2, hs_metrics := m3\<rparr>)"
    using replaced_ok[OF p] pro(3) ring(4) m3(1,4) by simp
  then have "proxy_ok cfg ?p'"
    using p cbf adj(4) pro(8) d(4) by (simp add: proxy_ok_def)
  moreover have "rl_min (pc_limits cfg) \<le> ms_rate_limits m3 ! i \<and> ms_rate_limits m3 ! i \<le> rl_max (pc_limits cfg)"
    if "i < ?n" "ms_health ?m ! i" for i
    using adj(5) that pro(4,8) d(4) by auto
  ultimately show ?thesis
    using cbf(5,6) m3 r2 by (auto simp: control_result_def)
qed

section \<open>Properties\<close>

text \<open>
  C4. An iteration of the control loop never raises and never breaks the proxy: from any consistent
  state, with at least two backends, it ends in a consistent state whose routing weights are a
  probability vector, whose published virtual-node counts are those of the ring and lie between
  10 and 300, and whose rate limits for healthy backends are within the configured range. It
  changes neither the health flags nor the in-flight counters.
\<close>

theorem control_loop_safe:
  assumes "proxy_ok cfg p" and "config_ok cfg"
  shows "\<exists>p'. control_step cfg inp p = Inr p' \<and> proxy_ok cfg p' \<and>
           is_dist (ms_kan_weights (px_metrics p')) \<and> length (ms_kan_weights (px_metrics p')) = px_n cfg \<and>
           ms_vnode_counts (px_metrics p') = vnode_counts (px_ring p') \<and>
           (\<forall>i < px_n cfg. 10 \<le> vnode_counts (px_ring p') ! i \<and> vnode_counts (px_ring p') ! i \<le> 300) \<and>
           (\<forall>i < px_n cfg. ms_health (px_metrics p) ! i \<longrightarrow>
              rl_min (pc_limits cfg) \<le> ms_rate_limits (px_metrics p') ! i \<and>
              ms_rate_limits (px_metrics p') ! i \<le> rl_max (pc_limits cfg)) \<and>
           ms_health (px_metrics p') = ms_health (px_metrics p) \<and> ms_active (px_metrics p') = ms_active (px_metrics p)"
  using control_step_spec[OF assms, of inp] by (auto simp: control_result_def vnode_counts_def)

definition demo_proxy_config :: proxy_config where
  "demo_proxy_config = \<lparr>pc_backends = [(''127.0.0.1'', 9000), (''127.0.0.1'', 9001)], pc_cap = 8/10, pc_lam = 5/10,
     pc_initial_rps = 1000, pc_limits = \<lparr>rl_min = 100, rl_max = 5000\<rparr>, pc_retry_idempotent_only = True\<rparr>"

definition demo_inputs :: control_inputs where
  "demo_inputs = \<lparr>ci_t0 = 0, ci_phase = 0, ci_t1 = 1/1000, ci_clock = (\<lambda>i. 0), ci_draws = [(1/2, 0), (1/2, 0)]\<rparr>"

lemma demo_config_ok: "config_ok demo_proxy_config"
  by (simp add: config_ok_def demo_proxy_config_def px_n_def)

theorem control_loop_safe_witness:
  "\<exists>p'. control_step demo_proxy_config demo_inputs (proxy_init demo_proxy_config (kan_new None) 0) = Inr p' \<and>
     is_dist (ms_kan_weights (px_metrics p'))"
  using control_loop_safe[OF proxy_init_ok[OF demo_config_ok] demo_config_ok, of demo_inputs "kan_new None" 0] by blast

text \<open>
  C8. The stages compose: after an iteration of the control loop every request is routed to a
  backend that is healthy, as long as one is, whatever its key and whatever the weights were.
\<close>

theorem control_loop_routes_healthy:
  assumes "proxy_ok cfg p" and "config_ok cfg" and "i < px_n cfg" and "ms_health (px_metrics p) ! i"
  shows "\<exists>p'. control_step cfg inp p = Inr p' \<and>
           route (px_ring p') key < px_n cfg \<and> ms_health (px_metrics p') ! route (px_ring p') key"
proof -
  obtain p' where p': "control_step cfg inp p = Inr p'" "control_result cfg p p'"
    using control_step_spec[OF assms(1,2)] by blast
  then have ok: "proxy_ok cfg p'" by (simp add: control_result_def)
  note d = proxy_okD[OF ok]
  have "rg_health (px_ring p') ! i" using p'(2) d(5) assms(4) by (simp add: control_result_def)
  moreover have "1 \<le> py_int (rg_vnodes (px_ring p') ! i)"
  proof -
    have "10 \<le> rg_vnodes (px_ring p') ! i" using p'(2) assms(3) by (simp add: control_result_def)
    then show ?thesis by (simp add: py_int_def le_floor_iff)
  qed
  ultimately have "points (px_ring p') \<noteq> {}"
    using d(3) assms(3) by (auto simp: points_nonempty_iff intro!: exI[of _ i])
  then obtain e where "e \<in> points (px_ring p')" "route (px_ring p') key = vowner e"
    using ha.pick_owner[OF d(1)] by blast
  then show ?thesis using p'(1) d(3,5) by (auto simp: points_def)
qed

theorem control_loop_routes_healthy_witness:
  "\<exists>p'. control_step demo_proxy_config demo_inputs (proxy_init demo_proxy_config (kan_new None) 0) = Inr p' \<and>
     ms_health (px_metrics p') ! route (px_ring p') ''10.0.0.1:/:1''"
proof -
  have "0 < px_n demo_proxy_config" "ms_health (px_metrics (proxy_init demo_proxy_config (kan_new None) 0)) ! 0"
    by (simp_all add: demo_proxy_config_def px_n_def proxy_init_def health_init_def)
  from control_loop_routes_healthy[OF proxy_init_ok[OF demo_config_ok] demo_config_ok this] show ?thesis by blast
qed

text \<open>
  The counts requested from the ring follow the weights within bounds: for the weights the
  safety stage returns, every backend is asked to hold between 10 and 150 virtual nodes per
  backend of the fleet, and some backend at least the 150 of a fair share.
\<close>

theorem projected_weights_to_counts:
  assumes "sm_ok m" and "sm_ready m weights loads caps"
  shows "\<exists>m' w fired. sm_step clock m weights loads caps = Inr (m', w, fired) \<and>
           (\<forall>i < sm_n m. 10 \<le> weight_count (sm_n m) (w ! i) \<and> weight_count (sm_n m) (w ! i) \<le> 150 * int (sm_n m)) \<and>
           (\<exists>i < sm_n m. 150 \<le> weight_count (sm_n m) (w ! i))"
proof -
  let ?c = "\<lparr>cc_monitor = m, cc_weights = weights, cc_loads = loads, cc_caps = caps, cc_clock = clock\<rparr>"
  obtain m' w fired where s: "sm_step clock m weights loads caps = Inr (m', w, fired)"
    using sm_step_ok[OF assms] by blast
  then have w: "cbf_call_weights ?c = w" by (simp add: cbf_call_weights_def)
  show ?thesis
    using s cbf_stage.counts_range[of ?c] cbf_stage.fair_share[of ?c] assms w by auto
qed

theorem projected_weights_to_counts_witness:
  "\<exists>m' w fired. sm_step (\<lambda>i. 0) (sm_init 2 (8/10) (1/2) (1/100) 100 300) [1, 0] [9/10, 1/10] None = Inr (m', w, fired) \<and>
     10 \<le> weight_count 2 (w ! 1)"
proof -
  have "sm_ok (sm_init 2 (8/10) (1/2) (1/100) 100 300)"
    "sm_ready (sm_init 2 (8/10) (1/2) (1/100) 100 300) [1, 0] [9/10, 1/10] None" "sm_n (sm_init 2 (8/10) (1/2) (1/100) 100 300) = 2"
    by (simp_all add: sm_ok_def sm_ready_def sm_init_def cbf_ready_def caps_of_def)
  from projected_weights_to_counts[OF this(1,2), of "\<lambda>i. 0"] this(3) show ?thesis
    by (auto dest: spec[of _ 1])
qed

end
