(* ===== verification/Proxy_Requests.thy ===== *)
theory Proxy_Requests
  imports Proxy_Core
begin

text \<open>
  \<open>handle\<close> of \<open>demo/proxy.py\<close>: the life of a request, cut at the points where the coroutine
  waits (for the request body and for the upstream reply), so that other tasks may run in between.
  The upstream outcomes and the clock are arguments.
\<close>

section \<open>Requests\<close>

record request =
  rq_method :: string
  rq_remote :: "string option"
  rq_path :: string

datatype upstream =
    Reply nat nat \<comment> \<open>status and length of the body\<close>
  | NetError \<comment> \<open>a connection error or a timeout\<close>
  | OtherError

datatype response =
    RateLimited nat \<comment> \<open>429, naming the backend\<close>
  | Relayed nat nat nat real \<comment> \<open>status, backend, attempts and virtual nodes of the backend\<close>
  | UpstreamFailed nat \<comment> \<open>502 with the error of the backend\<close>
  | Exhausted \<comment> \<open>502, all retries exhausted\<close>

fun response_status :: "response \<Rightarrow> nat" where
  "response_status (RateLimited _) = 429"
| "response_status (Relayed s _ _ _) = s"
| "response_status (UpstreamFailed _) = 502"
| "response_status Exhausted = 502"

datatype phase =
    Ready nat "nat list" nat \<comment> \<open>backend, backends tried and number of the attempt\<close>
  | Sending nat "nat list" nat
  | Finished response

definition IDEMPOTENT_METHODS :: "string set" where
  "IDEMPOTENT_METHODS = {''GET'', ''HEAD'', ''OPTIONS'', ''PUT'', ''DELETE''}"

definition upper_char :: "char \<Rightarrow> char" where
  "upper_char c = (let n = of_char c :: nat in if 97 \<le> n \<and> n \<le> 122 then char_of (n - 32) else c)"

definition max_attempts :: "proxy_config \<Rightarrow> request \<Rightarrow> nat" where
  "max_attempts cfg rq =
     (let allow_retry = \<not> pc_retry_idempotent_only cfg \<or> map upper_char (rq_method rq) \<in> IDEMPOTENT_METHODS
      in if allow_retry then 2 else 1)"

definition routing_key :: "request \<Rightarrow> nat \<Rightarrow> string" where
  "routing_key rq req_count =
     (case rq_remote rq of None \<Rightarrow> ''None'' | Some r \<Rightarrow> r) @ '':'' @ rq_path rq @ '':'' @ nat_str (req_count mod 1000)"

definition accept :: "proxy \<Rightarrow> request \<Rightarrow> real \<Rightarrow> py_err + proxy \<times> phase" where
  \<comment> \<open>routing and the rate limit, up to reading the body\<close>
  "accept p rq now =
     (let p = p\<lparr>px_req_count := px_req_count p + 1\<rparr>;
          backend_id = route (px_ring p) (routing_key rq (px_req_count p))
      in bindE (py_get (px_buckets p) (int backend_id)) (\<lambda>b.
           case tb_consume b now of (b, granted) \<Rightarrow>
             let p = p\<lparr>px_buckets := (px_buckets p)[backend_id := b]\<rparr>
             in Inr (p, if granted then Ready backend_id [backend_id] 0 else Finished (RateLimited backend_id))))"

definition set_px_metrics :: "proxy \<Rightarrow> metrics_store \<Rightarrow> proxy" where
  "set_px_metrics p m = p\<lparr>px_health := (px_health p)\<lparr>hs_metrics := m\<rparr>\<rparr>"

definition begin_attempt :: "proxy_config \<Rightarrow> proxy \<Rightarrow> nat \<Rightarrow> nat list \<Rightarrow> nat \<Rightarrow> py_err + proxy \<times> phase" where
  "begin_attempt cfg p backend_id tried attempt =
     bindE (py_get (pc_backends cfg) (int backend_id)) (\<lambda>_.
     bindE (record_request_start (px_metrics p) (int backend_id)) (\<lambda>m.
       Inr (set_px_metrics p m, Sending backend_id tried attempt)))"

definition next_healthy :: "proxy_config \<Rightarrow> proxy \<Rightarrow> nat list \<Rightarrow> nat option" where
  "next_healthy cfg p exclude =
     List.find (\<lambda>i. i \<notin> set exclude \<and> ms_health (px_metrics p) ! i) [0..<px_n cfg]"

definition continue_with :: "proxy_config \<Rightarrow> request \<Rightarrow> nat \<Rightarrow> nat list \<Rightarrow> nat \<Rightarrow> phase" where
  \<comment> \<open>\<open>tried.add(alt); backend_id = alt; continue\<close>: the next iteration, or the end of the loop\<close>
  "continue_with cfg rq alt tried attempt =
     (if attempt + 1 < max_attempts cfg rq then Ready alt (alt # tried) (attempt + 1) else Finished Exhausted)"

definition end_attempt :: "proxy_config \<Rightarrow> request \<Rightarrow> proxy \<Rightarrow> nat \<Rightarrow> nat list \<Rightarrow> nat \<Rightarrow> upstream \<Rightarrow> real \<Rightarrow> real \<Rightarrow>
    py_err + proxy \<times> phase" where
  "end_attempt cfg rq p backend_id tried attempt out latency_ms now =
     (case out of
        Reply status len \<Rightarrow>
          let is_error = 500 \<le> status
          in bindE (record_request_end (px_metrics p) (int backend_id) latency_ms is_error len now) (\<lambda>m.
               let p = set_px_metrics p m;
                   relay = Finished (Relayed status backend_id (attempt + 1) (vnode_counts (px_ring p) ! backend_id))
               in Inr (p, if is_error \<and> attempt = 0
                          then (case next_healthy cfg p tried of
                                  Some alt \<Rightarrow> continue_with cfg rq alt tried attempt
                                | None \<Rightarrow> relay)
                          else relay))
      | NetError \<Rightarrow>
          bindE (record_request_end (px_metrics p) (int backend_id) latency_ms True 0 now) (\<lambda>m.
            let p = set_px_metrics p m
            in Inr (p, if attempt = 0
                       then (case next_healthy cfg p tried of
                               Some alt \<Rightarrow> continue_with cfg rq alt tried attempt
                             | None \<Rightarrow> Finished (UpstreamFailed backend_id))
                       else Finished (UpstreamFailed backend_id)))
      | OtherError \<Rightarrow>
          bindE (record_request_end (px_metrics p) (int backend_id) latency_ms True 0 now) (\<lambda>m.
            Inr (set_px_metrics p m, Finished (UpstreamFailed backend_id))))"

section \<open>A request with nothing else running\<close>

record attempt_inputs =
  at_outcome :: upstream
  at_latency :: real
  at_now :: real

fun run_attempts :: "proxy_config \<Rightarrow> request \<Rightarrow> attempt_inputs list \<Rightarrow> proxy \<times> phase \<Rightarrow> py_err + proxy \<times> phase" where
  \<comment> \<open>the retry loop, with the inputs of its attempts; it stops when they run out\<close>
  "run_attempts cfg rq [] pp = Inr pp"
| "run_attempts cfg rq (a # as) (p, Ready b tried k) =
     bindE (begin_attempt cfg p b tried k) (\<lambda>(p, ph).
     bindE (end_attempt cfg rq p b tried k (at_outcome a) (at_latency a) (at_now a)) (\<lambda>pp.
       run_attempts cfg rq as pp))"
| "run_attempts cfg rq (a # as) (p, ph) = Inr (p, ph)"

definition handle_request :: "proxy_config \<Rightarrow> proxy \<Rightarrow> request \<Rightarrow> real \<Rightarrow> attempt_inputs list \<Rightarrow> py_err + proxy \<times> phase" where
  "handle_request cfg p rq now as = bindE (accept p rq now) (run_attempts cfg rq as)"

section \<open>What each stage does to the state\<close>

lemma start_spec:
  "metrics_ok m \<Longrightarrow> i < ms_n m \<Longrightarrow>
     record_request_start m (int i) = Inr (m\<lparr>ms_active := (ms_active m)[i := ms_active m ! i + 1]\<rparr>)"
  by (simp add: record_request_start_def metrics_okD)

lemma end_spec:
  assumes "metrics_ok m" and "i < ms_n m"
  shows "\<exists>m'. record_request_end m (int i) lat e len now = Inr m' \<and> metrics_ok m' \<and> ms_n m' = ms_n m \<and>
           ms_health m' = ms_health m \<and> ms_active m' = (ms_active m)[i := max 0 (ms_active m ! i - 1)]"
  using end_ok[OF assms, of lat e len now] assms
  by (auto simp: record_request_end_def metrics_okD)

lemma start_ok': "metrics_ok m \<Longrightarrow> i < ms_n m \<Longrightarrow> metrics_ok (m\<lparr>ms_active := (ms_active m)[i := ms_active m ! i + 1]\<rparr>)"
  using start_ok[of m i] start_spec[of m i] by simp

lemma set_metrics_ok:
  assumes "proxy_ok cfg p" and "metrics_ok m" and "ms_n m = px_n cfg" and "ms_health m = ms_health (px_metrics p)"
  shows "proxy_ok cfg (set_px_metrics p m)"
  using assms by (simp add: proxy_ok_def health_ok_def set_px_metrics_def)

lemma new_health_ok:
  "proxy_ok cfg p \<Longrightarrow> health_ok h \<Longrightarrow> length (hs_fails h) = px_n cfg \<Longrightarrow> proxy_ok cfg (p\<lparr>px_health := h\<rparr>)"
  by (simp add: proxy_ok_def)

lemma set_px_metrics_sel [simp]:
  "px_metrics (set_px_metrics p m) = m" "px_ring (set_px_metrics p m) = px_ring p"
  "px_buckets (set_px_metrics p m) = px_buckets p"
  by (simp_all add: set_px_metrics_def)

lemma route_range: "ring_ok r \<Longrightarrow> 0 < rg_n r \<Longrightarrow> route r key < rg_n r"
proof (cases "points r = {}")
  case False
  assume "ring_ok r"
  then obtain e where "e \<in> points r" "route r key = vowner e" using ha.pick_owner[OF _ False] by blast
  then show ?thesis by (auto simp: points_def)
qed (simp add: route_empty)

definition phase_ok :: "proxy_config \<Rightarrow> request \<Rightarrow> phase \<Rightarrow> bool" where
  "phase_ok cfg rq ph \<longleftrightarrow>
     (case ph of
        Ready b tried k \<Rightarrow> b < px_n cfg \<and> hd tried = b \<and> distinct tried \<and> length tried = k + 1 \<and> k < max_attempts cfg rq
      | Sending b tried k \<Rightarrow> b < px_n cfg \<and> hd tried = b \<and> distinct tried \<and> length tried = k + 1 \<and> k < max_attempts cfg rq
      | Finished (Relayed s b a v) \<Rightarrow> b < px_n cfg \<and> a \<le> max_attempts cfg rq
      | Finished Exhausted \<Rightarrow> max_attempts cfg rq = 1
      | Finished _ \<Rightarrow> True)"

fun busy :: "nat \<Rightarrow> phase \<Rightarrow> int" where
  \<comment> \<open>one for a request waiting for backend \<open>i\<close>\<close>
  "busy i (Sending b tried k) = (if b = i then 1 else 0)"
| "busy i _ = 0"

lemma max_attempts_range: "1 \<le> max_attempts cfg rq" "max_attempts cfg rq \<le> 2"
  by (simp_all add: max_attempts_def Let_def)

lemma accept_ok:
  assumes "proxy_ok cfg p" and "config_ok cfg"
  shows "\<exists>p' ph. accept p rq now = Inr (p', ph) \<and> proxy_ok cfg p' \<and> phase_ok cfg rq ph \<and> px_health p' = px_health p \<and>
           (\<forall>i. busy i ph = 0) \<and> px_req_count p' = px_req_count p + 1"
proof -
  note d = proxy_okD[OF assms(1)]
  let ?b = "route (px_ring p) (routing_key rq (px_req_count p + 1))"
  have b: "?b < px_n cfg" using route_range[OF d(1)] d(3) assms(2) by (simp add: config_ok_def)
  obtain tb granted where c: "tb_consume (px_buckets p ! ?b) now = (tb, granted)" by fastforce
  have "accept p rq now = Inr (p\<lparr>px_req_count := px_req_count p + 1, px_buckets := (px_buckets p)[?b := tb]\<rparr>,
      if granted then Ready ?b [?b] 0 else Finished (RateLimited ?b))"
    using c b d(8) by (simp add: accept_def Let_def)
  moreover have "proxy_ok cfg (p\<lparr>px_req_count := px_req_count p + 1, px_buckets := (px_buckets p)[?b := tb]\<rparr>)"
    using assms(1) by (simp add: proxy_ok_def)
  moreover have "phase_ok cfg rq (if granted then Ready ?b [?b] 0 else Finished (RateLimited ?b))"
    using b max_attempts_range(1)[of cfg rq] by (simp add: phase_ok_def)
  ultimately show ?thesis by simp
qed

lemma begin_ok:
  assumes "proxy_ok cfg p" and "phase_ok cfg rq (Ready b tried k)"
  shows "begin_attempt cfg p b tried k =
           Inr (set_px_metrics p ((px_metrics p)\<lparr>ms_active := (ms_active (px_metrics p))[b := ms_active (px_metrics p) ! b + 1]\<rparr>),
                Sending b tried k) \<and>
         proxy_ok cfg (set_px_metrics p ((px_metrics p)\<lparr>ms_active := (ms_active (px_metrics p))[b := ms_active (px_metrics p) ! b + 1]\<rparr>)) \<and>
         phase_ok cfg rq (Sending b tried k)"
proof -
  note d = proxy_okD[OF assms(1)]
  have b: "b < px_n cfg" using assms(2) by (simp add: phase_ok_def)
  then have "b < length (pc_backends cfg)" by (simp add: px_n_def)
  then show ?thesis
    using start_spec[OF d(2), of b] start_ok'[OF d(2), of b] b d(4) assms set_metrics_ok[OF assms(1)]
    by (simp add: begin_attempt_def phase_ok_def)
qed

lemma next_healthy_Some:
  "next_healthy cfg p tried = Some alt \<Longrightarrow> alt < px_n cfg \<and> alt \<notin> set tried \<and> ms_health (px_metrics p) ! alt"
  by (auto simp: next_healthy_def find_Some_iff)

lemma continue_ok:
  assumes "phase_ok cfg rq (Sending b tried k)" and "next_healthy cfg p tried = Some alt" and "k = 0"
  shows "phase_ok cfg rq (continue_with cfg rq alt tried k) \<and> busy i (continue_with cfg rq alt tried k) = 0"
  using assms next_healthy_Some[OF assms(2)] max_attempts_range[of cfg rq] by (auto simp: continue_with_def phase_ok_def)

lemma end_attempt_ok:
  assumes "proxy_ok cfg p" and ph: "phase_ok cfg rq (Sending b tried k)"
  shows "\<exists>m ph'. end_attempt cfg rq p b tried k out lat now = Inr (set_px_metrics p m, ph') \<and>
           proxy_ok cfg (set_px_metrics p m) \<and> phase_ok cfg rq ph' \<and> (\<forall>i. busy i ph' = 0) \<and>
           ms_active m = (ms_active (px_metrics p))[b := max 0 (ms_active (px_metrics p) ! b - 1)]"
proof -
  note d = proxy_okD[OF assms(1)]
  have b: "b < ms_n (px_metrics p)" using ph d(4) by (simp add: phase_ok_def)
  define e where "e = (case out of Reply status len \<Rightarrow> 500 \<le> status | _ \<Rightarrow> True)"
  define len where "len = (case out of Reply status len \<Rightarrow> len | _ \<Rightarrow> 0)"
  obtain m where m: "record_request_end (px_metrics p) (int b) lat e len now = Inr m" "metrics_ok m"
    "ms_n m = ms_n (px_metrics p)" "ms_health m = ms_health (px_metrics p)"
    "ms_active m = (ms_active (px_metrics p))[b := max 0 (ms_active (px_metrics p) ! b - 1)]"
    using end_spec[OF d(2) b] by blast
  have p': "proxy_ok cfg (set_px_metrics p m)" using set_metrics_ok[OF assms(1) m(2)] m(3,4) d(4) by simp
  have relay: "phase_ok cfg rq (Finished (Relayed s b (Suc k) v))" for s v
    using ph by (simp add: phase_ok_def)
  have "\<exists>ph'. end_attempt cfg rq p b tried k out lat now = Inr (set_px_metrics p m, ph') \<and> phase_ok cfg rq ph' \<and> (\<forall>i. busy i ph' = 0)"
  proof (cases out)
    case (Reply status len')
    then show ?thesis
      using m(1) relay continue_ok[OF ph] by (auto simp: end_attempt_def e_def len_def Let_def split: option.splits)
  next
    case NetError
    then show ?thesis
      using m(1) continue_ok[OF ph] by (auto simp: end_attempt_def e_def len_def Let_def phase_ok_def[of _ _ "Finished _"] split: option.splits)
  next
    case OtherError
    then show ?thesis using m(1) by (simp add: end_attempt_def e_def len_def phase_ok_def)
  qed
  then show ?thesis using p' m(5) by blast
qed

section \<open>Single requests\<close>

lemma next_healthy_ex:
  assumes "alt < px_n cfg" and "alt \<notin> set tried" and "ms_health (px_metrics p) ! alt"
  shows "\<exists>alt'. next_healthy cfg p tried = Some alt'"
proof -
  have "next_healthy cfg p tried \<noteq> None"
    using assms by (auto simp: next_healthy_def find_None_iff)
  then show ?thesis by blast
qed

definition failing :: "upstream \<Rightarrow> bool" where
  \<comment> \<open>a reply or an error that \<open>handle\<close> answers by trying another backend\<close>
  "failing out \<longleftrightarrow> (case out of Reply status len \<Rightarrow> 500 \<le> status | NetError \<Rightarrow> True | OtherError \<Rightarrow> False)"

text \<open>One whole attempt, from starting the upstream request to what follows its outcome.\<close>

lemma one_attempt:
  assumes p: "proxy_ok cfg p" and ph: "phase_ok cfg rq (Ready b tried k)"
  shows "\<exists>p1 p2 ph'. begin_attempt cfg p b tried k = Inr (p1, Sending b tried k) \<and>
           end_attempt cfg rq p1 b tried k out lat now = Inr (p2, ph') \<and> proxy_ok cfg p2 \<and>
           ms_active (px_metrics p2) = ms_active (px_metrics p) \<and> ms_health (px_metrics p2) = ms_health (px_metrics p) \<and>
           px_buckets p2 = px_buckets p \<and> px_ring p2 = px_ring p \<and>
           ph' = (if failing out \<and> k = 0
                  then (case next_healthy cfg p2 tried of
                          Some alt \<Rightarrow> continue_with cfg rq alt tried k
                        | None \<Rightarrow> (case out of Reply s len \<Rightarrow> Finished (Relayed s b (k + 1) (vnode_counts (px_ring p) ! b))
                                   | _ \<Rightarrow> Finished (UpstreamFailed b)))
                  else (case out of Reply s len \<Rightarrow> Finished (Relayed s b (k + 1) (vnode_counts (px_ring p) ! b))
                          | _ \<Rightarrow> Finished (UpstreamFailed b)))"
proof -
  note d = proxy_okD[OF p]
  let ?act = "ms_active (px_metrics p)"
  let ?p1 = "set_px_metrics p ((px_metrics p)\<lparr>ms_active := ?act[b := ?act ! b + 1]\<rparr>)"
  note b1 = begin_ok[OF p ph]
  note d1 = proxy_okD[OF conjunct1[OF conjunct2[OF b1]]]
  have b: "b < px_n cfg" using ph by (simp add: phase_ok_def)
  have "0 \<le> ?act ! b" using d(2,7) b by (simp add: metrics_ok_def)
  then have act: "?act[b := max 0 (?act ! b + 1 - 1)] = ?act" by simp
  have e: "\<exists>m. record_request_end (px_metrics ?p1) (int b) lat e len now = Inr m \<and> metrics_ok m \<and>
      ms_n m = px_n cfg \<and> ms_health m = ms_health (px_metrics p) \<and> ms_active m = ?act" for e len
    using end_spec[OF d1(2), of b lat e len now] d1(4) b d(7) act by auto
  have ok: "proxy_ok cfg (set_px_metrics ?p1 m)" if "metrics_ok m" "ms_n m = px_n cfg" "ms_health m = ms_health (px_metrics p)" for m
    using set_metrics_ok[OF conjunct1[OF conjunct2[OF b1]] that(1,2)] that(3) by simp
  show ?thesis
  proof (cases out)
    case (Reply s len)
    obtain m where "record_request_end (px_metrics ?p1) (int b) lat (500 \<le> s) len now = Inr m" "metrics_ok m"
      "ms_n m = px_n cfg" "ms_health m = ms_health (px_metrics p)" "ms_active m = ?act"
      using e by blast
    then show ?thesis using b1 ok Reply by (simp add: end_attempt_def failing_def Let_def split: option.splits)
  next
    case NetError
    obtain m where "record_request_end (px_metrics ?p1) (int b) lat True 0 now = Inr m" "metrics_ok m"
      "ms_n m = px_n cfg" "ms_health m = ms_health (px_metrics p)" "ms_active m = ?act"
      using e by blast
    then show ?thesis using b1 ok NetError by (simp add: end_attempt_def failing_def Let_def split: option.splits)
  next
    case OtherError
    obtain m where "record_request_end (px_metrics ?p1) (int b) lat True 0 now = Inr m" "metrics_ok m"
      "ms_n m = px_n cfg" "ms_health m = ms_health (px_metrics p)" "ms_active m = ?act"
      using e by blast
    then show ?thesis using b1 ok OtherError by (simp add: end_attempt_def failing_def)
  qed
qed

lemma first_phase_ok: "b < px_n cfg \<Longrightarrow> phase_ok cfg rq (Ready b [b] 0)"
  using max_attempts_range(1)[of cfg rq] by (simp add: phase_ok_def)

section \<open>Properties\<close>

text \<open>
  C7. Failover: when the first backend of a retryable request fails (a 5xx reply, a connection error
  or a timeout) and another backend is healthy and answers, the client gets that answer, marked
  as the second attempt. The in-flight counters are back where they were, and no token is taken
  from the second backend: a retry is not rate limited.
\<close>

theorem failover_succeeds:
  assumes "proxy_ok cfg p" and "b < px_n cfg" and "alt < px_n cfg" and "alt \<noteq> b" and "ms_health (px_metrics p) ! alt"
    and "max_attempts cfg rq = 2" and "failing (at_outcome a1)" and "at_outcome a2 = Reply s len" and "s < 500"
  shows "\<exists>p' alt' v. run_attempts cfg rq [a1, a2] (p, Ready b [b] 0) = Inr (p', Finished (Relayed s alt' 2 v)) \<and>
           alt' \<noteq> b \<and> ms_health (px_metrics p) ! alt' \<and> px_buckets p' = px_buckets p \<and>
           ms_active (px_metrics p') = ms_active (px_metrics p)"
proof -
  obtain p1 p2 ph where 1: "begin_attempt cfg p b [b] 0 = Inr (p1, Sending b [b] 0)"
    "end_attempt cfg rq p1 b [b] 0 (at_outcome a1) (at_latency a1) (at_now a1) = Inr (p2, ph)" "proxy_ok cfg p2"
    "ms_active (px_metrics p2) = ms_active (px_metrics p)" "ms_health (px_metrics p2) = ms_health (px_metrics p)"
    "px_buckets p2 = px_buckets p"
    and ph: "\<And>x. next_healthy cfg p2 [b] = Some x \<Longrightarrow> ph = continue_with cfg rq x [b] 0"
    using one_attempt[OF assms(1) first_phase_ok[OF assms(2)], of rq "at_outcome a1" "at_latency a1" "at_now a1"] assms(7)
    by auto
  obtain x where x: "next_healthy cfg p2 [b] = Some x"
    using next_healthy_ex[of alt cfg "[b]" p2] assms(3-5) 1(5) by auto
  note xh = next_healthy_Some[OF x]
  have ready: "ph = Ready x [x, b] 1" using ph[OF x] assms(6) by (simp add: continue_with_def)
  have "phase_ok cfg rq (Ready x [x, b] 1)" using xh assms(6) by (simp add: phase_ok_def)
  from one_attempt[OF 1(3) this, of "at_outcome a2" "at_latency a2" "at_now a2"] obtain p3 p4 v where
    2: "begin_attempt cfg p2 x [x, b] 1 = Inr (p3, Sending x [x, b] 1)"
    "end_attempt cfg rq p3 x [x, b] 1 (at_outcome a2) (at_latency a2) (at_now a2) = Inr (p4, Finished (Relayed s x 2 v))"
    "ms_active (px_metrics p4) = ms_active (px_metrics p2)" "px_buckets p4 = px_buckets p2"
    using assms(8,9) by (auto simp: failing_def)
  have "run_attempts cfg rq [a1, a2] (p, Ready b [b] 0) = Inr (p4, Finished (Relayed s x 2 v))"
    using 1(1,2) 2(1,2) ready by simp
  then show ?thesis using xh 1(4-6) 2(3,4) by auto
qed

definition demo_proxy :: proxy where
  "demo_proxy = proxy_init demo_proxy_config (kan_new None) 0"

lemma upper_get: "map upper_char ''get'' = ''GET''"
  by code_simp

lemma demo_proxy_ok: "proxy_ok demo_proxy_config demo_proxy" "px_n demo_proxy_config = 2"
  "ms_health (px_metrics demo_proxy) = [True, True]"
  using proxy_init_ok[OF demo_config_ok]
  by (simp_all add: demo_proxy_def) (simp_all add: demo_proxy_config_def px_n_def proxy_init_def health_init_def numeral_2_eq_2)

theorem failover_succeeds_witness:
  "\<exists>p' alt' v. run_attempts demo_proxy_config \<lparr>rq_method = ''get'', rq_remote = None, rq_path = ''/''\<rparr>
     [\<lparr>at_outcome = NetError, at_latency = 1, at_now = 1\<rparr>, \<lparr>at_outcome = Reply 200 7, at_latency = 1, at_now = 2\<rparr>]
     (demo_proxy, Ready 0 [0] 0) = Inr (p', Finished (Relayed 200 alt' 2 v)) \<and> alt' \<noteq> 0"
proof -
  have "max_attempts demo_proxy_config \<lparr>rq_method = ''get'', rq_remote = None, rq_path = ''/''\<rparr> = 2"
    unfolding max_attempts_def request.simps upper_get by (simp add: IDEMPOTENT_METHODS_def)
  from failover_succeeds[OF demo_proxy_ok(1) _ _ _ _ this, of 0 1
      "\<lparr>at_outcome = NetError, at_latency = 1, at_now = 1\<rparr>" "\<lparr>at_outcome = Reply 200 7, at_latency = 1, at_now = 2\<rparr>" 200 7]
  show ?thesis using demo_proxy_ok(2,3) by (auto simp: failing_def)
qed

text \<open>
  C29. The reply to a request that may not be retried is lost when another backend is healthy: a
  POST whose backend answers with a 5xx status is told that all retries are exhausted, although
  no retry was made and a reply was received; only when no other backend is healthy does the
  client get the reply.
\<close>

theorem unretried_reply_lost:
  assumes "proxy_ok cfg p" and "b < px_n cfg" and "max_attempts cfg rq = 1" and "at_outcome a = Reply s len" and "500 \<le> s"
  shows "\<exists>p' v. run_attempts cfg rq [a] (p, Ready b [b] 0) =
           Inr (p', Finished (if \<exists>alt < px_n cfg. alt \<noteq> b \<and> ms_health (px_metrics p) ! alt then Exhausted
                              else Relayed s b 1 v))"
proof -
  obtain p1 p2 ph where 1: "begin_attempt cfg p b [b] 0 = Inr (p1, Sending b [b] 0)"
    "end_attempt cfg rq p1 b [b] 0 (at_outcome a) (at_latency a) (at_now a) = Inr (p2, ph)"
    "ms_health (px_metrics p2) = ms_health (px_metrics p)"
    and ph0: "ph = (if failing (at_outcome a) \<and> 0 = (0::nat)
                  then (case next_healthy cfg p2 [b] of
                          Some alt \<Rightarrow> continue_with cfg rq alt [b] 0
                        | None \<Rightarrow> (case at_outcome a of Reply s len \<Rightarrow> Finished (Relayed s b (0 + 1) (vnode_counts (px_ring p) ! b))
                                   | _ \<Rightarrow> Finished (UpstreamFailed b)))
                  else (case at_outcome a of Reply s len \<Rightarrow> Finished (Relayed s b (0 + 1) (vnode_counts (px_ring p) ! b))
                          | _ \<Rightarrow> Finished (UpstreamFailed b)))"
    using one_attempt[OF assms(1) first_phase_ok[OF assms(2)], of rq "at_outcome a" "at_latency a" "at_now a"] by blast
  have ph: "ph = (case next_healthy cfg p2 [b] of
                          Some alt \<Rightarrow> continue_with cfg rq alt [b] 0
                        | None \<Rightarrow> Finished (Relayed s b 1 (vnode_counts (px_ring p) ! b)))"
    using ph0 assms(4,5) by (simp add: failing_def split: option.splits)
  have "ph = Finished (if \<exists>alt < px_n cfg. alt \<noteq> b \<and> ms_health (px_metrics p) ! alt then Exhausted
                              else Relayed s b 1 (vnode_counts (px_ring p) ! b))"
  proof (cases "next_healthy cfg p2 [b]")
    case None
    then have "\<not> (\<exists>alt < px_n cfg. alt \<noteq> b \<and> ms_health (px_metrics p) ! alt)"
      using next_healthy_ex[of _ cfg "[b]" p2] 1(3) by fastforce
    then show ?thesis using ph None by simp
  next
    case (Some alt)
    then show ?thesis using ph next_healthy_Some[OF Some] 1(3) assms(3) by (auto simp: continue_with_def)
  qed
  then show ?thesis using 1(1,2) by (cases ph) auto
qed

theorem unretried_reply_lost_witness:
  "\<exists>p'. run_attempts demo_proxy_config \<lparr>rq_method = ''POST'', rq_remote = None, rq_path = ''/''\<rparr>
     [\<lparr>at_outcome = Reply 503 40, at_latency = 1, at_now = 1\<rparr>] (demo_proxy, Ready 0 [0] 0) = Inr (p', Finished Exhausted)"
proof -
  have "max_attempts demo_proxy_config \<lparr>rq_method = ''POST'', rq_remote = None, rq_path = ''/''\<rparr> = 1"
    by (simp add: max_attempts_def demo_proxy_config_def upper_char_def IDEMPOTENT_METHODS_def)
  from unretried_reply_lost[OF demo_proxy_ok(1) _ this, of 0 "\<lparr>at_outcome = Reply 503 40, at_latency = 1, at_now = 1\<rparr>" 503 40]
  show ?thesis using demo_proxy_ok(2,3) by (auto simp: less_2_cases_iff simp del: run_attempts.simps intro!: exI[of _ 1])
qed

end
