(* ===== verification/Config_Loader.thy ===== *)
theory Config_Loader
  imports Proxy_Requests
begin

text \<open>
  Start-up of \<open>demo/proxy.py\<close>: \<open>_load_config\<close>, which merges the user's file over the defaults, and
  the module constants read from the result. The parsed file is a value of \<open>Py_Value\<close>; what the
  file system, the YAML package and the environment answer are arguments.
\<close>

section \<open>Loading and merging\<close>

definition default_backend :: "int \<Rightarrow> string \<Rightarrow> string \<Rightarrow> py_val" where
  "default_backend port name zone =
     PDict [(''host'', PStr ''127.0.0.1''), (''port'', PInt port), (''name'', PStr name), (''zone'', PStr zone)]"

definition config_defaults :: "(string \<times> py_val) list" where
  "config_defaults =
     [(''proxy'', PDict [(''host'', PStr ''127.0.0.1''), (''port'', PInt 8080)]),
      (''backends'', PList
        [default_backend 9000 ''backend-0'' ''local-a'', default_backend 9001 ''backend-1'' ''local-b'',
         default_backend 9002 ''backend-2'' ''local-c'', default_backend 9003 ''backend-3'' ''local-a'']),
      (''kan'', PDict [(''model_path'', PStr ''ml/models/kan_actor.onnx'')]),
      (''cbf'', PDict [(''cap'', PFloat (80/100)), (''lambda'', PFloat (5/10))]),
      (''rate_limiting'', PDict [(''initial_rps'', PInt 1000), (''min_rps'', PInt 100), (''max_rps'', PInt 5000)])]"

definition merge_entry :: "(string \<times> py_val) list \<Rightarrow> string \<times> py_val \<Rightarrow> (string \<times> py_val) list" where
  \<comment> \<open>two dicts are merged one level deep, anything else is replaced\<close>
  "merge_entry cfg kv =
     (case kv of (k, v) \<Rightarrow>
        (case (v, map_of cfg k) of
           (PDict new, Some (PDict old)) \<Rightarrow> dict_put cfg k (PDict (dict_update old new))
         | _ \<Rightarrow> dict_put cfg k v))"

fun merge_user :: "(string \<times> py_val) list \<Rightarrow> py_val \<Rightarrow> py_err + (string \<times> py_val) list" where
  "merge_user cfg (PDict kvs) = Inr (foldl merge_entry cfg kvs)"
| "merge_user cfg _ = Inl AttributeError"

datatype yaml_read =
    Yaml py_val
  | Yaml_missing \<comment> \<open>the package cannot be imported\<close>
  | Yaml_error \<comment> \<open>the file cannot be read or parsed\<close>

record config_files =
  cf_exists :: bool
  cf_yaml :: yaml_read
  cf_json :: "(py_err + py_val) option" \<comment> \<open>the fallback file, if there is one\<close>

definition load_config :: "config_files \<Rightarrow> py_err + (string \<times> py_val) list" where
  "load_config files =
     (if \<not> cf_exists files then Inr config_defaults
      else case cf_yaml files of
             Yaml v \<Rightarrow> merge_user config_defaults (if truthy v then v else PDict [])
           | Yaml_missing \<Rightarrow>
               (case cf_json files of
                  None \<Rightarrow> Inr config_defaults
                | Some (Inl e) \<Rightarrow> Inl e
                | Some (Inr v) \<Rightarrow> merge_user config_defaults v)
           | Yaml_error \<Rightarrow> Inr config_defaults)"

section \<open>The module constants\<close>

fun py_iter :: "py_val \<Rightarrow> py_err + py_val list" where
  \<comment> \<open>what a \<open>for\<close> loop visits\<close>
  "py_iter (PList vs) = Inr vs"
| "py_iter (PDict kvs) = Inr (map (PStr \<circ> fst) kvs)"
| "py_iter (PStr s) = Inr (map (\<lambda>c. PStr [c]) s)"
| "py_iter _ = Inl TypeError"

record settings =
  st_host :: py_val
  st_port :: int
  st_backends :: "(py_val \<times> int) list"
  st_names :: "py_val list"
  st_zones :: "py_val list"
  st_kan_model :: string
  st_cap :: real
  st_lam :: real
  st_init_rps :: real
  st_min_rps :: real
  st_max_rps :: real
  st_tls_cert :: py_val
  st_tls_key :: py_val
  st_tls_upstream :: py_val
  st_admin_token :: py_val
  st_admin_allowlist :: py_val
  st_admin_rate_limit :: int
  st_retry_idempotent_only :: py_val

record env_vars =
  ev_admin_token :: "string option"
  ev_admin_allowlist :: "string option"
  ev_admin_rate_limit :: "string option"

definition read_backend :: "py_val \<Rightarrow> py_err + py_val \<times> int" where
  "read_backend b =
     bindE (py_item b ''host'') (\<lambda>h. bindE (py_item b ''port'') (\<lambda>p. bindE (to_int p) (\<lambda>p. Inr (h, p))))"

definition read_backends :: "py_val \<Rightarrow> py_err + (py_val \<times> int) list \<times> py_val list \<times> py_val list" where
  "read_backends cfg =
     bindE (py_item cfg ''backends'') (\<lambda>bs.
     bindE (py_iter bs) (\<lambda>bs.
     bindE (mapE read_backend bs) (\<lambda>backends.
     bindE (mapE (\<lambda>(i, b). py_dot_get b ''name'' (PStr (''backend-'' @ nat_str i))) (zip [0..<length bs] bs)) (\<lambda>names.
     bindE (mapE (\<lambda>b. py_dot_get b ''zone'' (PStr ''local'')) bs) (\<lambda>zones.
       Inr (backends, names, zones))))))"

fun path_part :: "py_val \<Rightarrow> py_err + string" where
  \<comment> \<open>the last argument of \<open>os.path.join\<close>\<close>
  "path_part (PStr s) = Inr s"
| "path_part _ = Inl TypeError"

definition read_limits :: "py_val \<Rightarrow> py_err + string \<times> real \<times> real \<times> real \<times> real \<times> real" where
  \<comment> \<open>\<open>_KAN_MODEL\<close> to \<open>_MAX_RPS\<close>\<close>
  "read_limits cfg =
     bindE (bindE (bindE (py_item cfg ''kan'') (\<lambda>k. py_item k ''model_path'')) path_part) (\<lambda>model.
     bindE (bindE (bindE (py_item cfg ''cbf'') (\<lambda>c. py_item c ''cap'')) to_float) (\<lambda>cap.
     bindE (bindE (bindE (py_item cfg ''cbf'') (\<lambda>c. py_dot_get c ''lambda'' (PFloat (5/10)))) to_float) (\<lambda>lam.
     bindE (bindE (bindE (py_item cfg ''rate_limiting'') (\<lambda>r. py_item r ''initial_rps'')) to_float) (\<lambda>init.
     bindE (bindE (bindE (py_item cfg ''rate_limiting'') (\<lambda>r. py_dot_get r ''min_rps'' (PInt 100))) to_float) (\<lambda>min_rps.
     bindE (bindE (bindE (py_item cfg ''rate_limiting'') (\<lambda>r. py_dot_get r ''max_rps'' (PInt 5000))) to_float) (\<lambda>max_rps.
       Inr (model, cap, lam, init, min_rps, max_rps)))))))"

definition read_admin :: "py_val \<Rightarrow> env_vars \<Rightarrow> py_err + py_val \<times> py_val \<times> int" where
  \<comment> \<open>token, allowlist and limit; the configuration is consulted even when the variable is set\<close>
  "read_admin cfg env =
     bindE (bindE (py_dot_get cfg ''admin'' (PDict [])) (\<lambda>a. py_dot_get a ''token'' PNone)) (\<lambda>tok.
     bindE (case ev_admin_allowlist env of
              Some raw \<Rightarrow>
                if raw \<noteq> [] then Inr (PList (map PStr (filter (\<lambda>p. p \<noteq> []) (map strip (split_on CHR '','' raw)))))
                else bindE (py_dot_get cfg ''admin'' (PDict []))
                       (\<lambda>a. py_dot_get a ''allowlist'' (PList (map PStr DEFAULT_ALLOWLIST)))
            | None \<Rightarrow> bindE (py_dot_get cfg ''admin'' (PDict []))
                       (\<lambda>a. py_dot_get a ''allowlist'' (PList (map PStr DEFAULT_ALLOWLIST)))) (\<lambda>allow.
     bindE (bindE (py_dot_get cfg ''admin'' (PDict [])) (\<lambda>a. py_dot_get a ''rate_limit_per_min'' (PInt 60))) (\<lambda>lim.
     bindE (to_int (case ev_admin_rate_limit env of None \<Rightarrow> lim | Some s \<Rightarrow> PStr s)) (\<lambda>lim.
       Inr (case ev_admin_token env of None \<Rightarrow> tok | Some s \<Rightarrow> PStr s, allow, lim)))))"

definition read_settings :: "(string \<times> py_val) list \<Rightarrow> env_vars \<Rightarrow> py_err + settings" where
  \<comment> \<open>in the order of the module's statements\<close>
  "read_settings d env =
     (let cfg = PDict d in
      bindE (bindE (py_item cfg ''proxy'') (\<lambda>p. py_item p ''host'')) (\<lambda>host.
      bindE (bindE (bindE (py_item cfg ''proxy'') (\<lambda>p. py_item p ''port'')) to_int) (\<lambda>port.
      bindE (read_backends cfg) (\<lambda>(backends, names, zones).
      bindE (read_limits cfg) (\<lambda>(model, cap, lam, init, min_rps, max_rps).
      bindE (bindE (py_dot_get cfg ''tls'' (PDict [])) (\<lambda>t. py_dot_get t ''cert_file'' PNone)) (\<lambda>cert.
      bindE (bindE (py_dot_get cfg ''tls'' (PDict [])) (\<lambda>t. py_dot_get t ''key_file'' PNone)) (\<lambda>key.
      bindE (bindE (py_dot_get cfg ''tls'' (PDict [])) (\<lambda>t. py_dot_get t ''upstream_tls'' (PBool False))) (\<lambda>up.
      bindE (read_admin cfg env) (\<lambda>(tok, allow, lim).
      bindE (bindE (py_dot_get cfg ''proxy'' (PDict [])) (\<lambda>p. py_dot_get p ''retry_idempotent_only'' (PBool True))) (\<lambda>retry.
        Inr \<lparr>st_host = host, st_port = port, st_backends = backends, st_names = names, st_zones = zones,
             st_kan_model = model, st_cap = cap, st_lam = lam, st_init_rps = init, st_min_rps = min_rps,
             st_max_rps = max_rps, st_tls_cert = cert, st_tls_key = key, st_tls_upstream = up,
             st_admin_token = tok, st_admin_allowlist = allow, st_admin_rate_limit = lim,
             st_retry_idempotent_only = retry\<rparr>))))))))))"

fun host_text :: "py_val \<Rightarrow> string" where
  \<comment> \<open>the host of an address; one that is not a string fails only when it is connected to\<close>
  "host_text (PStr s) = s"
| "host_text _ = []"

definition proxy_config_of :: "settings \<Rightarrow> proxy_config" where
  \<comment> \<open>the constants the proxy's components are built from\<close>
  "proxy_config_of s =
     \<lparr>pc_backends = map (\<lambda>(h, p). (host_text h, p)) (st_backends s), pc_cap = st_cap s, pc_lam = st_lam s,
      pc_initial_rps = st_init_rps s, pc_limits = \<lparr>rl_min = st_min_rps s, rl_max = st_max_rps s\<rparr>,
      pc_retry_idempotent_only = truthy (st_retry_idempotent_only s)\<rparr>"

definition start_config :: "config_files \<Rightarrow> env_vars \<Rightarrow> py_err + settings" where
  "start_config files env = bindE (load_config files) (\<lambda>d. read_settings d env)"

definition uses_tls :: "settings \<Rightarrow> bool" where
  \<comment> \<open>whether \<open>run_proxy\<close> listens with TLS\<close>
  "uses_tls s \<longleftrightarrow> truthy (st_tls_cert s) \<and> truthy (st_tls_key s)"

section \<open>The allowlist of the configuration\<close>

definition network_item :: "py_val \<Rightarrow> ip_net option" where
  \<comment> \<open>\<open>ip_network(item, strict=False)\<close> on any item; integers are addresses, other objects are not
      networks\<close>
  "network_item v =
     (let from_int = (\<lambda>k. if 0 \<le> k \<and> k < 2 ^ 32 then Some (Net 32 (nat k) 32)
                          else if 0 \<le> k \<and> k < 2 ^ 128 then Some (Net 128 (nat k) 128) else None)
      in case v of PStr s \<Rightarrow> ip_network s | PInt k \<Rightarrow> from_int k | PBool b \<Rightarrow> from_int (if b then 1 else 0) | _ \<Rightarrow> None)"

definition settings_nets :: "settings \<Rightarrow> py_err + ip_net list" where
  \<comment> \<open>\<open>_ADMIN_ALLOWLIST_NETS\<close>\<close>
  "settings_nets s = bindE (py_iter (st_admin_allowlist s)) (\<lambda>items. Inr (List.map_filter network_item items))"

lemma settings_nets_strings:
  "st_admin_allowlist s = PList (map PStr xs) \<Longrightarrow> settings_nets s = Inr (parse_admin_networks xs)"
  by (simp add: settings_nets_def parse_admin_networks_def network_item_def List.map_filter_def comp_def filter_map)

lemma ip_network_char: "ip_network [c] = None"
proof -
  have v4: "parse_ipv4 s = None" if "length s \<le> 1" for s
  proof -
    have "length (split_on CHR ''.'' s) \<le> 2" using that by (cases s) auto
    then show ?thesis by (simp add: parse_ipv4_def Let_def)
  qed
  have v6: "parse_ipv6 s = None" if "length s \<le> 1" for s
  proof -
    have "length (split_on CHR '':'' s) \<le> 2" using that by (cases s) auto
    then show ?thesis by (simp add: parse_ipv6_def ipv6_parts_def Let_def)
  qed
  show ?thesis by (cases "c = CHR ''/''") (simp_all add: ip_network_def ip_address_def v4 v6)
qed

section \<open>Merging\<close>

definition cfg_lookup :: "(string \<times> py_val) list \<Rightarrow> string \<Rightarrow> string \<Rightarrow> py_val option" where
  "cfg_lookup d sec key = (case map_of d sec of Some (PDict kvs) \<Rightarrow> map_of kvs key | _ \<Rightarrow> None)"

definition merged :: "py_val option \<Rightarrow> py_val \<Rightarrow> py_val" where
  "merged old v = (case (v, old) of (PDict new, Some (PDict kvs)) \<Rightarrow> PDict (dict_update kvs new) | _ \<Rightarrow> v)"

lemma merge_entry_lookup: "map_of (merge_entry d (k, v)) = (map_of d)(k \<mapsto> merged (map_of d k) v)"
  by (auto simp: merge_entry_def merged_def map_of_dict_put split: py_val.split option.split)

lemma merge_entries_lookup:
  "distinct (map fst kvs) \<Longrightarrow>
   map_of (foldl merge_entry d kvs) k = (case map_of kvs k of None \<Rightarrow> map_of d k | Some v \<Rightarrow> Some (merged (map_of d k) v))"
proof (induction kvs arbitrary: d)
  case (Cons kv kvs)
  obtain a v where kv: "kv = (a, v)" by (cases kv)
  have "map_of kvs a = None" using Cons.prems by (simp add: kv map_of_eq_None_iff)
  then show ?case using Cons.IH[of "merge_entry d (a, v)"] Cons.prems by (auto simp: kv merge_entry_lookup split: option.split)
qed simp

section \<open>Properties\<close>

text \<open>
  Merging the user's configuration: a section the file does not name keeps its defaults, a section
  that is a mapping on both sides overrides entry by entry, and anything else replaces the section
  as a whole.
\<close>
theorem user_config_overrides:
  assumes "cf_exists files" and "cf_yaml files = Yaml (PDict user)" and "distinct (map fst user)"
  shows "\<exists>d. load_config files = Inr d \<and>
    (\<forall>sec. case map_of user sec of
             None \<Rightarrow> map_of d sec = map_of config_defaults sec
           | Some (PDict kvs) \<Rightarrow>
               (\<forall>old. map_of config_defaults sec = Some (PDict old) \<longrightarrow>
                 (\<forall>key. cfg_lookup d sec key =
                   (case map_of (rev kvs) key of Some v \<Rightarrow> Some v | None \<Rightarrow> cfg_lookup config_defaults sec key)))
           | Some v \<Rightarrow> map_of d sec = Some v)"
proof -
  define d where "d = foldl merge_entry config_defaults user"
  have "load_config files = Inr d"
    using assms(1,2) by (cases user) (simp_all add: load_config_def d_def)
  moreover have "map_of d sec = (case map_of user sec of None \<Rightarrow> map_of config_defaults sec
      | Some v \<Rightarrow> Some (merged (map_of config_defaults sec) v))" for sec
    unfolding d_def by (rule merge_entries_lookup[OF assms(3)])
  ultimately show ?thesis
    by (auto simp: cfg_lookup_def merged_def map_of_dict_update split: option.splits py_val.splits)
qed

theorem user_config_overrides_witness:
  "\<exists>d. load_config \<lparr>cf_exists = True, cf_yaml = Yaml (PDict [(''cbf'', PDict [(''cap'', PFloat (9/10))])]), cf_json = None\<rparr> = Inr d \<and>
     cfg_lookup d ''cbf'' ''cap'' = Some (PFloat (9/10)) \<and> cfg_lookup d ''cbf'' ''lambda'' = Some (PFloat (5/10)) \<and>
     map_of d ''kan'' = map_of config_defaults ''kan''"
proof -
  obtain d where d: "load_config \<lparr>cf_exists = True, cf_yaml = Yaml (PDict [(''cbf'', PDict [(''cap'', PFloat (9/10))])]), cf_json = None\<rparr> = Inr d"
    "\<forall>sec. case map_of [(''cbf'', PDict [(''cap'', PFloat (9/10))])] sec of
             None \<Rightarrow> map_of d sec = map_of config_defaults sec
           | Some (PDict kvs) \<Rightarrow>
               (\<forall>old. map_of config_defaults sec = Some (PDict old) \<longrightarrow>
                 (\<forall>key. cfg_lookup d sec key =
                   (case map_of (rev kvs) key of Some v \<Rightarrow> Some v | None \<Rightarrow> cfg_lookup config_defaults sec key)))
           | Some v \<Rightarrow> map_of d sec = Some v"
    using user_config_overrides[of "\<lparr>cf_exists = True, cf_yaml = Yaml (PDict [(''cbf'', PDict [(''cap'', PFloat (9/10))])]), cf_json = None\<rparr>"
        "[(''cbf'', PDict [(''cap'', PFloat (9/10))])]"] by auto
  show ?thesis
    using d(1) d(2)[rule_format, of "''cbf''"] d(2)[rule_format, of "''kan''"]
    by (simp add: config_defaults_def cfg_lookup_def)
qed

definition no_env :: env_vars where
  "no_env = \<lparr>ev_admin_token = None, ev_admin_allowlist = None, ev_admin_rate_limit = None\<rparr>"

text \<open>
  Without a configuration file, or with one that cannot be read or parsed as YAML, the proxy
  starts with the four default backends, a configuration all of its components accept, no admin
  token and the loopback allowlist.
\<close>
theorem defaults_start_the_proxy:
  assumes "\<not> cf_exists files \<or> cf_yaml files = Yaml_error \<or> (cf_yaml files = Yaml_missing \<and> cf_json files = None)"
  shows "\<exists>s. start_config files no_env = Inr s \<and> config_ok (proxy_config_of s) \<and> px_n (proxy_config_of s) = 4 \<and>
    settings_nets s = Inr (parse_admin_networks DEFAULT_ALLOWLIST) \<and> \<not> truthy (st_admin_token s) \<and>
    st_admin_rate_limit s = 60 \<and> pc_retry_idempotent_only (proxy_config_of s) \<and> \<not> uses_tls s"
proof -
  have "load_config files = Inr config_defaults" using assms by (auto simp: load_config_def)
  moreover have "\<exists>s. read_settings config_defaults no_env = Inr s \<and> st_admin_allowlist s = PList (map PStr DEFAULT_ALLOWLIST) \<and>
      st_backends s = map (\<lambda>p. (PStr ''127.0.0.1'', p)) [9000, 9001, 9002, 9003] \<and> st_lam s = 5/10 \<and> st_min_rps s = 100 \<and>
      st_max_rps s = 5000 \<and> st_admin_token s = PNone \<and> st_admin_rate_limit s = 60 \<and>
      st_retry_idempotent_only s = PBool True \<and> st_tls_cert s = PNone"
    by (simp add: read_settings_def config_defaults_def default_backend_def read_backends_def read_backend_def
        read_limits_def read_admin_def no_env_def upt_rec)
  ultimately show ?thesis
    using settings_nets_strings
    by (auto simp: start_config_def proxy_config_of_def config_ok_def px_n_def uses_tls_def)
qed

theorem defaults_start_the_proxy_witness:
  "\<exists>s. start_config \<lparr>cf_exists = True, cf_yaml = Yaml_error, cf_json = None\<rparr> no_env = Inr s \<and> config_ok (proxy_config_of s)"
  using defaults_start_the_proxy[of "\<lparr>cf_exists = True, cf_yaml = Yaml_error, cf_json = None\<rparr>"] by auto

text \<open>
  A file that parses to something other than a mapping, or a fallback file that is not JSON, stops
  the start-up with an exception.
\<close>
theorem odd_config_stops_start:
  assumes "cf_exists files"
    and "(\<exists>v. cf_yaml files = Yaml v \<and> truthy v \<and> (\<forall>kvs. v \<noteq> PDict kvs)) \<or>
         (\<exists>e. cf_yaml files = Yaml_missing \<and> cf_json files = Some (Inl e))"
  shows "\<exists>e. start_config files env = Inl e"
proof -
  have "merge_user d v = Inl AttributeError" if "\<forall>kvs. v \<noteq> PDict kvs" for d v
    using that by (cases v) simp_all
  then show ?thesis using assms by (auto simp: start_config_def load_config_def)
qed

theorem odd_config_stops_start_witness:
  "\<exists>e. start_config \<lparr>cf_exists = True, cf_yaml = Yaml (PStr ''proxy''), cf_json = None\<rparr> no_env = Inl e"
  by (rule odd_config_stops_start) simp_all

text \<open>
  Rates are not checked against each other: a file whose minimum exceeds its maximum is accepted,
  and the components get a configuration outside their contract.
\<close>
theorem inverted_rates_accepted:
  assumes "5000 < k"
  shows "\<exists>s. start_config \<lparr>cf_exists = True, cf_yaml = Yaml (PDict [(''rate_limiting'', PDict [(''min_rps'', PInt k)])]),
      cf_json = None\<rparr> no_env = Inr s \<and> rl_max (pc_limits (proxy_config_of s)) < rl_min (pc_limits (proxy_config_of s)) \<and>
      \<not> config_ok (proxy_config_of s)"
  using assms
  by (simp add: start_config_def load_config_def merge_entry_def read_settings_def config_defaults_def
      default_backend_def read_backends_def read_backend_def read_limits_def read_admin_def no_env_def
      dict_update_def upt_rec proxy_config_of_def config_ok_def)

theorem inverted_rates_accepted_witness:
  "\<exists>s. start_config \<lparr>cf_exists = True, cf_yaml = Yaml (PDict [(''rate_limiting'', PDict [(''min_rps'', PInt 6000)])]),
      cf_json = None\<rparr> no_env = Inr s \<and> \<not> config_ok (proxy_config_of s)"
  using inverted_rates_accepted[of 6000] by auto

text \<open>
  An allowlist given as a single string instead of a list is read character by character; no
  character is a network, so the list of networks is empty and every address is admitted.
\<close>
theorem scalar_allowlist_fails_open:
  assumes "st_admin_allowlist s = PStr txt"
  shows "\<exists>nets. settings_nets s = Inr nets \<and> (\<forall>ip. is_ip_allowed nets ip)"
proof -
  have "List.map_filter network_item (map (\<lambda>c. PStr [c]) txt) = []"
    by (simp add: List.map_filter_def network_item_def Let_def ip_network_char filter_empty_conv)
  then show ?thesis using assms by (auto simp: settings_nets_def is_ip_allowed_def)
qed

theorem scalar_allowlist_fails_open_witness:
  "\<exists>s nets. start_config \<lparr>cf_exists = True, cf_yaml = Yaml (PDict [(''admin'', PDict [(''allowlist'', PStr ''10.0.0.0/8'')])]),
      cf_json = None\<rparr> no_env = Inr s \<and> settings_nets s = Inr nets \<and> is_ip_allowed nets (Some ''203.0.113.9'')"
proof -
  obtain s where s: "start_config \<lparr>cf_exists = True, cf_yaml = Yaml (PDict [(''admin'', PDict [(''allowlist'', PStr ''10.0.0.0/8'')])]),
      cf_json = None\<rparr> no_env = Inr s" "st_admin_allowlist s = PStr ''10.0.0.0/8''"
    by (simp add: start_config_def load_config_def merge_entry_def read_settings_def config_defaults_def
      default_backend_def read_backends_def read_backend_def read_limits_def read_admin_def no_env_def
      dict_update_def upt_rec)
  then show ?thesis using scalar_allowlist_fails_open[OF s(2)] by auto
qed

end
