(* ===== verification/Sim_Env.thy ===== *)
theory Sim_Env
  imports Omega_Prelude
begin

text \<open>
  The training environment \<open>LBSimEnv\<close> of \<open>ml/simulation/lb_env.py\<close>: queues fed by a sinusoidal
  traffic split by the routing weights, the observation vector and the shaped reward. The draws
  of the random generator (initial loads and the exponential noise of a step) are arguments.
\<close>

section \<open>Configuration and state\<close>

record sim_config =
  sc_num_backends :: nat
  sc_alpha :: real
  sc_beta :: real
  sc_gamma_r :: real
  sc_delta :: real
  sc_episode_len :: nat
  sc_base_rps :: real
  sc_amp_rps :: real
  sc_rps_period :: real
  sc_capacity :: real
  sc_service_rate :: real
  sc_hard_floor_cpu :: real
  sc_hard_floor_error :: real
  sc_hard_floor_p99_ms :: real
  sc_deceptive_servers :: "int list"

definition sim_default :: "nat \<Rightarrow> sim_config" where
  "sim_default n =
     \<lparr>sc_num_backends = n, sc_alpha = 1/100, sc_beta = 1/10, sc_gamma_r = 1/1000, sc_delta = 1,
      sc_episode_len = 2048, sc_base_rps = 500, sc_amp_rps = 300, sc_rps_period = 100,
      sc_capacity = 100, sc_service_rate = 10, sc_hard_floor_cpu = 95/100, sc_hard_floor_error = 1/100,
      sc_hard_floor_p99_ms = 500, sc_deceptive_servers = []\<rparr>"

definition state_dim :: "sim_config \<Rightarrow> nat" where
  "state_dim cfg = sc_num_backends cfg * 8 + 4"

record sim_env =
  se_cfg :: sim_config
  se_loads :: "real list"
  se_capacities :: "real list"
  se_step_count :: nat
  se_admitted_rps :: real
  se_rejected_rps :: real

definition sim_init :: "sim_config \<Rightarrow> sim_env" where
  "sim_init cfg =
     \<lparr>se_cfg = cfg, se_loads = replicate (sc_num_backends cfg) 0,
      se_capacities = replicate (sc_num_backends cfg) (sc_capacity cfg),
      se_step_count = 0, se_admitted_rps = 0, se_rejected_rps = 0\<rparr>"

definition cpu_of :: "sim_env \<Rightarrow> real list" where
  "cpu_of e = map2 (/) (se_loads e) (se_capacities e)"

definition server_features :: "real \<Rightarrow> real \<Rightarrow> real list" where
  \<comment> \<open>the eight entries of one backend, from its cpu and its load\<close>
  "server_features cpu load =
     [cpu, load, max 0 (load - 50), cpu * 100, load * 1024, load * 512, 1, max 0 ((cpu - 8/10) * (5/10))]"

definition env_state :: "sim_env \<Rightarrow> real list" where
  "env_state e =
     (let cpu = cpu_of e; t = real (se_step_count e) / 2000
      in concat (map2 server_features cpu (se_loads e))
         @ [sum_list (se_loads e), np_max cpu * 200, sin (2 * pi * t), cos (2 * pi * t)])"

definition sim_reset :: "sim_env \<Rightarrow> real list \<Rightarrow> sim_env \<times> real list" where
  \<comment> \<open>\<open>us\<close> are the draws of \<open>rng.uniform(0, 0.3, n)\<close>\<close>
  "sim_reset e us =
     (let e = e\<lparr>se_loads := map2 (*) us (se_capacities e), se_step_count := 0, se_admitted_rps := 0, se_rejected_rps := 0\<rparr>
      in (e, env_state e))"

section \<open>A step\<close>

definition normalise_weights :: "nat \<Rightarrow> real list \<Rightarrow> real list" where
  "normalise_weights n weights =
     (let total_w = sum_list weights
      in if total_w < 1 / 10 ^ 9 then replicate n (1 / real n) else map (\<lambda>w. w / total_w) weights)"

definition traffic :: "sim_config \<Rightarrow> nat \<Rightarrow> real" where
  "traffic cfg t = sc_base_rps cfg + sc_amp_rps cfg * sin (real t / sc_rps_period cfg)"

definition queue_update :: "real \<Rightarrow> real list \<Rightarrow> real list \<Rightarrow> real list \<Rightarrow> real list" where
  \<comment> \<open>arrivals in, the service rate out, between zero and 1.2 times the capacity\<close>
  "queue_update service_rate capacities loads arrivals =
     map2 (\<lambda>l c. min l (c * (12/10)))
       (map2 (\<lambda>l a. max 0 (l + a - service_rate)) loads arrivals) capacities"

definition effective_latency :: "sim_config \<Rightarrow> real list \<Rightarrow> real list" where
  \<comment> \<open>a tenfold spike for deceptive servers above 60 per cent\<close>
  "effective_latency cfg cpu =
     foldl (\<lambda>lat i. if 0 \<le> i \<and> i < int (sc_num_backends cfg) \<and> cpu ! nat i > 60/100
                    then lat[nat i := cpu ! nat i * 1000] else lat)
       (map (\<lambda>c. c * 100) cpu) (sc_deceptive_servers cfg)"

definition np_var :: "real list \<Rightarrow> real" where
  "np_var xs = vmean (map (\<lambda>x. (x - vmean xs)\<^sup>2) xs)"

definition REJECTION_RATE_WARN :: real where "REJECTION_RATE_WARN = 30/100"
definition REJECTION_RATE_PENALTY :: real where "REJECTION_RATE_PENALTY = 300"

definition soft_reward :: "sim_config \<Rightarrow> real \<Rightarrow> real \<Rightarrow> real \<Rightarrow> real \<Rightarrow> real" where
  "soft_reward cfg p99_ms variance total_rps violations =
     - sc_alpha cfg * p99_ms - sc_beta cfg * variance * 100 + sc_gamma_r cfg * total_rps / 10 - sc_delta cfg * violations"

definition floor_penalty :: "sim_config \<Rightarrow> real \<Rightarrow> real \<Rightarrow> real \<Rightarrow> real" where
  \<comment> \<open>the three cliff penalties\<close>
  "floor_penalty cfg max_cpu error_rate p99_ms =
     (if max_cpu > sc_hard_floor_cpu cfg then 1000 else 0) + (if error_rate > sc_hard_floor_error cfg then 500 else 0)
     + (if p99_ms > sc_hard_floor_p99_ms cfg then 200 else 0)"

record sim_info =
  si_total_rps :: real
  si_p99_ms :: real
  si_cpu :: "real list"
  si_violations :: real
  si_error_rate :: real
  si_rejection_rate :: real
  si_reward_hacking_penalty :: real
  si_deceptive_servers_active :: "int list"

record sim_result =
  sr_env :: sim_env
  sr_state :: "real list"
  sr_reward :: real
  sr_terminated :: bool
  sr_truncated :: bool
  sr_info :: sim_info

definition sim_step :: "sim_env \<Rightarrow> real list \<Rightarrow> real \<Rightarrow> sim_result" where
  \<comment> \<open>\<open>noise\<close> is the draw of \<open>rng.exponential(5)\<close>\<close>
  "sim_step e weights noise =
     (let cfg = se_cfg e;
          w = normalise_weights (sc_num_backends cfg) weights;
          total_rps = traffic cfg (se_step_count e);
          arrivals = map (\<lambda>x. x * total_rps) w;
          loads = queue_update (sc_service_rate cfg) (se_capacities e) (se_loads e) arrivals;
          e = e\<lparr>se_loads := loads\<rparr>;
          cpu = cpu_of e;
          p99_ms = np_max (effective_latency cfg cpu) + noise;
          variance = np_var cpu;
          violations = of_bool (\<exists>c \<in> set cpu. c > 1);
          error_rate = vmean (map (\<lambda>c. max 0 ((c - 8/10) * (5/10))) cpu);
          admitted = sum_list arrivals;
          rejected = sum_list (map2 (\<lambda>a room. max 0 (a - room)) arrivals
                                 (map2 (\<lambda>c l. max 0 (c - l)) (se_capacities e) loads));
          adm = 9/10 * se_admitted_rps e + 1/10 * admitted;
          rej = 9/10 * se_rejected_rps e + 1/10 * rejected;
          e = e\<lparr>se_admitted_rps := adm, se_rejected_rps := rej\<rparr>;
          reward = soft_reward cfg p99_ms variance total_rps violations - floor_penalty cfg (np_max cpu) error_rate p99_ms;
          rejection_rate = rej / max (adm + rej) 1;
          reward = (if rejection_rate > REJECTION_RATE_WARN
                    then reward - REJECTION_RATE_PENALTY * (rejection_rate - REJECTION_RATE_WARN) else reward);
          e = e\<lparr>se_step_count := se_step_count e + 1\<rparr>
      in \<lparr>sr_env = e, sr_state = env_state e, sr_reward = reward, sr_terminated = False,
          sr_truncated = (se_step_count e \<ge> sc_episode_len cfg),
          sr_info = \<lparr>si_total_rps = total_rps, si_p99_ms = p99_ms, si_cpu = cpu, si_violations = violations,
            si_error_rate = error_rate, si_rejection_rate = rejection_rate,
            si_reward_hacking_penalty = REJECTION_RATE_PENALTY * max 0 (rejection_rate - REJECTION_RATE_WARN),
            si_deceptive_servers_active =
              filter (\<lambda>i. 0 \<le> i \<and> i < int (sc_num_backends cfg) \<and> cpu ! nat i > 60/100) (sc_deceptive_servers cfg)\<rparr>\<rparr>)"

definition step_compat :: "sim_env \<Rightarrow> real list \<Rightarrow> real \<Rightarrow> sim_env \<times> real list \<times> real \<times> bool" where
  "step_compat e weights noise =
     (let r = sim_step e weights noise in (sr_env r, sr_state r, sr_reward r, sr_terminated r \<or> sr_truncated r))"

section \<open>The invariant\<close>

definition sim_config_ok :: "sim_config \<Rightarrow> bool" where
  "sim_config_ok cfg \<longleftrightarrow> 0 < sc_num_backends cfg \<and> 0 < sc_capacity cfg \<and> 0 \<le> sc_amp_rps cfg \<and> sc_amp_rps cfg \<le> sc_base_rps cfg"

definition sim_ok :: "sim_env \<Rightarrow> bool" where
  "sim_ok e \<longleftrightarrow> sim_config_ok (se_cfg e) \<and>
     se_capacities e = replicate (sc_num_backends (se_cfg e)) (sc_capacity (se_cfg e)) \<and>
     length (se_loads e) = sc_num_backends (se_cfg e) \<and>
     (\<forall>l \<in> set (se_loads e). 0 \<le> l \<and> l \<le> 12/10 * sc_capacity (se_cfg e)) \<and>
     0 \<le> se_admitted_rps e \<and> 0 \<le> se_rejected_rps e"

lemma length_queue_update [vec_simps, simp]:
  "length (queue_update s caps loads arr) = min (min (length loads) (length arr)) (length caps)"
  by (simp add: queue_update_def)

lemma queue_update_range:
  assumes "length arr = n" and "length loads = n" and "l \<in> set (queue_update s (replicate n c) loads arr)" and "0 \<le> c"
  shows "0 \<le> l \<and> l \<le> 12/10 * c"
proof -
  obtain i where "l = min (max 0 (loads ! i + arr ! i - s)) (c * (12/10))"
    using assms(1-3) by (auto simp: queue_update_def set_zip)
  moreover have "0 \<le> min (max 0 x) (c * (12/10)) \<and> min (max 0 x) (c * (12/10)) \<le> 12/10 * c" for x
    using assms(4) by (auto simp: min_def)
  ultimately show ?thesis by blast
qed

lemma traffic_nonneg: "sim_config_ok cfg \<Longrightarrow> 0 \<le> traffic cfg t"
proof -
  assume cfg: "sim_config_ok cfg"
  have "- sc_amp_rps cfg \<le> sc_amp_rps cfg * sin (real t / sc_rps_period cfg)"
    using cfg mult_left_mono[of "-1" "sin (real t / sc_rps_period cfg)" "sc_amp_rps cfg"] sin_ge_minus_one
    by (simp add: sim_config_ok_def)
  then show ?thesis using cfg by (simp add: traffic_def sim_config_ok_def)
qed

lemma normalise_weights_sum: "0 < n \<Longrightarrow> sum_list (normalise_weights n weights) = 1"
proof -
  assume "0 < n"
  have "sum_list (map (\<lambda>w. w / sum_list weights) weights) = 1" if "\<not> sum_list weights < 1 / 10 ^ 9"
  proof -
    have "sum_list weights \<noteq> 0" using that by auto
    then show ?thesis using sum_list_map_divide[of "\<lambda>x. x" "sum_list weights" weights] by simp
  qed
  then show ?thesis using \<open>0 < n\<close> by (simp add: normalise_weights_def Let_def sum_list_replicate)
qed

lemma length_normalise_weights [vec_simps]: "length weights = n \<Longrightarrow> length (normalise_weights n weights) = n"
  by (simp add: normalise_weights_def Let_def)

lemma sum_list_map_mult: "sum_list (map (\<lambda>x. x * (c::real)) xs) = sum_list xs * c"
  by (induction xs) (simp_all add: distrib_right)

lemma sum_list_map2_nonneg: "0 \<le> sum_list (map2 (\<lambda>a b. max 0 (f a b)) xs ys :: real list)"
  by (intro sum_list_nonneg_list) auto

lemma length_concat_const: "\<forall>x \<in> set xs. length x = k \<Longrightarrow> length (concat xs) = k * length xs"
  by (induction xs) simp_all

lemma env_state_length: "length (se_capacities e) = length (se_loads e) \<Longrightarrow> length (env_state e) = length (se_loads e) * 8 + 4"
proof -
  assume l: "length (se_capacities e) = length (se_loads e)"
  have "length (concat (map2 server_features (cpu_of e) (se_loads e))) = 8 * length (map2 server_features (cpu_of e) (se_loads e))"
    by (rule length_concat_const) (auto simp: server_features_def)
  then show ?thesis using l by (simp add: env_state_def Let_def cpu_of_def)
qed

section \<open>One step\<close>

definition step_arrivals :: "sim_env \<Rightarrow> real list \<Rightarrow> real list" where
  "step_arrivals e weights =
     map (\<lambda>x. x * traffic (se_cfg e) (se_step_count e)) (normalise_weights (sc_num_backends (se_cfg e)) weights)"

definition step_loads :: "sim_env \<Rightarrow> real list \<Rightarrow> real list" where
  "step_loads e weights =
     queue_update (sc_service_rate (se_cfg e)) (se_capacities e) (se_loads e) (step_arrivals e weights)"

definition step_rejected :: "sim_env \<Rightarrow> real list \<Rightarrow> real" where
  "step_rejected e weights =
     sum_list (map2 (\<lambda>a room. max 0 (a - room)) (step_arrivals e weights)
       (map2 (\<lambda>c l. max 0 (c - l)) (se_capacities e) (step_loads e weights)))"

lemma sim_step_env:
  "sr_env (sim_step e weights noise) = e\<lparr>se_loads := step_loads e weights,
     se_admitted_rps := 9/10 * se_admitted_rps e + 1/10 * sum_list (step_arrivals e weights),
     se_rejected_rps := 9/10 * se_rejected_rps e + 1/10 * step_rejected e weights,
     se_step_count := se_step_count e + 1\<rparr>"
  by (simp add: sim_step_def Let_def step_arrivals_def step_loads_def step_rejected_def)

lemma sim_step_outputs:
  "sr_state (sim_step e weights noise) = env_state (sr_env (sim_step e weights noise))"
  "sr_terminated (sim_step e weights noise) = False"
  "sr_truncated (sim_step e weights noise) = (se_step_count e + 1 \<ge> sc_episode_len (se_cfg e))"
  "si_cpu (sr_info (sim_step e weights noise)) = cpu_of (sr_env (sim_step e weights noise))"
  "si_rejection_rate (sr_info (sim_step e weights noise)) =
     (let r = sr_env (sim_step e weights noise) in se_rejected_rps r / max (se_admitted_rps r + se_rejected_rps r) 1)"
  "si_error_rate (sr_info (sim_step e weights noise)) =
     vmean (map (\<lambda>c. max 0 ((c - 8/10) * (5/10))) (si_cpu (sr_info (sim_step e weights noise))))"
  by (simp_all add: sim_step_def Let_def cpu_of_def)

lemma sim_step_reward:
  "sr_reward (sim_step e weights noise) =
     (let i = sr_info (sim_step e weights noise)
      in soft_reward (se_cfg e) (si_p99_ms i) (np_var (si_cpu i)) (si_total_rps i) (si_violations i)
         - floor_penalty (se_cfg e) (np_max (si_cpu i)) (si_error_rate i) (si_p99_ms i)
         - si_reward_hacking_penalty i)"
  by (simp add: sim_step_def Let_def cpu_of_def max_def REJECTION_RATE_PENALTY_def)

lemma step_arrivals_sum:
  "0 < sc_num_backends (se_cfg e) \<Longrightarrow> sum_list (step_arrivals e weights) = traffic (se_cfg e) (se_step_count e)"
  by (simp add: step_arrivals_def sum_list_map_mult normalise_weights_sum)

lemma sim_step_ok:
  assumes "sim_ok e" and "length weights = sc_num_backends (se_cfg e)"
  shows "sim_ok (sr_env (sim_step e weights noise))"
proof -
  note o = assms(1)[unfolded sim_ok_def]
  have len: "length (step_arrivals e weights) = sc_num_backends (se_cfg e)"
    using assms(2) by (simp add: step_arrivals_def length_normalise_weights)
  have "0 \<le> sc_capacity (se_cfg e)" using o by (simp add: sim_config_ok_def)
  then have "0 \<le> l \<and> l \<le> 12/10 * sc_capacity (se_cfg e)" if "l \<in> set (step_loads e weights)" for l
    using queue_update_range[OF len, of "se_loads e" l] o that unfolding step_loads_def by metis
  moreover have "length (step_loads e weights) = sc_num_backends (se_cfg e)" using o len by (simp add: step_loads_def)
  moreover have "0 \<le> sum_list (step_arrivals e weights)"
    using o traffic_nonneg by (simp add: step_arrivals_sum sim_config_ok_def)
  moreover have "0 \<le> step_rejected e weights" unfolding step_rejected_def by (rule sum_list_map2_nonneg)
  ultimately show ?thesis using o by (simp add: sim_ok_def sim_step_env)
qed

lemma sim_reset_ok:
  assumes "sim_ok e" and "length us = sc_num_backends (se_cfg e)" and "\<forall>u \<in> set us. 0 \<le> u \<and> u \<le> 3/10"
  shows "sim_ok (fst (sim_reset e us))"
proof -
  note o = assms(1)[unfolded sim_ok_def]
  have "0 \<le> l \<and> l \<le> 12/10 * sc_capacity (se_cfg e)" if l: "l \<in> set (map2 (*) us (se_capacities e))" for l
  proof -
    obtain i where i: "i < length us" "l = map2 (*) us (se_capacities e) ! i"
      using l[unfolded in_set_conv_nth] by auto
    then have i: "i < length us" "l = us ! i * sc_capacity (se_cfg e)" using o assms(2) by simp_all
    have "0 \<le> us ! i" "us ! i \<le> 12/10" using assms(3) i(1) nth_mem by fastforce+
    then show ?thesis using i(2) o mult_right_mono[of "us ! i" "12/10" "sc_capacity (se_cfg e)"]
      by (simp add: sim_config_ok_def)
  qed
  then show ?thesis using o assms(2) by (simp add: sim_reset_def Let_def sim_ok_def)
qed

lemma cpu_range:
  assumes "sim_ok e" and "c \<in> set (cpu_of e)"
  shows "0 \<le> c \<and> c \<le> 12/10"
proof -
  note o = assms(1)[unfolded sim_ok_def]
  obtain i where i: "i < length (se_loads e)" "c = se_loads e ! i / sc_capacity (se_cfg e)"
    using assms(2) o by (auto simp: cpu_of_def set_zip)
  have "0 \<le> se_loads e ! i" "se_loads e ! i \<le> 12/10 * sc_capacity (se_cfg e)" using o i(1) nth_mem by blast+
  then show ?thesis using i(2) o by (simp add: sim_config_ok_def divide_le_eq)
qed

section \<open>Properties\<close>

inductive sim_reach :: "sim_config \<Rightarrow> sim_env \<Rightarrow> bool" for cfg :: sim_config where
  init: "sim_reach cfg (sim_init cfg)"
| reset: "sim_reach cfg e \<Longrightarrow> length us = sc_num_backends cfg \<Longrightarrow> \<forall>u \<in> set us. 0 \<le> u \<and> u \<le> 3/10 \<Longrightarrow>
    sim_reach cfg (fst (sim_reset e us))"
| step: "sim_reach cfg e \<Longrightarrow> length weights = sc_num_backends cfg \<Longrightarrow>
    sim_reach cfg (sr_env (sim_step e weights noise))"

lemma sim_reach_ok: "sim_reach cfg e \<Longrightarrow> sim_config_ok cfg \<Longrightarrow> sim_ok e \<and> se_cfg e = cfg"
proof (induction rule: sim_reach.induct)
  case init
  then show ?case by (auto simp: sim_init_def sim_ok_def sim_config_ok_def)
next
  case (reset e us)
  then show ?case using sim_reset_ok[of e us] by (simp add: sim_reset_def Let_def)
next
  case (step e weights noise)
  then show ?case using sim_step_ok[of e weights noise] by (simp add: sim_step_env)
qed

text \<open>
  C30. The simulator stays within its bounds on any weights, even negative or unnormalised ones:
  after every step from a reachable state the loads are between zero and 1.2 times the capacity,
  the observation has the advertised length, the error rate is at most 0.2, the rejection rate is
  a fraction, and the episode is cut exactly at its length.
\<close>

theorem simulator_bounds:
  assumes "sim_reach cfg e" and "sim_config_ok cfg" and "length weights = sc_num_backends cfg"
  shows "(let r = sim_step e weights noise in
            (\<forall>l \<in> set (se_loads (sr_env r)). 0 \<le> l \<and> l \<le> 12/10 * sc_capacity cfg) \<and>
            length (sr_state r) = state_dim cfg \<and>
            0 \<le> si_error_rate (sr_info r) \<and> si_error_rate (sr_info r) \<le> 2/10 \<and>
            0 \<le> si_rejection_rate (sr_info r) \<and> si_rejection_rate (sr_info r) \<le> 1 \<and>
            (sr_truncated r \<longleftrightarrow> sc_episode_len cfg \<le> se_step_count e + 1))"
proof -
  have e: "sim_ok e" "se_cfg e = cfg" using sim_reach_ok[OF assms(1,2)] by simp_all
  let ?r = "sim_step e weights noise"
  have ok: "sim_ok (sr_env ?r)" using sim_step_ok[OF e(1)] e(2) assms(3) by simp
  have cfg: "se_cfg (sr_env ?r) = cfg" using e(2) by (simp add: sim_step_env)
  have len: "length (se_loads (sr_env ?r)) = sc_num_backends cfg" "length (se_capacities (sr_env ?r)) = sc_num_backends cfg"
    using ok cfg by (simp_all add: sim_ok_def)
  have err: "0 \<le> vmean (map f (cpu_of (sr_env ?r))) \<and> vmean (map f (cpu_of (sr_env ?r))) \<le> 2/10"
    if "\<And>c. 0 \<le> c \<Longrightarrow> c \<le> 12/10 \<Longrightarrow> 0 \<le> f c \<and> f c \<le> 2/10" for f
    using cpu_range[OF ok] that len assms(2) by (intro vmean_bounds) (auto simp: cpu_of_def sim_config_ok_def)
  have "0 \<le> x / max (y + x) 1 \<and> x / max (y + x) 1 \<le> 1" if "0 \<le> x" "0 \<le> y" for x y :: real
    using that by (simp add: divide_le_eq le_max_iff_disj)
  then have "0 \<le> si_rejection_rate (sr_info ?r) \<and> si_rejection_rate (sr_info ?r) \<le> 1"
    using ok by (simp add: sim_step_outputs(5) Let_def sim_ok_def)
  moreover have "0 \<le> si_error_rate (sr_info ?r) \<and> si_error_rate (sr_info ?r) \<le> 2/10"
    unfolding sim_step_outputs(4,6) by (rule err) (auto simp: max_def)
  moreover have "length (sr_state ?r) = state_dim cfg"
    unfolding sim_step_outputs(1) using len by (simp add: env_state_length state_dim_def)
  ultimately show ?thesis using ok cfg e(2) by (simp add: Let_def sim_step_outputs(3)) (simp add: sim_ok_def)
qed

theorem simulator_bounds_witness:
  "length (sr_state (sim_step (sim_init (sim_default 4)) [1, -1, 0, 5] (1/2))) = 36"
  using simulator_bounds[OF sim_reach.init, of "sim_default 4" "[1, -1, 0, 5]" "1/2"]
  by (simp add: sim_config_ok_def sim_default_def state_dim_def Let_def)

text \<open>
  The hard floors bite whatever the throughput: a step that leaves some backend above the cpu
  floor is rewarded at least a thousand less than its soft component, and no penalty ever raises
  a reward above the soft component.
\<close>

theorem hard_floor_bites:
  "(let r = sim_step e weights noise; i = sr_info r;
        soft = soft_reward (se_cfg e) (si_p99_ms i) (np_var (si_cpu i)) (si_total_rps i) (si_violations i)
    in sr_reward r \<le> soft \<and> (np_max (si_cpu i) > sc_hard_floor_cpu (se_cfg e) \<longrightarrow> sr_reward r \<le> soft - 1000))"
proof -
  have "0 \<le> si_reward_hacking_penalty (sr_info (sim_step e weights noise))"
    by (simp add: sim_step_def Let_def REJECTION_RATE_PENALTY_def)
  moreover have "0 \<le> floor_penalty c x y z" "x > sc_hard_floor_cpu c \<Longrightarrow> 1000 \<le> floor_penalty c x y z" for c x y z
    by (simp_all add: floor_penalty_def)
  ultimately show ?thesis unfolding Let_def sim_step_reward by (smt (verit))
qed

theorem hard_floor_bites_witness:
  "(let r = sim_step (sim_init (sim_default 1)) [1] 0; i = sr_info r
    in sr_reward r \<le> soft_reward (sim_default 1) (si_p99_ms i) (np_var (si_cpu i)) (si_total_rps i) (si_violations i))"
  using hard_floor_bites[of "sim_init (sim_default 1)" "[1]" 0] by (simp add: Let_def sim_init_def)

end
