(* ===== verification/Kan_Layer.thy ===== *)
theory Kan_Layer
  imports Omega_Prelude
begin

text \<open>
  The KAN actor of \<open>ml/ppo/train_ppo_kan.py\<close>: the layer of B-spline edges on a clamped knot
  vector (Cox-de Boor recursion), its forward pass with the SiLU residual, the softmax policy
  and the terms of the equations extracted from it. The learned parameters are a record; the
  batch dimension is left out, every row being treated alike. The polynomial fit of numpy is a
  parameter.
\<close>

section \<open>Knots and basis functions\<close>

definition linspace :: "real \<Rightarrow> real \<Rightarrow> nat \<Rightarrow> real list" where
  "linspace lo hi steps = map (\<lambda>i. lo + (hi - lo) * real i / real (steps - 1)) [0..<steps]"

definition knots :: "nat \<Rightarrow> nat \<Rightarrow> real list" where
  \<comment> \<open>the buffer \<open>grid\<close> of a layer\<close>
  "knots grid_size spline_order =
     (let interior = linspace (-1) 1 (grid_size + 1)
      in replicate spline_order (hd interior) @ interior @ replicate spline_order (last interior))"

definition basis_0 :: "nat \<Rightarrow> real list \<Rightarrow> real \<Rightarrow> real list" where
  \<comment> \<open>indicators of the knot intervals, the right end counted in the last proper one\<close>
  "basis_0 n_coeff grid x =
     (let basis = map (\<lambda>i. flag (x \<ge> grid ! i \<and> x < grid ! (i + 1))) [0..<length grid - 1];
          last_proper = n_coeff - 1
      in basis[last_proper := basis ! last_proper + flag (x = last grid)])"

definition basis_step :: "real list \<Rightarrow> real \<Rightarrow> nat \<Rightarrow> real list \<Rightarrow> real list" where
  \<comment> \<open>one level of the recursion, with 0/0 read as zero\<close>
  "basis_step grid x k basis =
     map (\<lambda>i. let dl = grid ! (i + k) - grid ! i;
                  dr = grid ! (i + k + 1) - grid ! (i + 1);
                  left = (if \<bar>dl\<bar> > 1 / 10 ^ 10 then (x - grid ! i) / max dl (1 / 10 ^ 10) * basis ! i else 0);
                  right = (if \<bar>dr\<bar> > 1 / 10 ^ 10
                           then (grid ! (i + k + 1) - x) / max dr (1 / 10 ^ 10) * basis ! (i + 1) else 0)
              in left + right) [0..<length basis - 1]"

definition b_splines :: "nat \<Rightarrow> nat \<Rightarrow> real \<Rightarrow> real list" where
  "b_splines grid_size spline_order x =
     (let grid = knots grid_size spline_order
      in foldl (\<lambda>basis k. basis_step grid x k basis) (basis_0 (grid_size + spline_order) grid x)
           [1..<spline_order + 1])"

section \<open>The layer and the actor\<close>

record kan_layer =
  kl_grid_size :: nat
  kl_spline_order :: nat
  kl_coeff :: "real list list list" \<comment> \<open>per output, per input, the control points\<close>
  kl_res_weight :: "real list list"
  kl_res_bias :: "real list"

definition dot :: "real list \<Rightarrow> real list \<Rightarrow> real" where
  "dot xs ys = sum_list (map2 (*) xs ys)"

definition silu :: "real \<Rightarrow> real" where
  "silu x = x / (1 + exp (- x))"

definition edge_value :: "kan_layer \<Rightarrow> real list \<Rightarrow> real \<Rightarrow> real" where
  \<comment> \<open>the learned function of one edge, from its control points\<close>
  "edge_value l coeff x = dot (b_splines (kl_grid_size l) (kl_spline_order l) (np_clip x (-1) 1)) coeff"

definition layer_forward :: "kan_layer \<Rightarrow> real list \<Rightarrow> real list" where
  "layer_forward l x =
     map (\<lambda>(coeff, w, b). sum_list (map2 (\<lambda>c xi. edge_value l c xi) coeff x) + (dot w (map silu x) + b))
       (zip (kl_coeff l) (zip (kl_res_weight l) (kl_res_bias l)))"

definition softmax :: "real list \<Rightarrow> real list" where
  "softmax logits = map (\<lambda>z. exp z / sum_list (map exp logits)) logits"

definition actor_forward :: "real list list \<Rightarrow> kan_layer \<Rightarrow> real list \<Rightarrow> real list" where
  \<comment> \<open>compression by the rows of \<open>pca\<close>, tanh, the layer, softmax\<close>
  "actor_forward pca l state = softmax (layer_forward l (map (\<lambda>row. tanh (dot row state)) pca))"

definition extract_terms :: "(real list \<Rightarrow> real list \<Rightarrow> real \<times> real \<times> real) \<Rightarrow> kan_layer \<Rightarrow>
    (nat \<times> real \<times> real \<times> real) list list" where
  \<comment> \<open>\<open>extract_equations\<close>: per output, the fitted quadratics of the edges that are not dropped;
      \<open>polyfit\<close> is the least-squares fit of degree two\<close>
  "extract_terms polyfit l =
     (let x_grid = linspace (-1) 1 50
      in map (\<lambda>coeffs. List.map_filter (\<lambda>i.
            (case polyfit x_grid (map (edge_value l (coeffs ! i)) x_grid) of (a, b, c) \<Rightarrow>
               if \<bar>a\<bar> < 1 / 10 ^ 3 \<and> \<bar>b\<bar> < 1 / 10 ^ 3 then None else Some (i, a, b, c)))
          [0..<length coeffs]) (kl_coeff l))"

section \<open>The knot vector\<close>

lemma length_linspace [vec_simps, simp]: "length (linspace lo hi n) = n"
  by (simp add: linspace_def)

lemma linspace_nth: "i < n \<Longrightarrow> linspace lo hi n ! i = lo + (hi - lo) * real i / real (n - 1)"
  by (simp add: linspace_def)

lemma length_knots [simp]: "length (knots g p) = g + 1 + 2 * p"
  by (simp add: knots_def Let_def)

lemma knots_nth:
  assumes "i < g + 1 + 2 * p" and "0 < g"
  shows "knots g p ! i = -1 + 2 * real (min (i - p) g) / real g"
proof -
  have ends: "hd (linspace (-1) 1 (g + 1)) = -1" "last (linspace (-1) 1 (g + 1)) = 1"
    using assms(2) by (simp_all add: hd_conv_nth last_conv_nth linspace_nth flip: length_0_conv)
  show ?thesis
    using assms ends by (auto simp: knots_def Let_def nth_append linspace_nth min_def simp del: One_nat_def Suc_eq_plus1_left add_Suc_right)
qed

lemma knots_mono: "i \<le> j \<Longrightarrow> j < g + 1 + 2 * p \<Longrightarrow> 0 < g \<Longrightarrow> knots g p ! i \<le> knots g p ! j"
  by (simp add: knots_nth divide_right_mono)

text \<open>Two knots coincide or are two grid cells apart: the cut-off never hides a proper interval.\<close>

lemma knots_gap:
  assumes "i \<le> j" and "j < g + 1 + 2 * p" and "0 < g" and "knots g p ! i \<noteq> knots g p ! j"
  shows "2 / real g \<le> knots g p ! j - knots g p ! i"
proof -
  let ?a = "min (i - p) g" and ?b = "min (j - p) g"
  have "?a \<noteq> ?b" using assms by (auto simp: knots_nth)
  then have "?a + 1 \<le> ?b" using assms(1) by (auto simp: min_def split: if_splits)
  then have "real ?a + 1 \<le> real ?b" by (metis of_nat_1 of_nat_add of_nat_le_iff)
  then have "2 * (real ?a + 1) / real g \<le> 2 * real ?b / real g"
    by (intro divide_right_mono mult_left_mono) simp_all
  then show ?thesis using assms(1-3) by (simp add: knots_nth add_divide_distrib)
qed

lemma knots_ends: "0 < g \<Longrightarrow> knots g p ! 0 = -1" "0 < g \<Longrightarrow> last (knots g p) = 1"
  by (simp_all add: knots_nth last_conv_nth flip: length_0_conv)

lemma knots_left: "0 < g \<Longrightarrow> i \<le> p \<Longrightarrow> knots g p ! i = -1"
  by (simp add: knots_nth)

lemma knots_right: "0 < g \<Longrightarrow> g + p \<le> i \<Longrightarrow> i < g + 1 + 2 * p \<Longrightarrow> knots g p ! i = 1"
  by (simp add: knots_nth min_absorb2)

section \<open>Every level of the recursion is a partition of unity\<close>

text \<open>
  The invariant of the recursion at level \<open>k\<close>: one non-negative function per knot interval of
  width \<open>k + 1\<close>, zero outside it and zero on degenerate intervals, summing to one.
\<close>

definition basis_ok :: "nat \<Rightarrow> nat \<Rightarrow> real \<Rightarrow> nat \<Rightarrow> real list \<Rightarrow> bool" where
  "basis_ok g p x k b \<longleftrightarrow> length b = g + 2 * p - k \<and> sum_list b = 1 \<and>
     (\<forall>i < length b. 0 \<le> b ! i \<and> (b ! i \<noteq> 0 \<longrightarrow> knots g p ! i \<le> x \<and> x \<le> knots g p ! (i + k + 1) \<and>
                        knots g p ! i \<noteq> knots g p ! (i + k + 1)))"

lemma sum_indicator_telescope:
  assumes "\<And>i. i < n \<Longrightarrow> u i \<le> (u (i + 1) :: real)"
  shows "sum_list (map (\<lambda>i. flag (x \<ge> u i \<and> x < u (i + 1))) [0..<n]) = flag (x \<ge> u 0) - flag (x \<ge> u n)"
  using assms
proof (induction n)
  case (Suc n)
  have "flag (x \<ge> u n \<and> x < u (n + 1)) = flag (x \<ge> u n) - flag (x \<ge> u (n + 1))"
    using Suc.prems[of n] by (auto simp: flag_def)
  then show ?case using Suc by simp
qed simp

lemma basis_0_ok:
  assumes "0 < g" and "-1 \<le> x" and "x \<le> 1"
  shows "basis_ok g p x 0 (basis_0 (g + p) (knots g p) x)"
proof -
  let ?u = "\<lambda>i. knots g p ! i" and ?n = "g + 2 * p"
  let ?b = "map (\<lambda>i. flag (x \<ge> ?u i \<and> x < ?u (i + 1))) [0..<?n]"
  have def0: "basis_0 (g + p) (knots g p) x = ?b[g + p - 1 := ?b ! (g + p - 1) + flag (x = 1)]"
    using assms(1) by (simp add: basis_0_def Let_def knots_ends)
  have "?u ?n = 1" "?u 0 = -1" using assms(1) by (simp_all add: knots_right knots_left)
  moreover have "sum_list ?b = flag (x \<ge> ?u 0) - flag (x \<ge> ?u ?n)"
    using assms(1) by (intro sum_indicator_telescope knots_mono) auto
  ultimately have "sum_list (basis_0 (g + p) (knots g p) x) = 1"
    unfolding def0 using assms by (subst sum_list_set) (auto simp: flag_def)
  moreover have "0 \<le> basis_0 (g + p) (knots g p) x ! i \<and> (basis_0 (g + p) (knots g p) x ! i \<noteq> 0 \<longrightarrow>
      ?u i \<le> x \<and> x \<le> ?u (i + 0 + 1) \<and> ?u i \<noteq> ?u (i + 0 + 1))" if "i < ?n" for i
  proof (cases "i = g + p - 1")
    case True
    have "?u (g + p - 1) \<noteq> ?u (g + p)" using assms(1) by (auto simp: knots_nth field_simps)
    moreover have "?u (g + p) = 1" using assms(1) by (simp add: knots_right)
    ultimately show ?thesis using True assms that knots_mono[of "g + p - 1" "g + p" g p] unfolding def0
      by (auto simp: flag_def)
  next
    case False
    then show ?thesis using that unfolding def0 by (auto simp: flag_def)
  qed
  moreover have "length (basis_0 (g + p) (knots g p) x) = ?n" by (simp add: def0)
  ultimately show ?thesis unfolding basis_ok_def by simp
qed

text \<open>
  With \<open>A\<close> the share of each function that stays, a level maps entry \<open>i\<close> to
  \<open>A i + (b ! (i + 1) - A (i + 1))\<close>: nothing is lost but at the two ends, where the functions vanish.
\<close>

definition share :: "nat \<Rightarrow> nat \<Rightarrow> real \<Rightarrow> nat \<Rightarrow> real list \<Rightarrow> nat \<Rightarrow> real" where
  "share g p x k b i = (x - knots g p ! i) / (knots g p ! (i + k + 1) - knots g p ! i) * b ! i"

lemma guarded_quotient:
  "0 < e \<Longrightarrow> e < d \<Longrightarrow> (if \<bar>d\<bar> > e then y / max d e * z else 0) = y / d * (z :: real)"
  "0 < e \<Longrightarrow> d = 0 \<Longrightarrow> (if \<bar>d\<bar> > e then y / max d e * z else 0) = 0"
  by (simp_all add: max_def)

lemma basis_step_nth:
  assumes ok: "basis_ok g p x k b" and g: "0 < g" "g \<le> 10 ^ 9" and k: "k < p" and i: "i < length b - 1"
  shows "basis_step (knots g p) x (k + 1) b ! i = share g p x k b i + (b ! (i + 1) - share g p x k b (i + 1))"
proof -
  let ?u = "\<lambda>i. knots g p ! i"
  have cell: "1 / 10 ^ 10 < 2 / real g" using g by (simp add: field_simps)
  have gap: "?u (j + (k + 1)) - ?u j > 1 / 10 ^ 10" if "j < length b" "?u j \<noteq> ?u (j + k + 1)" for j
  proof -
    have "2 / real g \<le> ?u (j + k + 1) - ?u j"
      using that ok g(1) k by (intro knots_gap) (auto simp: basis_ok_def)
    from less_le_trans[OF cell this] show ?thesis by (simp only: add.assoc)
  qed
  have deg: "b ! j = 0" if "j < length b" "?u j = ?u (j + k + 1)" for j using ok that by (auto simp: basis_ok_def)
  have left: "(if \<bar>?u (i + (k + 1)) - ?u i\<bar> > 1 / 10 ^ 10
      then (x - ?u i) / max (?u (i + (k + 1)) - ?u i) (1 / 10 ^ 10) * b ! i else 0) = share g p x k b i"
    (is "?L = _")
  proof (cases "?u i = ?u (i + k + 1)")
    case True
    then show ?thesis using deg[of i] i by (simp add: guarded_quotient(2) share_def add.assoc)
  next
    case False
    then show ?thesis using guarded_quotient(1)[OF _ gap[of i]] i by (simp only: share_def add.assoc) simp
  qed
  have right: "(if \<bar>?u (i + (k + 1) + 1) - ?u (i + 1)\<bar> > 1 / 10 ^ 10
      then (?u (i + (k + 1) + 1) - x) / max (?u (i + (k + 1) + 1) - ?u (i + 1)) (1 / 10 ^ 10) * b ! (i + 1) else 0)
      = b ! (i + 1) - share g p x k b (i + 1)"
    (is "?R = _")
  proof (cases "?u (i + 1) = ?u (i + 1 + k + 1)")
    case True
    then show ?thesis using deg[of "i + 1"] i by (simp add: share_def add.commute add.left_commute)
  next
    case False
    let ?d = "?u (i + 1 + k + 1) - ?u (i + 1)"
    have d: "?d > 1 / 10 ^ 10" using gap[of "i + 1"] i False by (simp add: add.assoc)
    have "(?u (i + 1 + k + 1) - x) / ?d = 1 - (x - ?u (i + 1)) / ?d"
      using d by (simp add: diff_divide_eq_iff)
    then show ?thesis using d by (simp add: share_def max_def add.commute add.left_commute left_diff_distrib)
  qed
  have "basis_step (knots g p) x (k + 1) b ! i = ?L + ?R" using i by (simp add: basis_step_def Let_def)
  then show ?thesis unfolding left right .
qed

lemma share_range:
  assumes "basis_ok g p x k b" and "j < length b"
  shows "0 \<le> share g p x k b j" and "share g p x k b j \<le> b ! j" and "b ! j = 0 \<Longrightarrow> share g p x k b j = 0"
proof -
  have b: "0 \<le> b ! j" using assms by (simp add: basis_ok_def)
  have q: "0 \<le> q \<and> q \<le> 1" if "b ! j \<noteq> 0" "q = (x - knots g p ! j) / (knots g p ! (j + k + 1) - knots g p ! j)" for q
  proof -
    have "knots g p ! j \<le> x" "x \<le> knots g p ! (j + k + 1)" "knots g p ! j \<noteq> knots g p ! (j + k + 1)"
      using assms that(1) by (auto simp: basis_ok_def)
    then show ?thesis using that(2) by (simp add: divide_le_eq)
  qed
  show "0 \<le> share g p x k b j" using q[OF _ refl] b unfolding share_def by (cases "b ! j = 0") (simp, blast intro: mult_nonneg_nonneg)
  show "share g p x k b j \<le> b ! j" using q[OF _ refl] b unfolding share_def by (cases "b ! j = 0") (simp, blast intro: mult_left_le_one_le)
  show "b ! j = 0 \<Longrightarrow> share g p x k b j = 0" by (simp add: share_def)
qed

lemma sum_list_shift:
  "sum_list (map (\<lambda>i. a i + (c (i + 1) - a (i + 1))) [0..<n]) = a 0 - a n + (\<Sum>i<n. c (i + 1) :: real)"
  by (induction n) simp_all

lemma basis_step_ok:
  assumes ok: "basis_ok g p x k b" and g: "0 < g" "g \<le> 10 ^ 9" and k: "k < p"
  shows "basis_ok g p x (k + 1) (basis_step (knots g p) x (k + 1) b)"
proof -
  let ?u = "\<lambda>i. knots g p ! i" and ?A = "share g p x k b" and ?b' = "basis_step (knots g p) x (k + 1) b"
  have len: "length b = g + 2 * p - k" using ok by (simp add: basis_ok_def)
  define n where "n = length b - 1"
  have n: "length b = n + 1" "length ?b' = n" "g + p \<le> n" using len g(1) k by (simp_all add: n_def basis_step_def)
  note nth = basis_step_nth[OF ok g k, folded n_def]
  have "?u 0 = ?u (0 + k + 1)" "?u n = ?u (n + k + 1)"
    using k n g(1) len by (simp_all add: knots_left knots_right)
  then have ends: "b ! 0 = 0" "b ! n = 0" using ok n by (auto simp: basis_ok_def)
  have "sum_list ?b' = sum_list (map (\<lambda>i. ?A i + (b ! (i + 1) - ?A (i + 1))) [0..<n])"
    using nth n(2) by (intro arg_cong[of _ _ sum_list] nth_equalityI) simp_all
  also have "\<dots> = (\<Sum>i<n. b ! (i + 1))"
    using share_range(3)[OF ok] ends n by (simp add: sum_list_shift del: One_nat_def Suc_eq_plus1_left add_Suc_right)
  also have "\<dots> = sum_list b"
    using ends n by (simp add: sum_list_sum_nth atLeast0LessThan sum.lessThan_Suc_shift del: sum.lessThan_Suc)
  finally have total: "sum_list ?b' = 1" using ok by (simp add: basis_ok_def)
  have "0 \<le> ?b' ! i \<and> (?b' ! i \<noteq> 0 \<longrightarrow> ?u i \<le> x \<and> x \<le> ?u (i + (k + 1) + 1) \<and> ?u i \<noteq> ?u (i + (k + 1) + 1))"
    if i: "i < n" for i
  proof -
    have r: "0 \<le> ?A i" "?A (i + 1) \<le> b ! (i + 1)" using share_range[OF ok] i n by simp_all
    have sup: "?u i \<le> ?u (i + 1)" "?u (i + k + 1) \<le> ?u (i + (k + 1) + 1)"
      using i n(1) g(1) k len by (auto intro!: knots_mono)
    have "b ! i \<noteq> 0 \<or> b ! (i + 1) \<noteq> 0" if "?b' ! i \<noteq> 0"
      using that nth[OF i] share_range(3)[OF ok] i n by fastforce
    moreover have "?u i \<le> x \<and> x \<le> ?u (i + k + 1) \<and> ?u i \<noteq> ?u (i + k + 1)" if "b ! i \<noteq> 0"
      using ok that i n by (simp add: basis_ok_def)
    moreover have "?u (i + 1) \<le> x \<and> x \<le> ?u (i + 1 + k + 1) \<and> ?u (i + 1) \<noteq> ?u (i + 1 + k + 1)" if "b ! (i + 1) \<noteq> 0"
      using ok that i n unfolding basis_ok_def by auto
    ultimately show ?thesis using nth[OF i] r sup by (auto simp: add.commute add.left_commute)
  qed
  then show ?thesis using total n len by (simp add: basis_ok_def)
qed

lemma b_splines_ok:
  assumes "0 < g" and "g \<le> 10 ^ 9" and "-1 \<le> x" and "x \<le> 1"
  shows "basis_ok g p x p (b_splines g p x)"
proof -
  have "basis_ok g p x k (foldl (\<lambda>basis k. basis_step (knots g p) x k basis) (basis_0 (g + p) (knots g p) x) [1..<k + 1])"
    if "k \<le> p" for k
    using that
  proof (induction k)
    case 0
    then show ?case using basis_0_ok assms by simp
  next
    case (Suc k)
    then show ?case using basis_step_ok[OF Suc.IH] assms by simp
  qed
  then show ?thesis by (simp add: b_splines_def Let_def)
qed

section \<open>Edges, layer and policy\<close>

definition layer_ok :: "kan_layer \<Rightarrow> bool" where
  \<comment> \<open>the sizes the constructor gives, with a grid the cut-off of 1e-10 can resolve\<close>
  "layer_ok l \<longleftrightarrow> 0 < kl_grid_size l \<and> kl_grid_size l \<le> 10 ^ 9 \<and>
     (\<forall>edges \<in> set (kl_coeff l). \<forall>c \<in> set edges. length c = kl_grid_size l + kl_spline_order l) \<and>
     length (kl_res_weight l) = length (kl_coeff l) \<and> length (kl_res_bias l) = length (kl_coeff l)"

lemma dot_convex:
  assumes "length ws = length cs" and "\<forall>w \<in> set ws. 0 \<le> w" and "\<forall>c \<in> set cs. lo \<le> c \<and> c \<le> hi"
  shows "lo * sum_list ws \<le> dot ws cs \<and> dot ws cs \<le> hi * sum_list ws"
  using assms
proof (induction ws cs rule: list_induct2)
  case Nil
  then show ?case by (simp add: dot_def)
next
  case (Cons w ws c cs)
  then have "lo * w \<le> w * c" "w * c \<le> hi * w" by (simp_all add: mult.commute mult_right_mono)
  then show ?case using Cons by (simp add: dot_def distrib_left)
qed

lemma edge_value_hull:
  assumes "0 < kl_grid_size l" and "kl_grid_size l \<le> 10 ^ 9" and "length coeff = kl_grid_size l + kl_spline_order l"
    and "\<forall>c \<in> set coeff. lo \<le> c \<and> c \<le> hi"
  shows "lo \<le> edge_value l coeff x \<and> edge_value l coeff x \<le> hi"
proof -
  let ?b = "b_splines (kl_grid_size l) (kl_spline_order l) (np_clip x (-1) 1)"
  have ok: "basis_ok (kl_grid_size l) (kl_spline_order l) (np_clip x (-1) 1) (kl_spline_order l) ?b"
    using assms(1,2) np_clip_range[of "-1" 1 x] by (intro b_splines_ok) auto
  then have "length ?b = length coeff" "\<forall>w \<in> set ?b. 0 \<le> w" "sum_list ?b = 1"
    using assms(3) by (auto simp: basis_ok_def in_set_conv_nth)
  then show ?thesis using dot_convex[of ?b coeff lo hi] assms(4) by (simp add: edge_value_def)
qed

lemma softmax_is_dist:
  assumes "z \<noteq> []"
  shows "is_dist (softmax z)" and "\<forall>w \<in> set (softmax z). 0 < w" and "length (softmax z) = length z"
proof -
  have pos: "0 < sum_list (map exp z)" using assms
    by (cases z) (auto intro!: add_pos_nonneg sum_list_nonneg_list)
  then show "is_dist (softmax z)" using is_dist_normalise[of "map exp z"] by (auto simp: softmax_def comp_def)
  show "\<forall>w \<in> set (softmax z). 0 < w" using pos by (auto simp: softmax_def)
qed (simp add: softmax_def)

lemma length_layer_forward: "layer_ok l \<Longrightarrow> length (layer_forward l x) = length (kl_coeff l)"
  by (simp add: layer_ok_def layer_forward_def)

section \<open>Properties\<close>

text \<open>
  The basis functions form a partition of unity on the whole domain, both ends included: for any
  grid and any spline order there are grid size plus order of them, none is negative, and they
  sum to one.
\<close>

theorem splines_partition_unity:
  assumes "0 < grid_size" and "grid_size \<le> 10 ^ 9" and "-1 \<le> x" and "x \<le> 1"
  shows "length (b_splines grid_size spline_order x) = grid_size + spline_order \<and>
     (\<forall>b \<in> set (b_splines grid_size spline_order x). 0 \<le> b) \<and> sum_list (b_splines grid_size spline_order x) = 1"
  using b_splines_ok[OF assms, of spline_order] by (auto simp: basis_ok_def in_set_conv_nth)

theorem splines_partition_unity_witness: "sum_list (b_splines 5 3 (1/2)) = 1"
  using splines_partition_unity[of 5 "1/2" 3] by simp

text \<open>
  A learned edge never leaves the hull of its control points, whatever its input: inputs outside
  the domain are clamped and the value is a convex combination of the coefficients.
\<close>

theorem edge_in_hull:
  assumes "layer_ok l" and "edges \<in> set (kl_coeff l)" and "coeff \<in> set edges" and "\<forall>c \<in> set coeff. lo \<le> c \<and> c \<le> hi"
  shows "lo \<le> edge_value l coeff x \<and> edge_value l coeff x \<le> hi"
  using assms by (intro edge_value_hull) (auto simp: layer_ok_def)

definition demo_layer :: kan_layer where
  "demo_layer = \<lparr>kl_grid_size = 2, kl_spline_order = 1, kl_coeff = [[[1, 2, 3]], [[5, 5, 5]]],
     kl_res_weight = [[0], [0]], kl_res_bias = [0, 0]\<rparr>"

theorem edge_in_hull_witness: "edge_value demo_layer [1, 2, 3] 7 \<le> 3"
  using edge_in_hull[of demo_layer "[[1, 2, 3]]" "[1, 2, 3]" 1 3 7] by (simp add: demo_layer_def layer_ok_def)

text \<open>
  The actor is a policy: on every state it returns one weight per backend, all positive, summing
  to one, whatever its parameters.
\<close>

theorem actor_is_policy:
  assumes "layer_ok l" and "kl_coeff l \<noteq> []"
  shows "is_dist (actor_forward pca l state) \<and> (\<forall>w \<in> set (actor_forward pca l state). 0 < w) \<and>
     length (actor_forward pca l state) = length (kl_coeff l)"
proof -
  have "layer_forward l (map (\<lambda>row. tanh (dot row state)) pca) \<noteq> []"
    using assms length_layer_forward by (metis length_0_conv)
  then show ?thesis using softmax_is_dist length_layer_forward[OF assms(1)] by (simp add: actor_forward_def)
qed

theorem actor_is_policy_witness: "length (actor_forward [[1, 0]] demo_layer [3, 4]) = 2"
  using actor_is_policy[of demo_layer "[[1, 0]]" "[3, 4]"] by (simp add: demo_layer_def layer_ok_def)

text \<open>
  The extracted equations can miss the policy: when every edge is constant the audit log has no
  term for any backend, whatever the constants are, because an edge is dropped for its two
  leading coefficients only. The fit is assumed exact on constant samples.
\<close>

theorem constant_edges_dropped:
  assumes "layer_ok l" and "\<forall>xs c. xs \<noteq> [] \<longrightarrow> polyfit xs (replicate (length xs) c) = (0, 0, c)"
    and "\<forall>edges \<in> set (kl_coeff l). \<forall>coeff \<in> set edges. coeff = replicate (length coeff) (hd coeff)"
  shows "extract_terms polyfit l = replicate (length (kl_coeff l)) []"
proof -
  have "polyfit (linspace (-1) 1 50) (map (edge_value l coeff) (linspace (-1) 1 50)) = (0, 0, hd coeff)"
    if c: "edges \<in> set (kl_coeff l)" "coeff \<in> set edges" for edges coeff
  proof -
    have "edge_value l coeff x = hd coeff" for x
      using edge_value_hull[of l coeff "hd coeff" "hd coeff" x] assms(1) c assms(3)[rule_format, OF c]
      by (auto simp: layer_ok_def) (metis in_set_replicate order_antisym order_refl)+
    then have "edge_value l coeff = (\<lambda>x. hd coeff)" by blast
    then have "map (edge_value l coeff) (linspace (-1) 1 50) = replicate (length (linspace (-1) 1 50)) (hd coeff)"
      by (simp only: map_replicate_const)
    moreover have "linspace (-1) 1 50 \<noteq> []" by (metis length_linspace list.size(3) zero_neq_numeral)
    ultimately show ?thesis using assms(2) by metis
  qed
  then have "List.map_filter (\<lambda>i. (case polyfit (linspace (-1) 1 50) (map (edge_value l (coeffs ! i)) (linspace (-1) 1 50)) of
      (a, b, c) \<Rightarrow> if \<bar>a\<bar> < 1 / 10 ^ 3 \<and> \<bar>b\<bar> < 1 / 10 ^ 3 then None else Some (i, a, b, c))) [0..<length coeffs] = []"
    if "coeffs \<in> set (kl_coeff l)" for coeffs
    using that by (simp add: List.map_filter_def filter_empty_conv)
  then have "extract_terms polyfit l = map (\<lambda>coeffs. []) (kl_coeff l)"
    unfolding extract_terms_def Let_def by (intro map_cong refl) blast
  then show ?thesis by (simp add: map_replicate_const)
qed

theorem constant_edges_dropped_witness:
  "extract_terms (\<lambda>xs ys. (0, 0, hd ys)) (demo_layer\<lparr>kl_coeff := [[[4, 4, 4]], [[5, 5, 5]]]\<rparr>) = [[], []]"
  using constant_edges_dropped[of "demo_layer\<lparr>kl_coeff := [[[4, 4, 4]], [[5, 5, 5]]]\<rparr>" "\<lambda>xs ys. (0, 0, hd ys)"]
  by (auto simp: demo_layer_def layer_ok_def hd_replicate numeral_3_eq_3 numeral_2_eq_2)

end
