(* ===== verification/Ppo_Core.thy ===== *)
theory Ppo_Core
  imports Cbf_Projection Sim_Env
begin

text \<open>
  The deterministic core of the trainer in \<open>ml/ppo/train_ppo_kan.py\<close>: the training-time CBF
  projection, the rollout buffer with its generalised advantage estimation, action smoothing,
  the clipped surrogate and the minibatch loop, the trainer's own environment and the rollout
  loop. The networks, the Dirichlet distribution, the optimiser step and the random draws are
  parameters.
\<close>

section \<open>Configuration\<close>

record ppo_config =
  pp_num_backends :: nat
  pp_state_dim :: nat
  pp_gamma :: real
  pp_lam :: real
  pp_clip_eps :: real
  pp_update_epochs :: nat
  pp_batch_size :: nat
  pp_rollout_steps :: nat
  pp_total_steps :: nat
  pp_action_smoothing :: real
  pp_cbf_lambda :: real
  pp_capacity_cap :: real
  pp_alpha :: real
  pp_beta :: real
  pp_gamma_r :: real
  pp_delta :: real

definition ppo_default :: "nat \<Rightarrow> ppo_config" where
  \<comment> \<open>the defaults, with \<open>state_dim\<close> as \<open>__post_init__\<close> computes it\<close>
  "ppo_default n =
     \<lparr>pp_num_backends = n, pp_state_dim = n * 8 + 4, pp_gamma = 99/100, pp_lam = 95/100, pp_clip_eps = 2/10,
      pp_update_epochs = 10, pp_batch_size = 512, pp_rollout_steps = 2048, pp_total_steps = 1000000,
      pp_action_smoothing = 7/10, pp_cbf_lambda = 5/10, pp_capacity_cap = 80/100,
      pp_alpha = 5/10, pp_beta = 3/10, pp_gamma_r = 2/10, pp_delta = 1000\<rparr>"

section \<open>Training-time projection\<close>

definition barrier :: "real \<Rightarrow> real list list \<Rightarrow> real list list \<Rightarrow> real list list" where
  \<comment> \<open>\<open>h = cap - (loads + w)\<close>, a row per sample\<close>
  "barrier cap loads w = map2 (map2 (\<lambda>l x. cap - (l + x))) loads w"

definition torch_cbf_step :: "real \<Rightarrow> real \<Rightarrow> real list list \<Rightarrow> real list list \<Rightarrow> real list list \<Rightarrow> real list list" where
  \<comment> \<open>a gradient step towards the raw weights and away from the violations, and the projection\<close>
  "torch_cbf_step lam lr raw h w =
     map (\<lambda>(rs, hs, xs).
            torch_simplex_project
              (map (\<lambda>(r, k, x). x - lr * (2 * (x - r) - lam * min k 0)) (zip rs (zip hs xs))))
       (zip raw (zip h w))"

fun torch_cbf_loop :: "real \<Rightarrow> real \<Rightarrow> real \<Rightarrow> real list list \<Rightarrow> real list list \<Rightarrow> nat \<Rightarrow> real list list \<Rightarrow> real list list" where
  "torch_cbf_loop lam cap lr raw loads 0 w = w"
| "torch_cbf_loop lam cap lr raw loads (Suc k) w =
     (let h = barrier cap loads w
      in if \<not> (\<exists>row \<in> set h. \<exists>x \<in> set row. x < 0) then w
         else torch_cbf_loop lam cap lr raw loads k (torch_cbf_step lam lr raw h w))"

definition cbf_project :: "real \<Rightarrow> real \<Rightarrow> real \<Rightarrow> nat \<Rightarrow> real list list \<Rightarrow> real list list \<Rightarrow> real list list" where
  "cbf_project lam cap lr max_iter weights loads = torch_cbf_loop lam cap lr weights loads max_iter weights"

section \<open>Rollout buffer\<close>

record rollout_buffer =
  rb_states :: "real list list"
  rb_actions :: "real list list"
  rb_rewards :: "real list"
  rb_values :: "real list"
  rb_log_probs :: "real list"
  rb_dones :: "real list"

definition rb_empty :: rollout_buffer where
  "rb_empty = \<lparr>rb_states = [], rb_actions = [], rb_rewards = [], rb_values = [], rb_log_probs = [], rb_dones = []\<rparr>"

definition rb_clear :: "rollout_buffer \<Rightarrow> rollout_buffer" where
  "rb_clear b = b\<lparr>rb_states := [], rb_actions := [], rb_rewards := [], rb_values := [], rb_log_probs := [], rb_dones := []\<rparr>"

definition gae_step :: "real \<Rightarrow> real \<Rightarrow> rollout_buffer \<Rightarrow> real list \<Rightarrow> nat \<Rightarrow> real list \<times> real \<Rightarrow> real list \<times> real" where
  \<comment> \<open>the loop body at time \<open>t\<close>, on the advantages so far and the running \<open>gae\<close>\<close>
  "gae_step gamma lam b values t acc =
     (case acc of (advantages, gae) \<Rightarrow>
        let delta = rb_rewards b ! t + gamma * values ! (t + 1) * (1 - rb_dones b ! t) - values ! t;
            gae = delta + gamma * lam * (1 - rb_dones b ! t) * gae
        in (gae # advantages, gae))"

definition compute_gae :: "real \<Rightarrow> real \<Rightarrow> rollout_buffer \<Rightarrow> real \<Rightarrow> real list \<times> real list" where
  "compute_gae gamma lam b last_value =
     (let values = rb_values b @ [last_value];
          advantages = fst (fold (gae_step gamma lam b values) (rev [0..<length (rb_rewards b)]) ([], 0));
          returns = map2 (+) advantages (rb_values b)
      in (advantages, returns))"

section \<open>Trainer\<close>

definition smooth :: "real \<Rightarrow> real list option \<Rightarrow> real list \<Rightarrow> real list" where
  \<comment> \<open>action smoothing in \<open>select_action\<close>\<close>
  "smooth alpha prev_weights weights =
     (case prev_weights of
        None \<Rightarrow> weights
      | Some prev \<Rightarrow>
          let weights = map2 (\<lambda>w p. alpha * w + (1 - alpha) * p) weights prev
          in map (\<lambda>w. w / sum_list weights) weights)"

definition concentration :: "real list \<Rightarrow> real list" where
  "concentration weights = map (\<lambda>w. w * 10 + 1 / 10 ^ 6) weights"

definition compute_reward :: "ppo_config \<Rightarrow> real \<Rightarrow> real \<Rightarrow> real \<Rightarrow> real \<Rightarrow> real" where
  "compute_reward cfg p99_ms load_variance throughput violations =
     - pp_alpha cfg * p99_ms - pp_beta cfg * load_variance + pp_gamma_r cfg * throughput - pp_delta cfg * violations"

definition standardise :: "real list \<Rightarrow> real list" where
  \<comment> \<open>with the unbiased standard deviation, as torch computes it\<close>
  "standardise xs =
     (let m = vmean xs;
          sd = sqrt (sum_list (map (\<lambda>x. (x - m)\<^sup>2) xs) / (real (length xs) - 1))
      in map (\<lambda>x. (x - m) / (sd + 1 / 10 ^ 8)) xs)"

definition surrogate :: "real \<Rightarrow> real \<Rightarrow> real \<Rightarrow> real" where
  \<comment> \<open>one entry of \<open>torch.min(surr1, surr2)\<close>\<close>
  "surrogate clip_eps ratio adv = min (ratio * adv) (np_clip ratio (1 - clip_eps) (1 + clip_eps) * adv)"

definition minibatches :: "nat \<Rightarrow> 'a list \<Rightarrow> 'a list list" where
  \<comment> \<open>the slices \<open>idx[start : start + batch_size]\<close> for \<open>start\<close> in \<open>range(0, n, batch_size)\<close>\<close>
  "minibatches batch_size idx =
     map (\<lambda>k. take batch_size (drop (k * batch_size) idx)) [0..<(length idx + batch_size - 1) div batch_size]"

record sample =
  sa_state :: "real list"
  sa_action :: "real list"
  sa_log_prob :: real
  sa_advantage :: real
  sa_return :: real

definition gather :: "rollout_buffer \<Rightarrow> real list \<Rightarrow> real list \<Rightarrow> nat \<Rightarrow> sample" where
  "gather b advantages returns i =
     \<lparr>sa_state = rb_states b ! i, sa_action = rb_actions b ! i, sa_log_prob = rb_log_probs b ! i,
      sa_advantage = advantages ! i, sa_return = returns ! i\<rparr>"

definition ppo_update :: "ppo_config \<Rightarrow> (sample list \<Rightarrow> 'net \<Rightarrow> 'net) \<Rightarrow> nat list list \<Rightarrow> 'net \<Rightarrow> rollout_buffer \<Rightarrow> 'net \<times> rollout_buffer" where
  \<comment> \<open>\<open>perms\<close> holds the shuffled index list of each epoch and \<open>step\<close> is the gradient step on a batch\<close>
  "ppo_update cfg step perms net b =
     (let (adv, ret) = compute_gae (pp_gamma cfg) (pp_lam cfg) b 0;
          advantages = standardise adv;
          net = fold (\<lambda>idx net. fold (\<lambda>batch net. step (map (gather b advantages ret) batch) net)
                                  (minibatches (pp_batch_size cfg) idx) net)
                  (take (pp_update_epochs cfg) perms) net
      in (net, rb_clear b))"

section \<open>The trainer's environment\<close>

record lb_env =
  le_loads :: "real list"
  le_capacities :: "real list"
  le_step_count :: nat

definition lb_init :: "ppo_config \<Rightarrow> lb_env" where
  "lb_init cfg = \<lparr>le_loads = replicate (pp_num_backends cfg) 0,
     le_capacities = replicate (pp_num_backends cfg) 100, le_step_count = 0\<rparr>"

definition lb_state :: "lb_env \<Rightarrow> real list" where
  "lb_state e =
     (let cpu = map2 (/) (le_loads e) (le_capacities e); t = real (le_step_count e) / 2000
      in concat (map2 server_features cpu (le_loads e))
         @ [sum_list (le_loads e), np_max cpu * 200, sin (2 * pi * t), cos (2 * pi * t)])"

definition lb_reset :: "lb_env \<Rightarrow> real list \<Rightarrow> lb_env \<times> real list" where
  "lb_reset e us = (let e = e\<lparr>le_loads := map2 (*) us (le_capacities e), le_step_count := 0\<rparr> in (e, lb_state e))"

definition lb_step :: "ppo_config \<Rightarrow> lb_env \<Rightarrow> real list \<Rightarrow> real \<Rightarrow> lb_env \<times> real list \<times> real \<times> bool" where
  \<comment> \<open>\<open>noise\<close> is the draw of \<open>rng.exponential(5)\<close>\<close>
  "lb_step cfg e weights noise =
     (let total_rps = 500 + 300 * sin (real (le_step_count e) / 100);
          arrivals = map (\<lambda>w. w * total_rps) weights;
          e = e\<lparr>le_loads := queue_update 10 (le_capacities e) (le_loads e) arrivals\<rparr>;
          load_fracs = map2 (/) (le_loads e) (le_capacities e);
          p99_ms = np_max load_fracs * 200 + noise;
          variance = np_var load_fracs;
          violations = of_bool (\<exists>c \<in> set load_fracs. c > 1);
          reward = - pp_alpha cfg * p99_ms - pp_beta cfg * variance * 100
                   + pp_gamma_r cfg * total_rps / 10 - pp_delta cfg * violations;
          e = e\<lparr>le_step_count := le_step_count e + 1\<rparr>
      in (e, lb_state e, reward, le_step_count e \<ge> 2048))"

section \<open>The rollout\<close>

record trainer =
  tr_env :: lb_env
  tr_state :: "real list"
  tr_prev_weights :: "real list option"
  tr_buffer :: rollout_buffer
  tr_total_steps :: nat
  tr_episode :: nat

record networks =
  nt_actor :: "real list \<Rightarrow> real list"
  nt_critic :: "real list \<Rightarrow> real"
  nt_log_prob :: "real list \<Rightarrow> real list \<Rightarrow> real" \<comment> \<open>of an action under the Dirichlet with a concentration\<close>

record draws =
  dr_action :: "real list" \<comment> \<open>the sample of the Dirichlet distribution\<close>
  dr_noise :: real
  dr_reset :: "real list"

definition select_action :: "ppo_config \<Rightarrow> networks \<Rightarrow> real list \<Rightarrow> real list option \<Rightarrow> real list \<Rightarrow>
    real list \<times> real \<times> real \<times> real list" where
  \<comment> \<open>action, log probability, value and the weights to smooth with in the next call\<close>
  "select_action cfg nets sampled prev state =
     (let weights = smooth (pp_action_smoothing cfg) prev (nt_actor nets state);
          value = nt_critic nets state
      in (sampled, nt_log_prob nets (concentration weights) sampled, value, weights))"

definition rb_append :: "rollout_buffer \<Rightarrow> real list \<Rightarrow> real list \<Rightarrow> real \<Rightarrow> real \<Rightarrow> real \<Rightarrow> bool \<Rightarrow> rollout_buffer" where
  "rb_append b state action reward value log_prob finished =
     b\<lparr>rb_states := rb_states b @ [state], rb_actions := rb_actions b @ [action],
       rb_rewards := rb_rewards b @ [reward], rb_values := rb_values b @ [value],
       rb_log_probs := rb_log_probs b @ [log_prob], rb_dones := rb_dones b @ [flag finished]\<rparr>"

definition cpu_features :: "nat \<Rightarrow> real list \<Rightarrow> real list" where
  \<comment> \<open>the slice \<open>state[: n * 8 : 8]\<close>\<close>
  "cpu_features n state = map (\<lambda>i. state ! (8 * i)) [0..<n]"

definition rollout_step :: "ppo_config \<Rightarrow> networks \<Rightarrow> draws \<Rightarrow> trainer \<Rightarrow> trainer" where
  "rollout_step cfg nets d s =
     (case select_action cfg nets (dr_action d) (tr_prev_weights s) (tr_state s) of (action, log_prob, value, weights) \<Rightarrow>
        let safe_action = hd (cbf_project (pp_cbf_lambda cfg) (pp_capacity_cap cfg) (5/100) 200
                                [action] [cpu_features (pp_num_backends cfg) (tr_state s)])
        in case lb_step cfg (tr_env s) safe_action (dr_noise d) of (env, next_state, reward, finished) \<Rightarrow>
             let s = s\<lparr>tr_prev_weights := Some weights,
                       tr_buffer := rb_append (tr_buffer s) (tr_state s) safe_action reward value log_prob finished,
                       tr_env := env, tr_state := next_state, tr_total_steps := tr_total_steps s + 1\<rparr>
             in if finished
                then (case lb_reset env (dr_reset d) of (env, state) \<Rightarrow>
                        s\<lparr>tr_env := env, tr_state := state, tr_episode := tr_episode s + 1\<rparr>)
                else s)"

definition train_iteration :: "ppo_config \<Rightarrow> (sample list \<Rightarrow> networks \<Rightarrow> networks) \<Rightarrow>
    draws list \<Rightarrow> nat list list \<Rightarrow> networks \<times> trainer \<Rightarrow> networks \<times> trainer" where
  \<comment> \<open>one pass of the outer loop: a rollout, then an update\<close>
  "train_iteration cfg step ds perms ns =
     (case ns of (nets, s) \<Rightarrow>
        let s = fold (rollout_step cfg nets) (take (pp_rollout_steps cfg) ds) s
        in case ppo_update cfg step perms nets (tr_buffer s) of (nets, b) \<Rightarrow> (nets, s\<lparr>tr_buffer := b\<rparr>))"

section \<open>The projection keeps rows on the simplex\<close>

definition rows_ok :: "nat \<Rightarrow> nat \<Rightarrow> real list list \<Rightarrow> bool" where
  "rows_ok m n rows \<longleftrightarrow> length rows = m \<and> (\<forall>row \<in> set rows. length row = n)"

lemma rows_ok_nth: "rows_ok m n rows \<Longrightarrow> i < m \<Longrightarrow> length (rows ! i) = n"
  by (auto simp: rows_ok_def)

lemma torch_simplex_is_dist: "v \<noteq> [] \<Longrightarrow> is_dist (torch_simplex_project v) \<and> length (torch_simplex_project v) = length v"
  by (simp add: torch_simplex_eq project_simplex_is_dist)

lemma barrier_rows: "rows_ok m n loads \<Longrightarrow> rows_ok m n w \<Longrightarrow> rows_ok m n (barrier cap loads w)"
  by (fastforce simp: rows_ok_def barrier_def set_zip)

lemma torch_cbf_step_rows:
  assumes "rows_ok m n raw" and "rows_ok m n h" and "rows_ok m n w" and "0 < n"
  shows "rows_ok m n (torch_cbf_step lam lr raw h w) \<and> (\<forall>row \<in> set (torch_cbf_step lam lr raw h w). is_dist row)"
proof -
  have len: "length (torch_cbf_step lam lr raw h w) = m" using assms by (simp add: torch_cbf_step_def rows_ok_def)
  have "length (torch_cbf_step lam lr raw h w ! i) = n \<and> is_dist (torch_cbf_step lam lr raw h w ! i)" if "i < m" for i
  proof -
    define v where "v = map (\<lambda>(r, k, x). x - lr * (2 * (x - r) - lam * min k 0)) (zip (raw ! i) (zip (h ! i) (w ! i)))"
    have "torch_cbf_step lam lr raw h w ! i = torch_simplex_project v"
      using assms(1-3) that by (simp add: torch_cbf_step_def rows_ok_def v_def)
    moreover have "length v = n" using assms(1-3) that by (simp add: v_def rows_ok_nth)
    ultimately show ?thesis using torch_simplex_is_dist[of v] assms(4) by auto
  qed
  then show ?thesis using len by (auto simp: rows_ok_def in_set_conv_nth)
qed

lemma torch_cbf_loop_rows:
  assumes "rows_ok m n raw" and "rows_ok m n loads" and "0 < n" and "rows_ok m n w" and "\<forall>row \<in> set w. is_dist row"
  shows "rows_ok m n (torch_cbf_loop lam cap lr raw loads k w) \<and>
    (\<forall>row \<in> set (torch_cbf_loop lam cap lr raw loads k w). is_dist row)"
  using assms(4,5)
proof (induction k arbitrary: w)
  case (Suc k)
  have "rows_ok m n (torch_cbf_step lam lr raw (barrier cap loads w) w) \<and>
      (\<forall>row \<in> set (torch_cbf_step lam lr raw (barrier cap loads w) w). is_dist row)"
    using Suc.prems assms(1-3) by (intro torch_cbf_step_rows barrier_rows)
  then show ?case using Suc.prems Suc.IH[of "torch_cbf_step lam lr raw (barrier cap loads w) w"] by (auto simp: Let_def)
qed simp

lemma cbf_project_rows:
  assumes "rows_ok m n weights" and "rows_ok m n loads" and "0 < n" and "\<forall>row \<in> set weights. is_dist row"
  shows "rows_ok m n (cbf_project lam cap lr k weights loads) \<and> (\<forall>row \<in> set (cbf_project lam cap lr k weights loads). is_dist row)"
  unfolding cbf_project_def using assms by (intro torch_cbf_loop_rows) auto

section \<open>Advantages\<close>

definition td_error :: "real \<Rightarrow> rollout_buffer \<Rightarrow> real \<Rightarrow> nat \<Rightarrow> real" where
  "td_error gamma b last_value t =
     rb_rewards b ! t + gamma * (rb_values b @ [last_value]) ! (t + 1) * (1 - rb_dones b ! t) - (rb_values b @ [last_value]) ! t"

definition gae_sum :: "real \<Rightarrow> real \<Rightarrow> rollout_buffer \<Rightarrow> real \<Rightarrow> nat \<Rightarrow> nat \<Rightarrow> real" where
  \<comment> \<open>the discounted sum of the temporal differences from \<open>t\<close> on, cut where an episode ends\<close>
  "gae_sum gamma lam b last_value n t =
     (\<Sum>k\<in>{t..<n}. (gamma * lam) ^ (k - t) * (\<Prod>j\<in>{t..<k}. 1 - rb_dones b ! j) * td_error gamma b last_value k)"

lemma gae_sum_rec:
  assumes "t < n"
  shows "gae_sum gamma lam b lv n t =
     td_error gamma b lv t + gamma * lam * (1 - rb_dones b ! t) * gae_sum gamma lam b lv n (Suc t)"
proof -
  have "{t..<n} = insert t {Suc t..<n}" using assms by auto
  moreover have "(\<Sum>k\<in>{Suc t..<n}. (gamma * lam) ^ (k - t) * (\<Prod>j\<in>{t..<k}. 1 - rb_dones b ! j) * td_error gamma b lv k)
      = (\<Sum>k\<in>{Suc t..<n}. gamma * lam * (1 - rb_dones b ! t) *
          ((gamma * lam) ^ (k - Suc t) * (\<Prod>j\<in>{Suc t..<k}. 1 - rb_dones b ! j) * td_error gamma b lv k))"
  proof (rule sum.cong[OF refl])
    fix k assume k: "k \<in> {Suc t..<n}"
    then have "k - t = Suc (k - Suc t)" and "{t..<k} = insert t {Suc t..<k}" by auto
    then show "(gamma * lam) ^ (k - t) * (\<Prod>j\<in>{t..<k}. 1 - rb_dones b ! j) * td_error gamma b lv k =
        gamma * lam * (1 - rb_dones b ! t) *
          ((gamma * lam) ^ (k - Suc t) * (\<Prod>j\<in>{Suc t..<k}. 1 - rb_dones b ! j) * td_error gamma b lv k)" by simp
  qed
  ultimately show ?thesis by (simp add: gae_sum_def sum_distrib_left)
qed

lemma gae_fold:
  "t \<le> n \<Longrightarrow> fold (gae_step gamma lam b (rb_values b @ [lv])) (rev [t..<n]) ([], 0) =
     (map (gae_sum gamma lam b lv n) [t..<n], gae_sum gamma lam b lv n t)"
proof (induction "n - t" arbitrary: t)
  case 0
  then show ?case by (simp add: gae_sum_def)
next
  case (Suc m)
  then have t: "t < n" by simp
  then have "[t..<n] = t # [Suc t..<n]" by (simp add: upt_conv_Cons)
  moreover have "fold (gae_step gamma lam b (rb_values b @ [lv])) (rev [Suc t..<n]) ([], 0) =
     (map (gae_sum gamma lam b lv n) [Suc t..<n], gae_sum gamma lam b lv n (Suc t))"
    using Suc t by simp
  ultimately show ?case by (simp add: gae_step_def Let_def gae_sum_rec[OF t] td_error_def)
qed

lemma compute_gae_eq:
  "compute_gae gamma lam b lv =
     (let adv = map (gae_sum gamma lam b lv (length (rb_rewards b))) [0..<length (rb_rewards b)]
      in (adv, map2 (+) adv (rb_values b)))"
  by (simp add: compute_gae_def Let_def gae_fold)

fun discounted :: "real \<Rightarrow> real list \<Rightarrow> real list \<Rightarrow> real \<Rightarrow> real" where
  \<comment> \<open>the discounted return, ending with the episode or with the value of the last state\<close>
  "discounted gamma [] ds lv = lv"
| "discounted gamma (r # rs) ds lv = r + gamma * (1 - hd ds) * discounted gamma rs (tl ds) lv"

lemma gae_sum_monte_carlo:
  assumes "length (rb_rewards b) = n" and "length (rb_values b) = n" and "t \<le> n" and "length (rb_dones b) = n"
  shows "gae_sum gamma 1 b lv n t + (rb_values b @ [lv]) ! t = discounted gamma (drop t (rb_rewards b)) (drop t (rb_dones b)) lv"
  using assms(3)
proof (induction "n - t" arbitrary: t)
  case 0
  then show ?case using assms by (simp add: gae_sum_def nth_append)
next
  case (Suc m)
  then have t: "t < n" by simp
  then have "drop t (rb_rewards b) = rb_rewards b ! t # drop (Suc t) (rb_rewards b)" "hd (drop t (rb_dones b)) = rb_dones b ! t"
    using assms by (simp_all add: Cons_nth_drop_Suc hd_drop_conv_nth)
  moreover have "discounted gamma (drop (Suc t) (rb_rewards b)) (drop (Suc t) (rb_dones b)) lv =
      gae_sum gamma 1 b lv n (Suc t) + (rb_values b @ [lv]) ! Suc t" using Suc t by simp
  ultimately show ?case by (simp add: gae_sum_rec[OF t] td_error_def tl_drop drop_Suc algebra_simps)
qed

section \<open>Smoothing, minibatches and the surrogate\<close>

lemma smooth_Some:
  assumes "is_dist w" and "is_dist p" and "length w = length p"
  shows "smooth alpha (Some p) w = map2 (\<lambda>w p. alpha * w + (1 - alpha) * p) w p"
  using assms by (simp add: smooth_def Let_def map2_affine_sum is_dist_def)

lemma smooth_is_dist:
  assumes "0 \<le> alpha" and "alpha \<le> 1" and "is_dist w" and "length w = n"
    and "\<forall>p. prev = Some p \<longrightarrow> is_dist p \<and> length p = n"
  shows "is_dist (smooth alpha prev w) \<and> length (smooth alpha prev w) = n"
proof (cases prev)
  case None
  then show ?thesis using assms by (simp add: smooth_def)
next
  case (Some p)
  then show ?thesis
    using assms is_dist_mix[of w p alpha "1 - alpha"] by (simp add: smooth_Some)
qed

lemma concat_slices:
  "concat (map (\<lambda>k. take B (drop (k * B) xs)) [0..<m]) = take (m * B) xs"
proof (induction m)
  case (Suc m)
  have "take (Suc m * B) xs = take (m * B + B) xs" by (simp add: add.commute)
  then show ?case using Suc by (simp add: take_add)
qed simp

lemma ceil_div_ge: "0 < B \<Longrightarrow> n \<le> (n + B - 1) div B * (B :: nat)"
  using div_mult_mod_eq[of "n + B - 1" B] mod_less_divisor[of B "n + B - 1"] by linarith

lemma concat_minibatches: "0 < B \<Longrightarrow> concat (minibatches B idx) = idx"
  using ceil_div_ge[of B "length idx"] by (simp add: minibatches_def concat_slices)

lemma fold_append_concat: "fold (\<lambda>batch seen. seen @ map f batch) bs acc = acc @ map f (concat bs)"
  by (induction bs arbitrary: acc) simp_all

lemma fold_epochs:
  "0 < B \<Longrightarrow> fold (\<lambda>idx net. fold (\<lambda>batch net. net @ map f batch) (minibatches B idx) net) perms acc = acc @ map f (concat perms)"
  by (induction perms arbitrary: acc) (simp_all add: fold_append_concat concat_minibatches)

lemma surrogate_cases:
  assumes "0 \<le> eps"
  shows "surrogate eps ratio adv =
     (if 0 \<le> adv then min ratio (1 + eps) * adv else max ratio (1 - eps) * adv)"
proof (cases "0 \<le> adv")
  case True
  have "min (ratio * adv) (np_clip ratio (1 - eps) (1 + eps) * adv) = min ratio (np_clip ratio (1 - eps) (1 + eps)) * adv"
    using True by (simp add: min_mult_distrib_right)
  moreover have "min ratio (np_clip ratio (1 - eps) (1 + eps)) = min ratio (1 + eps)" using assms by (auto simp: np_clip_def)
  ultimately show ?thesis using True by (simp add: surrogate_def)
next
  case False
  have "min (ratio * adv) (np_clip ratio (1 - eps) (1 + eps) * adv) = max ratio (np_clip ratio (1 - eps) (1 + eps)) * adv"
    using False by (simp add: max_mult_distrib_right)
  moreover have "max ratio (np_clip ratio (1 - eps) (1 + eps)) = max ratio (1 - eps)" using assms by (auto simp: np_clip_def)
  ultimately show ?thesis using False by (simp add: surrogate_def)
qed

section \<open>The rollout keeps its invariant\<close>

definition env_ok :: "nat \<Rightarrow> lb_env \<Rightarrow> bool" where
  "env_ok n e \<longleftrightarrow> le_capacities e = replicate n 100 \<and> length (le_loads e) = n \<and> (\<forall>l \<in> set (le_loads e). 0 \<le> l \<and> l \<le> 120)"

definition buffer_ok :: "nat \<Rightarrow> rollout_buffer \<Rightarrow> bool" where
  "buffer_ok n b \<longleftrightarrow>
     (let k = length (rb_rewards b)
      in length (rb_states b) = k \<and> length (rb_actions b) = k \<and> length (rb_values b) = k \<and>
         length (rb_log_probs b) = k \<and> length (rb_dones b) = k \<and>
         (\<forall>a \<in> set (rb_actions b). is_dist a \<and> length a = n) \<and>
         (\<forall>st \<in> set (rb_states b). length st = n * 8 + 4) \<and> (\<forall>d \<in> set (rb_dones b). d = 0 \<or> d = 1))"

definition trainer_ok :: "ppo_config \<Rightarrow> trainer \<Rightarrow> bool" where
  "trainer_ok cfg s \<longleftrightarrow> env_ok (pp_num_backends cfg) (tr_env s) \<and> tr_state s = lb_state (tr_env s) \<and>
     (\<forall>w. tr_prev_weights s = Some w \<longrightarrow> is_dist w \<and> length w = pp_num_backends cfg) \<and>
     buffer_ok (pp_num_backends cfg) (tr_buffer s)"

definition ppo_ready :: "ppo_config \<Rightarrow> networks \<Rightarrow> bool" where
  \<comment> \<open>the ranges of the settings, and an actor that is a policy\<close>
  "ppo_ready cfg nets \<longleftrightarrow> 0 < pp_num_backends cfg \<and> 0 \<le> pp_action_smoothing cfg \<and> pp_action_smoothing cfg \<le> 1 \<and>
     (\<forall>st. is_dist (nt_actor nets st) \<and> length (nt_actor nets st) = pp_num_backends cfg)"

definition draws_in_range :: "ppo_config \<Rightarrow> draws \<Rightarrow> bool" where
  "draws_in_range cfg d \<longleftrightarrow> is_dist (dr_action d) \<and> length (dr_action d) = pp_num_backends cfg \<and>
     length (dr_reset d) = pp_num_backends cfg \<and> (\<forall>u \<in> set (dr_reset d). 0 \<le> u \<and> u \<le> 3/10)"

lemma lb_state_length: "length (le_capacities e) = length (le_loads e) \<Longrightarrow> length (lb_state e) = length (le_loads e) * 8 + 4"
proof -
  assume l: "length (le_capacities e) = length (le_loads e)"
  have "length (concat (map2 server_features (map2 (/) (le_loads e) (le_capacities e)) (le_loads e))) =
      8 * length (map2 server_features (map2 (/) (le_loads e) (le_capacities e)) (le_loads e))"
    by (rule length_concat_const) (auto simp: server_features_def)
  then show ?thesis using l by (simp add: lb_state_def Let_def)
qed

lemma lb_step_env:
  "fst (lb_step cfg e w noise) = e\<lparr>le_loads := queue_update 10 (le_capacities e) (le_loads e)
      (map (\<lambda>w. w * (500 + 300 * sin (real (le_step_count e) / 100))) w), le_step_count := le_step_count e + 1\<rparr>"
  "fst (snd (lb_step cfg e w noise)) = lb_state (fst (lb_step cfg e w noise))"
  "snd (snd (snd (lb_step cfg e w noise))) = (le_step_count e + 1 \<ge> 2048)"
  by (simp_all add: lb_step_def Let_def)

lemma env_ok_state: "env_ok n e \<Longrightarrow> length (lb_state e) = n * 8 + 4"
  by (simp add: env_ok_def lb_state_length)

lemma lb_step_ok:
  assumes "env_ok n e" and "length w = n"
  shows "env_ok n (fst (lb_step cfg e w noise))"
proof -
  let ?arr = "map (\<lambda>w. w * (500 + 300 * sin (real (le_step_count e) / 100))) w"
  have "0 \<le> l \<and> l \<le> 12/10 * 100" if "l \<in> set (queue_update 10 (replicate n 100) (le_loads e) ?arr)" for l
    using assms that by (intro queue_update_range[of ?arr n "le_loads e" l 10 100]) (simp_all add: env_ok_def)
  then show ?thesis using assms by (auto simp: lb_step_env env_ok_def)
qed

lemma lb_reset_ok:
  assumes "env_ok n e" and "length us = n" and "\<forall>u \<in> set us. 0 \<le> u \<and> u \<le> 3/10"
  shows "env_ok n (fst (lb_reset e us))" and "snd (lb_reset e us) = lb_state (fst (lb_reset e us))"
proof -
  have "map2 (*) us (replicate n 100) = map (\<lambda>u. u * 100) us" using assms(2) by (induction us arbitrary: n) auto
  then show "env_ok n (fst (lb_reset e us))" using assms by (force simp: lb_reset_def Let_def env_ok_def)
qed (simp add: lb_reset_def Let_def)

lemma rb_append_ok:
  "buffer_ok n b \<Longrightarrow> length st = n * 8 + 4 \<Longrightarrow> is_dist a \<Longrightarrow> length a = n \<Longrightarrow> buffer_ok n (rb_append b st a r v lp f)"
  by (auto simp: buffer_ok_def rb_append_def Let_def flag_def)

lemma safe_action_ok:
  assumes "is_dist a" and "length a = n" and "0 < n"
  shows "is_dist (hd (cbf_project lam cap lr k [a] [cpu_features n st])) \<and>
    length (hd (cbf_project lam cap lr k [a] [cpu_features n st])) = n"
proof -
  have "rows_ok 1 n (cbf_project lam cap lr k [a] [cpu_features n st]) \<and>
      (\<forall>row \<in> set (cbf_project lam cap lr k [a] [cpu_features n st]). is_dist row)"
    using assms by (intro cbf_project_rows) (simp_all add: rows_ok_def cpu_features_def)
  then show ?thesis by (cases "cbf_project lam cap lr k [a] [cpu_features n st]") (auto simp: rows_ok_def)
qed

lemma rollout_step_ok:
  assumes "ppo_ready cfg nets" and "draws_in_range cfg d" and "trainer_ok cfg s"
  shows "trainer_ok cfg (rollout_step cfg nets d s)"
proof -
  let ?n = "pp_num_backends cfg"
  define w where "w = smooth (pp_action_smoothing cfg) (tr_prev_weights s) (nt_actor nets (tr_state s))"
  define a where "a = hd (cbf_project (pp_cbf_lambda cfg) (pp_capacity_cap cfg) (5/100) 200
                                [dr_action d] [cpu_features ?n (tr_state s)])"
  obtain e st r f where step: "lb_step cfg (tr_env s) a (dr_noise d) = (e, st, r, f)" by (metis prod_cases4)
  note s = assms(3)[unfolded trainer_ok_def]
  have w: "is_dist w \<and> length w = ?n"
    unfolding w_def using assms(1) s by (intro smooth_is_dist) (auto simp: ppo_ready_def)
  have a: "is_dist a" "length a = ?n"
    unfolding a_def using safe_action_ok assms(1,2) by (auto simp: ppo_ready_def draws_in_range_def)
  have e: "env_ok ?n e" "st = lb_state e"
    using lb_step_ok[of ?n "tr_env s" a cfg "dr_noise d"] lb_step_env(2)[of cfg "tr_env s" a "dr_noise d"] step s a
    by simp_all
  have b: "buffer_ok ?n (rb_append (tr_buffer s) (tr_state s) a r v lp f)" for v lp
    using s a env_ok_state by (intro rb_append_ok) auto
  have reset: "env_ok ?n (fst (lb_reset e (dr_reset d)))"
    "snd (lb_reset e (dr_reset d)) = lb_state (fst (lb_reset e (dr_reset d)))"
    using lb_reset_ok[OF e(1)] assms(2) by (simp_all add: draws_in_range_def)
  have eq: "rollout_step cfg nets d s =
      (let s = s\<lparr>tr_prev_weights := Some w,
                 tr_buffer := rb_append (tr_buffer s) (tr_state s) a r (nt_critic nets (tr_state s))
                                (nt_log_prob nets (concentration w) (dr_action d)) f,
                 tr_env := e, tr_state := st, tr_total_steps := tr_total_steps s + 1\<rparr>
       in if f then (case lb_reset e (dr_reset d) of (env, state) \<Rightarrow>
                       s\<lparr>tr_env := env, tr_state := state, tr_episode := tr_episode s + 1\<rparr>)
          else s)"
    by (simp only: rollout_step_def select_action_def Let_def prod.case step flip: a_def w_def)
  show ?thesis using w e b reset unfolding eq trainer_ok_def Let_def
    by (cases f) (simp_all add: split_beta)
qed

lemma rollout_ok:
  assumes "ppo_ready cfg nets" and "\<forall>d \<in> set ds. draws_in_range cfg d" and "trainer_ok cfg s"
  shows "trainer_ok cfg (fold (rollout_step cfg nets) ds s)"
  using assms(2,3)
proof (induction ds arbitrary: s)
  case (Cons d ds)
  then show ?case using rollout_step_ok[OF assms(1), of d s] by simp
qed simp

lemma rollout_step_counts:
  "tr_total_steps (rollout_step cfg nets d s) = tr_total_steps s + 1"
  "length (rb_rewards (tr_buffer (rollout_step cfg nets d s))) = length (rb_rewards (tr_buffer s)) + 1"
  by (simp_all add: rollout_step_def select_action_def rb_append_def Let_def split: prod.splits)

lemma rollout_counts:
  "tr_total_steps (fold (rollout_step cfg nets) ds s) = tr_total_steps s + length ds"
  "length (rb_rewards (tr_buffer (fold (rollout_step cfg nets) ds s))) = length (rb_rewards (tr_buffer s)) + length ds"
  by (induction ds arbitrary: s) (simp_all add: rollout_step_counts)

lemma train_iteration_ok:
  assumes "ppo_ready cfg nets" and "\<forall>d \<in> set ds. draws_in_range cfg d" and "length ds = pp_rollout_steps cfg"
    and "trainer_ok cfg s"
  shows "trainer_ok cfg (snd (train_iteration cfg step ds perms (nets, s)))"
    and "tr_total_steps (snd (train_iteration cfg step ds perms (nets, s))) = tr_total_steps s + pp_rollout_steps cfg"
    and "tr_buffer (snd (train_iteration cfg step ds perms (nets, s))) = rb_empty"
proof -
  define f where "f = fold (rollout_step cfg nets) ds s"
  have f: "trainer_ok cfg f" unfolding f_def using rollout_ok assms(1,2,4) .
  have eq: "snd (train_iteration cfg step ds perms (nets, s)) = f\<lparr>tr_buffer := rb_empty\<rparr>"
    using assms(3) by (simp add: train_iteration_def ppo_update_def Let_def split_beta f_def[symmetric] rb_clear_def rb_empty_def)
  show "trainer_ok cfg (snd (train_iteration cfg step ds perms (nets, s)))"
    using f by (simp add: eq trainer_ok_def buffer_ok_def rb_empty_def)
  show "tr_total_steps (snd (train_iteration cfg step ds perms (nets, s))) = tr_total_steps s + pp_rollout_steps cfg"
    using rollout_counts(1)[of cfg nets ds s] assms(3) by (simp add: eq f_def)
  show "tr_buffer (snd (train_iteration cfg step ds perms (nets, s))) = rb_empty" by (simp add: eq)
qed

section \<open>Properties\<close>

text \<open>
  C35. The advantage recursion computes its closed form: each advantage is the discounted sum of the
  temporal differences from its step on, with factor gamma times lambda, cut at the first end of
  an episode; the returns add the value estimates.
\<close>

theorem gae_closed_form:
  assumes "t < length (rb_rewards b)" and "length (rb_values b) = length (rb_rewards b)"
  shows "fst (compute_gae gamma lam b last_value) ! t =
       (\<Sum>k\<in>{t..<length (rb_rewards b)}. (gamma * lam) ^ (k - t) * (\<Prod>j\<in>{t..<k}. 1 - rb_dones b ! j) *
          (rb_rewards b ! k + gamma * (rb_values b @ [last_value]) ! (k + 1) * (1 - rb_dones b ! k) - rb_values b ! k)) \<and>
     snd (compute_gae gamma lam b last_value) ! t = fst (compute_gae gamma lam b last_value) ! t + rb_values b ! t"
proof -
  have "td_error gamma b last_value k = rb_rewards b ! k + gamma * (rb_values b @ [last_value]) ! (k + 1) * (1 - rb_dones b ! k)
      - rb_values b ! k" if "k \<in> {t..<length (rb_rewards b)}" for k
    using that assms(2) by (simp add: td_error_def nth_append)
  then show ?thesis using assms by (simp add: compute_gae_eq Let_def gae_sum_def)
qed

definition demo_buffer :: rollout_buffer where
  "demo_buffer = \<lparr>rb_states = [[0], [0]], rb_actions = [[1], [1]], rb_rewards = [1, 2], rb_values = [3, 4],
     rb_log_probs = [0, 0], rb_dones = [0, 1]\<rparr>"

theorem gae_closed_form_witness: "fst (compute_gae 1 1 demo_buffer 9) ! 1 = -2"
  using gae_closed_form[of 1 demo_buffer 1 1 9] by (simp add: demo_buffer_def)

text \<open>
  With lambda one the returns are the Monte Carlo returns: the discounted rewards up to the end of
  the episode, or up to the end of the buffer with the given last value, whatever the critic's
  estimates were.
\<close>

theorem gae_lambda_one_returns:
  assumes "length (rb_values b) = length (rb_rewards b)" and "length (rb_dones b) = length (rb_rewards b)"
  shows "snd (compute_gae gamma 1 b last_value) =
     map (\<lambda>t. discounted gamma (drop t (rb_rewards b)) (drop t (rb_dones b)) last_value) [0..<length (rb_rewards b)]"
proof (rule nth_equalityI)
  fix t assume "t < length (snd (compute_gae gamma 1 b last_value))"
  then have t: "t < length (rb_rewards b)" using assms by (simp add: compute_gae_eq Let_def)
  then show "snd (compute_gae gamma 1 b last_value) ! t =
      map (\<lambda>t. discounted gamma (drop t (rb_rewards b)) (drop t (rb_dones b)) last_value) [0..<length (rb_rewards b)] ! t"
    using gae_sum_monte_carlo[of b "length (rb_rewards b)" t gamma last_value] assms
    by (simp add: compute_gae_eq Let_def nth_append)
qed (use assms in \<open>simp add: compute_gae_eq Let_def\<close>)

theorem gae_lambda_one_returns_witness: "snd (compute_gae (1/2) 1 demo_buffer 9) = [2, 2]"
  using gae_lambda_one_returns[of demo_buffer "1/2" 9] by (simp add: demo_buffer_def upt_rec)

text \<open>
  Nothing leaks across the end of an episode: the advantages up to a step that ends one depend
  only on the entries up to that step, neither on what follows nor on the bootstrap value.
\<close>

theorem gae_stops_at_done:
  assumes "m < length (rb_rewards b)" and "m < length (rb_rewards c)" and "t \<le> m" and "rb_dones b ! m = 1"
    and "length (rb_values b) = length (rb_rewards b)" and "length (rb_values c) = length (rb_rewards c)"
    and "\<forall>i \<le> m. rb_rewards b ! i = rb_rewards c ! i \<and> rb_values b ! i = rb_values c ! i \<and> rb_dones b ! i = rb_dones c ! i"
  shows "fst (compute_gae gamma lam b v) ! t = fst (compute_gae gamma lam c v') ! t"
proof -
  have "gae_sum gamma lam b v (length (rb_rewards b)) t = gae_sum gamma lam c v' (length (rb_rewards c)) t"
    using assms(3)
  proof (induction "m - t" arbitrary: t)
    case 0
    then have "t = m" by simp
    then show ?case using assms by (simp add: gae_sum_rec td_error_def nth_append)
  next
    case (Suc d)
    then have t: "t < m" by simp
    have "gae_sum gamma lam b v (length (rb_rewards b)) (Suc t) = gae_sum gamma lam c v' (length (rb_rewards c)) (Suc t)"
      using Suc t by simp
    moreover have "td_error gamma b v t = td_error gamma c v' t"
      using t assms by (simp add: td_error_def nth_append)
    ultimately show ?case using t assms by (simp add: gae_sum_rec)
  qed
  then show ?thesis using assms by (simp add: compute_gae_eq Let_def)
qed

theorem gae_stops_at_done_witness:
  "fst (compute_gae 1 1 demo_buffer 5) ! 0 = fst (compute_gae 1 1 demo_buffer 7) ! 0"
  using gae_stops_at_done[of 1 demo_buffer demo_buffer 0 1 1 5 7] by (simp add: demo_buffer_def)

text \<open>
  An update passes every sample to the gradient step exactly once per epoch, in the order of the
  epoch's shuffle and whatever the batch size, and leaves the buffer empty.
\<close>

theorem update_visits_each_sample:
  assumes "0 < pp_batch_size cfg" and "length perms = pp_update_epochs cfg"
    and "\<forall>p \<in> set perms. mset p = mset [0..<length (rb_rewards b)]"
  shows "(let (adv, ret) = compute_gae (pp_gamma cfg) (pp_lam cfg) b 0;
              samples = map (gather b (standardise adv) ret) [0..<length (rb_rewards b)];
              (seen, b') = ppo_update cfg (\<lambda>batch seen. seen @ batch) perms [] b
          in mset seen = repeat_mset (pp_update_epochs cfg) (mset samples) \<and> b' = rb_empty)"
proof -
  obtain adv ret where g: "compute_gae (pp_gamma cfg) (pp_lam cfg) b 0 = (adv, ret)" by fastforce
  define f where "f = gather b (standardise adv) ret"
  have "mset (map f (concat ps)) = repeat_mset (length ps) (mset (map f [0..<length (rb_rewards b)]))"
    if "\<forall>p \<in> set ps. mset p = mset [0..<length (rb_rewards b)]" for ps
    using that by (induction ps) simp_all
  then show ?thesis using assms
    by (simp add: g f_def[symmetric] ppo_update_def fold_epochs rb_clear_def rb_empty_def Let_def)
qed

theorem update_visits_each_sample_witness:
  "mset (fst (ppo_update (ppo_default 1\<lparr>pp_update_epochs := 1\<rparr>) (\<lambda>batch seen. seen @ batch) [[1, 0]] [] demo_buffer))
    = mset (map (gather demo_buffer (standardise (fst (compute_gae (99/100) (95/100) demo_buffer 0)))
                  (snd (compute_gae (99/100) (95/100) demo_buffer 0))) [0, 1])"
  using update_visits_each_sample[of "ppo_default 1\<lparr>pp_update_epochs := 1\<rparr>" "[[1, 0]]" demo_buffer]
  by (simp add: ppo_default_def demo_buffer_def split_beta Let_def upt_rec)

text \<open>
  The clipped surrogate is pessimistic: it equals the plain objective inside the clipping range and
  never rewards moving beyond it, upwards for a positive and downwards for a negative advantage.
\<close>

theorem surrogate_pessimistic:
  assumes "0 \<le> eps"
  shows "surrogate eps ratio adv \<le> ratio * adv \<and>
     (1 - eps \<le> ratio \<and> ratio \<le> 1 + eps \<longrightarrow> surrogate eps ratio adv = ratio * adv) \<and>
     (0 \<le> adv \<longrightarrow> surrogate eps ratio adv \<le> (1 + eps) * adv) \<and> (adv < 0 \<longrightarrow> surrogate eps ratio adv \<le> (1 - eps) * adv)"
  using assms
  by (auto simp: surrogate_cases min_def max_def intro: mult_right_mono mult_right_mono_neg)

theorem surrogate_pessimistic_witness: "surrogate (2/10) 3 5 \<le> 6"
  using surrogate_pessimistic[of "2/10" 3 5] by simp

text \<open>
  Action smoothing damps the policy: the smoothed weights are again a probability vector and no
  backend's weight moves by more than the smoothing factor in one call.
\<close>

theorem smoothing_damps:
  assumes "0 \<le> alpha" and "alpha \<le> 1" and "is_dist w" and "is_dist p" and "length w = length p" and "i < length p"
  shows "is_dist (smooth alpha (Some p) w) \<and> \<bar>smooth alpha (Some p) w ! i - p ! i\<bar> \<le> alpha"
proof -
  have r: "0 \<le> w ! i \<and> w ! i \<le> 1" "0 \<le> p ! i \<and> p ! i \<le> 1" using assms by (simp_all add: is_dist_le_one)
  have "smooth alpha (Some p) w ! i - p ! i = alpha * (w ! i - p ! i)"
    using assms by (simp add: smooth_Some algebra_simps)
  moreover have "\<bar>alpha * (w ! i - p ! i)\<bar> \<le> alpha * 1"
    unfolding abs_mult using assms(1) r by (intro mult_mono) auto
  ultimately have "\<bar>smooth alpha (Some p) w ! i - p ! i\<bar> \<le> alpha" by simp
  moreover have "is_dist (smooth alpha (Some p) w) \<and> length (smooth alpha (Some p) w) = length p"
    using assms by (intro smooth_is_dist) auto
  ultimately show ?thesis by blast
qed

theorem smoothing_damps_witness: "\<bar>smooth (7/10) (Some [1, 0]) [0, 1] ! 0 - 1\<bar> \<le> 7/10"
  using smoothing_damps[of "7/10" "[0, 1]" "[1, 0]" 0] by (simp add: is_dist_def)

text \<open>
  C34. A training iteration keeps the trainer consistent whatever is sampled: the environment stays in
  its bounds, observations have the advertised length, every stored action is a probability vector
  over the backends (also after the safety projection), the lists of the buffer stay aligned, and
  the iteration takes exactly the configured number of steps and empties the buffer.
\<close>

theorem train_iteration_consistent:
  assumes "ppo_ready cfg nets" and "\<forall>d \<in> set ds. draws_in_range cfg d" and "length ds = pp_rollout_steps cfg"
    and "trainer_ok cfg s" and "tr_buffer s = rb_empty"
  shows "(let filled = fold (rollout_step cfg nets) ds s; s' = snd (train_iteration cfg step ds perms (nets, s))
          in trainer_ok cfg filled \<and> length (rb_actions (tr_buffer filled)) = pp_rollout_steps cfg \<and>
             trainer_ok cfg s' \<and> tr_total_steps s' = tr_total_steps s + pp_rollout_steps cfg \<and> tr_buffer s' = rb_empty)"
proof -
  define f where "f = fold (rollout_step cfg nets) ds s"
  have f: "trainer_ok cfg f" unfolding f_def using rollout_ok assms(1,2,4) .
  then have "length (rb_actions (tr_buffer f)) = pp_rollout_steps cfg"
    using rollout_counts[of cfg nets ds s] assms(3,5)
    by (simp add: f_def rb_empty_def trainer_ok_def buffer_ok_def Let_def)
  then show ?thesis using f train_iteration_ok[OF assms(1-4), of step perms] by (simp add: Let_def f_def[symmetric])
qed

definition demo_nets :: networks where
  "demo_nets = \<lparr>nt_actor = (\<lambda>st. [1/2, 1/2]), nt_critic = (\<lambda>st. 0), nt_log_prob = (\<lambda>c a. 0)\<rparr>"

definition demo_trainer :: "ppo_config \<Rightarrow> trainer" where
  "demo_trainer cfg = \<lparr>tr_env = lb_init cfg, tr_state = lb_state (lb_init cfg), tr_prev_weights = None,
     tr_buffer = rb_empty, tr_total_steps = 0, tr_episode = 0\<rparr>"

lemma demo_trainer_ok: "trainer_ok cfg (demo_trainer cfg)"
  by (simp add: demo_trainer_def trainer_ok_def env_ok_def lb_init_def buffer_ok_def rb_empty_def)

theorem train_iteration_consistent_witness:
  "tr_total_steps (snd (train_iteration (ppo_default 2\<lparr>pp_rollout_steps := 1\<rparr>) (\<lambda>batch nets. nets)
      [\<lparr>dr_action = [1, 0], dr_noise = 5, dr_reset = [0, 0]\<rparr>] []
      (demo_nets, demo_trainer (ppo_default 2\<lparr>pp_rollout_steps := 1\<rparr>)))) = 1"
proof -
  let ?cfg = "ppo_default 2\<lparr>pp_rollout_steps := 1\<rparr>" and ?ds = "[\<lparr>dr_action = [1, 0], dr_noise = 5, dr_reset = [0, 0]\<rparr>]"
  have "ppo_ready ?cfg demo_nets" by (simp add: ppo_ready_def ppo_default_def demo_nets_def is_dist_def)
  moreover have "\<forall>d \<in> set ?ds. draws_in_range ?cfg d" by (simp add: draws_in_range_def ppo_default_def is_dist_def)
  moreover have "length ?ds = pp_rollout_steps ?cfg" by simp
  moreover have "tr_buffer (demo_trainer ?cfg) = rb_empty" by (simp add: demo_trainer_def)
  ultimately have "tr_total_steps (snd (train_iteration ?cfg (\<lambda>batch nets. nets) ?ds [] (demo_nets, demo_trainer ?cfg))) =
      tr_total_steps (demo_trainer ?cfg) + pp_rollout_steps ?cfg"
    using train_iteration_consistent[of ?cfg demo_nets ?ds "demo_trainer ?cfg" "\<lambda>batch nets. nets" "[]", OF _ _ _ demo_trainer_ok]
    unfolding Let_def by blast
  also have "\<dots> = 1" by (simp add: demo_trainer_def)
  finally show ?thesis .
qed

text \<open>
  The two copies of the environment move in step: from the same loads, \<open>LBSimEnv\<close> of
  \<open>ml/simulation/lb_env.py\<close> with its default configuration and the trainer's own \<open>LBSimEnv\<close> have, after
  any probability vector, the same loads, the same observation and the same end of episode. Only
  the rewards differ.
\<close>

theorem environments_agree:
  assumes "se_cfg e = sim_default n" and "se_loads e = le_loads p" and "se_capacities e = le_capacities p"
    and "se_step_count e = le_step_count p" and "is_dist w"
  shows "(case lb_step cfg p w noise of (p', st, reward, finished) \<Rightarrow>
            let r = sim_step e w noise'
            in se_loads (sr_env r) = le_loads p' \<and> se_step_count (sr_env r) = le_step_count p' \<and>
               sr_state r = st \<and> (sr_terminated r \<or> sr_truncated r) = finished)"
proof -
  have "normalise_weights n w = w" using assms(5) by (simp add: normalise_weights_def is_dist_def)
  then have loads: "step_loads e w = queue_update 10 (le_capacities p) (le_loads p)
      (map (\<lambda>w. w * (500 + 300 * sin (real (le_step_count p) / 100))) w)"
    using assms by (simp add: step_loads_def step_arrivals_def sim_default_def traffic_def)
  then show ?thesis using assms lb_step_env[of cfg p w noise]
    by (simp add: split_beta Let_def sim_step_outputs(1,2,3) sim_step_env env_state_def lb_state_def cpu_of_def sim_default_def)
qed

theorem environments_agree_witness:
  "sr_state (sim_step (sim_init (sim_default 2)) [1/2, 1/2] 5) = fst (snd (lb_step (ppo_default 2) (lb_init (ppo_default 2)) [1/2, 1/2] 7))"
  using environments_agree[of "sim_init (sim_default 2)" 2 "lb_init (ppo_default 2)" "[1/2, 1/2]" 5 "ppo_default 2" 7]
  by (simp add: sim_init_def lb_init_def ppo_default_def sim_default_def is_dist_def split_beta Let_def)

end
