(* ===== verification/Dqn_Training.thy ===== *)
theory Dqn_Training
  imports Omega_Prelude
begin

text \<open>
  The rate-limit trainer of \<open>ml/dqn_a3c/train_dqn_a3c.py\<close>: the replay buffer, the DQN agent with
  its epsilon schedule, update guard and target network, the simulated service, the per-service
  training step, and the A3C side with its n-step returns and the gradients the workers share.
  The networks and the optimiser are parameters, the random draws are arguments.
\<close>

section \<open>Configuration and replay buffer\<close>

record dqn_config =
  dc_state_dim :: nat
  dc_action_dim :: nat
  dc_gamma :: real
  dc_epsilon_start :: real
  dc_epsilon_end :: real
  dc_epsilon_decay :: nat
  dc_replay_capacity :: nat
  dc_batch_size :: nat
  dc_target_update_freq :: nat
  dc_total_steps :: nat
  dc_num_services :: nat

definition dqn_default :: dqn_config where
  "dqn_default =
     \<lparr>dc_state_dim = 6, dc_action_dim = 3, dc_gamma = 99/100, dc_epsilon_start = 1, dc_epsilon_end = 5/100,
      dc_epsilon_decay = 10000, dc_replay_capacity = 50000, dc_batch_size = 64, dc_target_update_freq = 500,
      dc_total_steps = 100000, dc_num_services = 4\<rparr>"

record transition =
  tn_state :: "real list"
  tn_action :: nat
  tn_reward :: real
  tn_next_state :: "real list"
  tn_done :: real

definition buffer_push :: "nat \<Rightarrow> transition list \<Rightarrow> transition \<Rightarrow> transition list" where
  "buffer_push capacity buf t = deque_push capacity buf t"

definition buffer_sample :: "nat list \<Rightarrow> transition list \<Rightarrow> nat \<Rightarrow> py_err + transition list" where
  \<comment> \<open>\<open>picks\<close> are the positions drawn by \<open>random.sample\<close>, which raises when there are too few\<close>
  "buffer_sample picks buf n =
     (if length buf < n then Inl ValueError else Inr (map (\<lambda>i. buf ! i) (take n picks)))"

interpretation replay: bounded_log "buffer_push capacity" "\<lambda>buf. buf" capacity for capacity
  by unfold_locales (simp_all add: buffer_push_def length_deque_push set_deque_push)

section \<open>Agent\<close>

record 'net dqn_agent =
  da_policy :: 'net
  da_target :: 'net
  da_buffer :: "transition list"
  da_step_count :: nat
  da_epsilon :: real

definition agent_init :: "dqn_config \<Rightarrow> 'net \<Rightarrow> 'net dqn_agent" where
  "agent_init cfg net =
     \<lparr>da_policy = net, da_target = net, da_buffer = [], da_step_count = 0, da_epsilon = dc_epsilon_start cfg\<rparr>"

definition agent_select :: "('net \<Rightarrow> real list \<Rightarrow> real list) \<Rightarrow> dqn_config \<Rightarrow> real \<times> nat \<Rightarrow> 'net dqn_agent \<Rightarrow> real list \<Rightarrow>
    'net dqn_agent \<times> nat" where
  \<comment> \<open>\<open>draw\<close>: the number compared with epsilon and the action drawn when exploring\<close>
  "agent_select q cfg draw a state =
     (let a = a\<lparr>da_epsilon := max (dc_epsilon_end cfg)
                  (dc_epsilon_start cfg - real (da_step_count a) / real (dc_epsilon_decay cfg))\<rparr>
      in if fst draw < da_epsilon a then (a, snd draw) else (a, np_argmax (q (da_policy a) state)))"

definition q_targets :: "('net \<Rightarrow> real list \<Rightarrow> real list) \<Rightarrow> real \<Rightarrow> 'net \<Rightarrow> transition list \<Rightarrow> real list" where
  "q_targets q gamma target batch =
     map (\<lambda>t. tn_reward t + gamma * np_max (q target (tn_next_state t)) * (1 - tn_done t)) batch"

definition smooth_l1 :: "real list \<Rightarrow> real list \<Rightarrow> real" where
  "smooth_l1 xs ys = vmean (map2 (\<lambda>x y. if \<bar>x - y\<bar> < 1 then (x - y)\<^sup>2 / 2 else \<bar>x - y\<bar> - 1/2) xs ys)"

definition agent_update :: "('net \<Rightarrow> real list \<Rightarrow> real list) \<Rightarrow> (transition list \<Rightarrow> real list \<Rightarrow> 'net \<Rightarrow> 'net) \<Rightarrow>
    dqn_config \<Rightarrow> nat list \<Rightarrow> 'net dqn_agent \<Rightarrow> py_err + 'net dqn_agent \<times> real" where
  \<comment> \<open>\<open>fit\<close> is the optimiser step towards the targets; the loss is the value before it\<close>
  "agent_update q fit cfg picks a =
     (if length (da_buffer a) < dc_batch_size cfg then Inr (a, 0)
      else bindE (buffer_sample picks (da_buffer a) (dc_batch_size cfg)) (\<lambda>batch.
           let targets = q_targets q (dc_gamma cfg) (da_target a) batch;
               loss = smooth_l1 (map (\<lambda>t. q (da_policy a) (tn_state t) ! tn_action t) batch) targets;
               a = a\<lparr>da_policy := fit batch targets (da_policy a)\<rparr>;
               a = a\<lparr>da_step_count := da_step_count a + 1\<rparr>;
               a = (if da_step_count a mod dc_target_update_freq cfg = 0 then a\<lparr>da_target := da_policy a\<rparr> else a)
           in Inr (a, loss)))"

section \<open>The simulated service\<close>

record rate_env =
  re_current_limit :: real
  re_min_rps :: real
  re_max_rps :: real
  re_step_n :: nat

definition rate_init :: rate_env where
  "rate_init = \<lparr>re_current_limit = 1000, re_min_rps = 100, re_max_rps = 10000, re_step_n = 0\<rparr>"

definition true_rps :: "rate_env \<Rightarrow> real" where
  "true_rps e = 800 + 400 * sin (real (re_step_n e) / 200)"

definition cpu_pct :: "rate_env \<Rightarrow> real" where
  "cpu_pct e = min 1 (true_rps e / (re_current_limit e + 1))"

definition rate_observe :: "rate_env \<Rightarrow> real list" where
  "rate_observe e =
     [true_rps e / 10000, cpu_pct e, 0, max 0 (cpu_pct e - 85/100), cpu_pct e * 200, re_current_limit e / 10000]"

definition rate_reset :: "rate_env \<Rightarrow> rate_env \<times> real list" where
  "rate_reset e = (let e = e\<lparr>re_current_limit := 1000, re_step_n := 0\<rparr> in (e, rate_observe e))"

definition apply_action :: "rate_env \<Rightarrow> nat \<Rightarrow> rate_env" where
  "apply_action e action =
     (if action = 0 then e\<lparr>re_current_limit := max (re_min_rps e) (re_current_limit e * (90/100))\<rparr>
      else if action = 2 then e\<lparr>re_current_limit := min (re_max_rps e) (re_current_limit e * (110/100))\<rparr>
      else e)"

definition rate_reward :: "rate_env \<Rightarrow> real" where
  "rate_reward e =
     (let error_r = max 0 (cpu_pct e - 85/100) * 2
      in min (re_current_limit e) (true_rps e) / 100 - error_r * 100 - max 0 (cpu_pct e - 90/100) * 10 ^ 9)"

definition rate_step :: "rate_env \<Rightarrow> nat \<Rightarrow> rate_env \<times> real list \<times> real \<times> bool" where
  "rate_step e action =
     (let e = apply_action e action;
          reward = rate_reward e;
          e = e\<lparr>re_step_n := re_step_n e + 1\<rparr>
      in (e, rate_observe e, reward, re_step_n e \<ge> 1000))"

section \<open>The per-service training step\<close>

record 'net dqn_run =
  dn_agent :: "'net dqn_agent"
  dn_env :: rate_env
  dn_state :: "real list"

definition service_step :: "('net \<Rightarrow> real list \<Rightarrow> real list) \<Rightarrow> (transition list \<Rightarrow> real list \<Rightarrow> 'net \<Rightarrow> 'net) \<Rightarrow>
    dqn_config \<Rightarrow> (real \<times> nat) \<times> nat list \<Rightarrow> 'net dqn_run \<Rightarrow> py_err + 'net dqn_run" where
  \<comment> \<open>the body of the loop over the services in \<open>train\<close>\<close>
  "service_step q fit cfg inp s =
     (case agent_select q cfg (fst inp) (dn_agent s) (dn_state s) of (agent, action) \<Rightarrow>
      case rate_step (dn_env s) action of (env, next_state, reward, finished) \<Rightarrow>
        let agent = agent\<lparr>da_buffer := buffer_push (dc_replay_capacity cfg) (da_buffer agent)
                      \<lparr>tn_state = dn_state s, tn_action = action, tn_reward = reward,
                       tn_next_state = next_state, tn_done = flag finished\<rparr>\<rparr>;
            (env, state) = (if \<not> finished then (env, next_state) else rate_reset env)
        in bindE (agent_update q fit cfg (snd inp) agent) (\<lambda>(agent, loss).
             Inr \<lparr>dn_agent = agent, dn_env = env, dn_state = state\<rparr>))"

section \<open>A3C\<close>

definition nstep_returns :: "real \<Rightarrow> bool \<Rightarrow> real list \<Rightarrow> real list \<Rightarrow> real list" where
  \<comment> \<open>the loop over the reversed rewards; it starts from the last of the recorded values\<close>
  "nstep_returns gamma finished rewards values =
     fst (fold (\<lambda>r (returns, R). let R = r + gamma * R in (R # returns, R)) (rev rewards)
            ([], if finished then 0 else last values))"

record a3c_global =
  ga_params :: "real list"
  ga_grad :: "real list option" \<comment> \<open>\<open>None\<close> until the first gradient arrives\<close>

datatype a3c_event =
    SyncLocal nat \<comment> \<open>worker copies the global parameters\<close>
  | ApplyGradients nat "real list"
  | OptStep nat

definition apply_gradients :: "a3c_global \<Rightarrow> real list \<Rightarrow> a3c_global" where
  "apply_gradients g local_grads =
     g\<lparr>ga_grad := Some (case ga_grad g of None \<Rightarrow> local_grads | Some acc \<Rightarrow> map2 (+) acc local_grads)\<rparr>"

definition a3c_step :: "(real list \<Rightarrow> real list \<Rightarrow> real list) \<Rightarrow> a3c_event \<Rightarrow> a3c_global \<times> (nat \<Rightarrow> real list) \<Rightarrow>
    a3c_global \<times> (nat \<Rightarrow> real list)" where
  \<comment> \<open>one event of the interleaved workers on the global actor and the local parameters;
      \<open>opt\<close> maps parameters and gradient to new parameters\<close>
  "a3c_step opt ev s =
     (case s of (g, locals) \<Rightarrow>
        case ev of
          SyncLocal i \<Rightarrow> (g, locals(i := ga_params g))
        | ApplyGradients i grads \<Rightarrow> (apply_gradients g grads, locals)
        | OptStep i \<Rightarrow> (case ga_grad g of None \<Rightarrow> (g, locals)
                                        | Some acc \<Rightarrow> (g\<lparr>ga_params := opt (ga_params g) acc\<rparr>, locals)))"

section \<open>The worker loop\<close>

record a3c_batch =
  ab_states :: "real list list"
  ab_actions :: "nat list"
  ab_rewards :: "real list"
  ab_values :: "real list"

record a3c_worker =
  aw_env :: rate_env
  aw_state :: "real list"
  aw_total_steps :: nat

fun a3c_collect :: "(real list \<Rightarrow> real) \<Rightarrow> nat list \<Rightarrow> a3c_worker \<Rightarrow> a3c_batch \<times> a3c_worker \<times> bool" where
  \<comment> \<open>the inner loop over the sampled actions, left at the end of an episode\<close>
  "a3c_collect critic [] w = (\<lparr>ab_states = [], ab_actions = [], ab_rewards = [], ab_values = []\<rparr>, w, False)"
| "a3c_collect critic (action # actions) w =
     (case rate_step (aw_env w) action of (env, next_state, reward, finished) \<Rightarrow>
        let (env', state') = (if finished then rate_reset env else (env, next_state));
            w' = \<lparr>aw_env = env', aw_state = state', aw_total_steps = aw_total_steps w + 1\<rparr>
        in case (if finished then (\<lparr>ab_states = [], ab_actions = [], ab_rewards = [], ab_values = []\<rparr>, w', True)
                 else a3c_collect critic actions w') of (b, w'', f) \<Rightarrow>
             (\<lparr>ab_states = aw_state w # ab_states b, ab_actions = action # ab_actions b,
               ab_rewards = reward # ab_rewards b, ab_values = critic (aw_state w) # ab_values b\<rparr>, w'', f))"

definition a3c_iteration :: "(real list \<Rightarrow> real) \<Rightarrow> real \<Rightarrow> (nat \<Rightarrow> nat) \<Rightarrow> a3c_worker \<Rightarrow> (a3c_batch \<times> real list) \<times> a3c_worker" where
  \<comment> \<open>one pass of the outer loop up to the returns; \<open>choice t\<close> is the action sampled at step \<open>t\<close>\<close>
  "a3c_iteration critic gamma choice w =
     (case a3c_collect critic (map choice [aw_total_steps w..<aw_total_steps w + 20]) w of (b, w', finished) \<Rightarrow>
        ((b, nstep_returns gamma finished (ab_rewards b) (ab_values b)), w'))"

lemma a3c_collect_steps:
  "a3c_collect critic actions w = (b, w', f) \<Longrightarrow>
     aw_total_steps w' = aw_total_steps w + length (ab_rewards b) \<and> length (ab_rewards b) \<le> length actions \<and>
     (actions \<noteq> [] \<longrightarrow> ab_rewards b \<noteq> []) \<and> (\<not> f \<longrightarrow> length (ab_rewards b) = length actions) \<and>
     length (ab_values b) = length (ab_rewards b) \<and> length (ab_states b) = length (ab_rewards b) \<and>
     length (ab_actions b) = length (ab_rewards b)"
proof (induction actions arbitrary: w b w' f)
  case (Cons a as)
  obtain env ns r fin where st: "rate_step (aw_env w) a = (env, ns, r, fin)" by (metis prod_cases4)
  show ?case
  proof (cases fin)
    case True
    then show ?thesis using Cons.prems st by (auto simp: Let_def split_beta)
  next
    case False
    let ?w = "\<lparr>aw_env = env, aw_state = ns, aw_total_steps = aw_total_steps w + 1\<rparr>"
    obtain c v g where c: "a3c_collect critic as ?w = (c, v, g)" by (metis prod_cases3)
    show ?thesis using Cons.prems Cons.IH[OF c] st False c by auto
  qed
qed auto

lemma a3c_iteration_progress:
  assumes "(b, w') = a3c_iteration critic gamma choice w"
  shows "aw_total_steps w < aw_total_steps w'"
proof -
  obtain c v f where c: "a3c_collect critic (map choice [aw_total_steps w..<aw_total_steps w + 20]) w = (c, v, f)"
    by (metis prod_cases3)
  then have "w' = v" using assms by (simp add: a3c_iteration_def)
  then show ?thesis using a3c_collect_steps[OF c] by simp
qed

function a3c_run :: "(real list \<Rightarrow> real) \<Rightarrow> real \<Rightarrow> (nat \<Rightarrow> nat) \<Rightarrow> nat \<Rightarrow> a3c_worker \<Rightarrow> (a3c_batch \<times> real list) list \<times> a3c_worker" where
  \<comment> \<open>\<open>run\<close>: the batches with their returns, in order\<close>
  "a3c_run critic gamma choice total_steps w =
     (if aw_total_steps w < total_steps
      then (case a3c_iteration critic gamma choice w of (b, w') \<Rightarrow>
            case a3c_run critic gamma choice total_steps w' of (bs, w'') \<Rightarrow> (b # bs, w''))
      else ([], w))"
  by pat_completeness auto
termination
  by (relation "measure (\<lambda>(critic, gamma, choice, total_steps, w). total_steps - aw_total_steps w)")
     (auto intro: diff_less_mono2 dest: a3c_iteration_progress)

declare a3c_run.simps [simp del]

section \<open>The service stays in range\<close>

definition rate_ok :: "rate_env \<Rightarrow> bool" where
  "rate_ok e \<longleftrightarrow> re_min_rps e = 100 \<and> re_max_rps e = 10000 \<and> 100 \<le> re_current_limit e \<and> re_current_limit e \<le> 10000"

inductive rate_reach :: "rate_env \<Rightarrow> bool" where
  init: "rate_reach rate_init"
| reset: "rate_reach e \<Longrightarrow> rate_reach (fst (rate_reset e))"
| step: "rate_reach e \<Longrightarrow> rate_reach (fst (rate_step e action))"

lemma rate_step_env:
  "fst (rate_step e a) = (apply_action e a)\<lparr>re_step_n := re_step_n (apply_action e a) + 1\<rparr>"
  "fst (snd (rate_step e a)) = rate_observe (fst (rate_step e a))"
  "fst (snd (snd (rate_step e a))) = rate_reward (apply_action e a)"
  "snd (snd (snd (rate_step e a))) = (re_step_n (apply_action e a) + 1 \<ge> 1000)"
  by (simp_all add: rate_step_def Let_def)

lemma apply_action_ok: "rate_ok e \<Longrightarrow> rate_ok (apply_action e a)"
  by (auto simp: rate_ok_def apply_action_def)

lemma apply_action_step_n [simp]: "re_step_n (apply_action e a) = re_step_n e"
  by (simp add: apply_action_def)

lemma rate_reach_ok: "rate_reach e \<Longrightarrow> rate_ok e"
proof (induction rule: rate_reach.induct)
  case (step e action)
  then show ?case using apply_action_ok[of e action] by (simp add: rate_step_env rate_ok_def)
qed (simp_all add: rate_init_def rate_reset_def rate_ok_def Let_def)

lemma true_rps_range: "400 \<le> true_rps e \<and> true_rps e \<le> 1200"
proof -
  have "-1 \<le> sin (real (re_step_n e) / 200)" "sin (real (re_step_n e) / 200) \<le> 1" by simp_all
  then show ?thesis unfolding true_rps_def by linarith
qed

lemma cpu_pct_range: "rate_ok e \<Longrightarrow> 0 \<le> cpu_pct e \<and> cpu_pct e \<le> 1"
  using true_rps_range[of e] by (simp add: cpu_pct_def rate_ok_def)

lemma length_rate_observe [simp]: "length (rate_observe e) = 6"
  by (simp add: rate_observe_def)

section \<open>Returns, gradients and the target network\<close>

fun disc :: "real \<Rightarrow> real \<Rightarrow> real list \<Rightarrow> real" where
  "disc gamma v [] = v"
| "disc gamma v (r # rs) = r + gamma * disc gamma v rs"

lemma disc_closed: "disc gamma v rs = (\<Sum>k<length rs. gamma ^ k * rs ! k) + gamma ^ length rs * v"
proof (induction rs)
  case (Cons r rs)
  have "(\<Sum>k<Suc (length rs). gamma ^ k * (r # rs) ! k) = r + gamma * (\<Sum>k<length rs. gamma ^ k * rs ! k)"
    by (simp only: sum.lessThan_Suc_shift) (simp add: sum_distrib_left mult.assoc)
  then show ?case using Cons by (simp add: distrib_left del: sum.lessThan_Suc)
qed simp

lemma nstep_fold:
  "fold (\<lambda>r (returns, R). let R = r + gamma * R in (R # returns, R)) (rev rewards) ([], v) =
     (map (\<lambda>i. disc gamma v (drop i rewards)) [0..<length rewards], disc gamma v rewards)"
proof (induction rewards)
  case (Cons r rs)
  have "map (\<lambda>i. disc gamma v (drop i (r # rs))) [0..<Suc (length rs)] =
      disc gamma v (r # rs) # map (\<lambda>i. disc gamma v (drop i rs)) [0..<length rs]"
    by (simp add: upt_conv_Cons map_Suc_upt[symmetric] comp_def del: upt_Suc)
  then show ?case using Cons by (simp add: Let_def del: upt_Suc)
qed simp

lemma a3c_grads:
  "ga_grad (fst (fold (a3c_step opt) evs (g, ls))) =
     fold (\<lambda>ev acc. case ev of ApplyGradients i gs \<Rightarrow> Some (case acc of None \<Rightarrow> gs | Some a \<Rightarrow> map2 (+) a gs) | _ \<Rightarrow> acc) evs (ga_grad g)"
proof (induction evs arbitrary: g ls)
  case (Cons ev evs)
  then show ?case
    by (cases ev) (simp_all add: a3c_step_def apply_gradients_def split: option.splits)
qed simp

definition applied :: "a3c_event list \<Rightarrow> real list list" where
  \<comment> \<open>the gradients the workers applied, in order\<close>
  "applied evs = List.map_filter (\<lambda>ev. case ev of ApplyGradients i gs \<Rightarrow> Some gs | _ \<Rightarrow> None) evs"

lemma grads_fold:
  assumes "\<forall>gs \<in> set (applied evs). length gs = n" and "acc = None \<or> (\<exists>a. acc = Some a \<and> length a = n)"
    and "acc \<noteq> None \<or> applied evs \<noteq> []"
  shows "\<exists>a. fold (\<lambda>ev acc. case ev of ApplyGradients i gs \<Rightarrow> Some (case acc of None \<Rightarrow> gs | Some a \<Rightarrow> map2 (+) a gs) | _ \<Rightarrow> acc) evs acc = Some a
     \<and> length a = n \<and> (\<forall>j<n. a ! j = (case acc of None \<Rightarrow> 0 | Some a \<Rightarrow> a ! j) + sum_list (map (\<lambda>gs. gs ! j) (applied evs)))"
  using assms
proof (induction evs arbitrary: acc)
  case Nil
  then show ?case by (auto simp: applied_def List.map_filter_def)
next
  case (Cons ev evs)
  show ?case
  proof (cases ev)
    case (ApplyGradients i gs)
    have ap: "applied (ev # evs) = gs # applied evs" using ApplyGradients by (simp add: applied_def List.map_filter_simps)
    define acc' where "acc' = Some (case acc of None \<Rightarrow> gs | Some a \<Rightarrow> map2 (+) a gs)"
    have len: "length (the acc') = n" using Cons.prems ap by (auto simp: acc'_def split: option.splits)
    have val: "the acc' ! j = (case acc of None \<Rightarrow> 0 | Some a \<Rightarrow> a ! j) + gs ! j" if "j < n" for j
      using Cons.prems(1,2) ap that by (auto simp: acc'_def split: option.splits)
    have "acc' = Some (the acc')" by (simp add: acc'_def)
    then obtain a where a: "fold (\<lambda>ev acc. case ev of ApplyGradients i gs \<Rightarrow> Some (case acc of None \<Rightarrow> gs | Some a \<Rightarrow> map2 (+) a gs) | _ \<Rightarrow> acc) evs acc' = Some a"
      "length a = n" "\<forall>j<n. a ! j = the acc' ! j + sum_list (map (\<lambda>gs. gs ! j) (applied evs))"
      using Cons.IH[of acc'] Cons.prems(1) ap len by (auto simp: acc'_def)
    then show ?thesis using ApplyGradients ap val by (simp add: acc'_def)
  qed (use Cons in \<open>simp_all add: applied_def List.map_filter_simps\<close>)
qed

section \<open>Properties\<close>

text \<open>
  The simulated service stays in range under any actions: the limit between 100 and 10000, the
  observation of the advertised length with a utilisation between zero and one, and the episode
  cut after exactly a thousand steps.
\<close>

theorem rate_env_bounds:
  assumes "rate_reach e"
  shows "(case rate_step e action of (e', obs, reward, finished) \<Rightarrow>
            100 \<le> re_current_limit e' \<and> re_current_limit e' \<le> 10000 \<and> length obs = 6 \<and>
            0 \<le> obs ! 1 \<and> obs ! 1 \<le> 1 \<and> reward \<le> 12 \<and> (finished \<longleftrightarrow> 1000 \<le> re_step_n e + 1))"
proof -
  have ok: "rate_ok (apply_action e action)" using apply_action_ok rate_reach_ok assms by blast
  have "rate_ok (fst (rate_step e action))" using ok by (simp add: rate_step_env rate_ok_def)
  then have "0 \<le> rate_observe (fst (rate_step e action)) ! 1 \<and> rate_observe (fst (rate_step e action)) ! 1 \<le> 1"
    using cpu_pct_range by (simp add: rate_observe_def)
  moreover have "rate_reward (apply_action e action) \<le> 12"
  proof -
    have "min (re_current_limit (apply_action e action)) (true_rps (apply_action e action)) / 100 \<le> 12"
      using true_rps_range[of "apply_action e action"] by (simp add: min_le_iff_disj)
    then show ?thesis unfolding rate_reward_def Let_def by (smt (verit) max.cobounded1 mult_nonneg_nonneg zero_le_power)
  qed
  ultimately show ?thesis using ok rate_step_env[of e action] by (simp add: split_beta rate_ok_def)
qed

theorem rate_env_bounds_witness: "100 \<le> re_current_limit (fst (rate_step rate_init 0))"
  using rate_env_bounds[OF rate_reach.init, of 0] by (simp add: split_beta)

text \<open>
  Above a limit of 1411 the agent has nothing left to learn: the reward no longer depends on the
  limit, so nothing draws an oversized limit back down.
\<close>

theorem reward_flat_above_1411:
  assumes "1411 \<le> re_current_limit e" and "1411 \<le> re_current_limit e'" and "re_step_n e = re_step_n e'"
  shows "rate_reward e = rate_reward e'"
proof -
  have "rate_reward f = true_rps f / 100" if "1411 \<le> re_current_limit f" for f
  proof -
    have "true_rps f / (re_current_limit f + 1) \<le> 85/100"
      using true_rps_range[of f] that by (simp add: divide_le_eq)
    then have "cpu_pct f \<le> 85/100" unfolding cpu_pct_def by (rule min.coboundedI2)
    then show ?thesis using true_rps_range[of f] that by (simp add: rate_reward_def Let_def)
  qed
  from this[OF assms(1)] this[OF assms(2)] show ?thesis using assms(3) by (simp add: true_rps_def)
qed

theorem reward_flat_above_1411_witness:
  "rate_reward (rate_init\<lparr>re_current_limit := 1411\<rparr>) = rate_reward (rate_init\<lparr>re_current_limit := 10000\<rparr>)"
  using reward_flat_above_1411[of "rate_init\<lparr>re_current_limit := 1411\<rparr>" "rate_init\<lparr>re_current_limit := 10000\<rparr>"]
  by (simp add: rate_init_def)

text \<open>
  The n-step returns are discounted sums bootstrapped from the last recorded value: that is the
  critic's value of the last state an action was taken in, not of the state the worker reached.
\<close>

theorem nstep_returns_closed_form:
  assumes "i < length rewards"
  shows "nstep_returns gamma finished rewards values ! i =
     (\<Sum>k<length rewards - i. gamma ^ k * rewards ! (i + k))
       + gamma ^ (length rewards - i) * (if finished then 0 else last values)"
  using assms by (simp add: nstep_returns_def nstep_fold disc_closed add.commute)

theorem nstep_returns_closed_form_witness: "nstep_returns (1/2) False [2, 4] [7, 8] ! 0 = 6"
  using nstep_returns_closed_form[of 0 "[2, 4]" "1/2" False "[7, 8]"] by (simp add: numeral_2_eq_2)

text \<open>
  The gradients of the workers pile up: nothing ever clears the shared gradient, so after any
  interleaving of the workers' events it is the sum of every gradient applied since the start,
  and each optimiser step descends along all of them again.
\<close>

theorem shared_gradient_never_cleared:
  assumes "\<forall>gs \<in> set (applied evs). length gs = n" and "applied evs \<noteq> []"
    and "ga_grad g = None" and "j < n"
  shows "\<exists>acc. ga_grad (fst (fold (a3c_step opt) evs (g, locals))) = Some acc \<and>
     acc ! j = sum_list (map (\<lambda>gs. gs ! j) (applied evs))"
  using grads_fold[OF assms(1), of None] assms by (auto simp: a3c_grads)

theorem shared_gradient_never_cleared_witness:
  "\<exists>acc. ga_grad (fst (fold (a3c_step (\<lambda>p g. p)) [ApplyGradients 0 [1], OptStep 0, ApplyGradients 1 [2]]
       (\<lparr>ga_params = [0], ga_grad = None\<rparr>, \<lambda>i. []))) = Some acc \<and> acc ! 0 = 3"
  using shared_gradient_never_cleared[of "[ApplyGradients 0 [1], OptStep 0, ApplyGradients 1 [2]]" 1
      "\<lparr>ga_params = [0], ga_grad = None\<rparr>" 0 "\<lambda>p g. p" "\<lambda>i. []"]
  by (simp add: applied_def List.map_filter_simps)

section \<open>A run of one agent\<close>

definition transition_ok :: "transition \<Rightarrow> bool" where
  "transition_ok t \<longleftrightarrow> length (tn_state t) = 6 \<and> length (tn_next_state t) = 6 \<and> tn_action t < 3 \<and> (tn_done t = 0 \<or> tn_done t = 1)"

definition run_state :: "dqn_config \<Rightarrow> nat \<Rightarrow> 'net dqn_run \<Rightarrow> bool" where
  \<comment> \<open>after \<open>k\<close> steps\<close>
  "run_state cfg k s \<longleftrightarrow> length (da_buffer (dn_agent s)) = min (dc_replay_capacity cfg) k \<and>
     da_step_count (dn_agent s) = k - (dc_batch_size cfg - 1) \<and> rate_ok (dn_env s) \<and> length (dn_state s) = 6 \<and>
     (\<forall>t \<in> set (da_buffer (dn_agent s)). transition_ok t)"

lemma np_argmax_less: "xs \<noteq> [] \<Longrightarrow> np_argmax xs < length xs"
proof -
  assume "xs \<noteq> []"
  then have "dropWhile (\<lambda>x. x \<noteq> np_max xs) xs \<noteq> []" using np_max_in[of xs] by (simp add: dropWhile_eq_Nil_conv)
  moreover have "length (takeWhile (\<lambda>x. x \<noteq> np_max xs) xs) + length (dropWhile (\<lambda>x. x \<noteq> np_max xs) xs) = length xs"
    by (metis length_append takeWhile_dropWhile_id)
  ultimately show ?thesis unfolding np_argmax_def by (metis length_greater_0_conv less_add_same_cancel1)
qed

lemma agent_select_inv:
  assumes "agent_select q cfg d a st = (a', action)" and "snd d < 3" and "length (q (da_policy a) st) = 3"
  shows "action < 3 \<and> da_buffer a' = da_buffer a \<and> da_step_count a' = da_step_count a"
proof -
  have "np_argmax (q (da_policy a) st) < 3" using np_argmax_less[of "q (da_policy a) st"] assms(3) by fastforce
  then show ?thesis using assms(1,2) by (auto simp: agent_select_def Let_def split: if_splits)
qed

lemma agent_update_inv:
  "\<exists>a' loss. agent_update q fit cfg picks a = Inr (a', loss) \<and> da_buffer a' = da_buffer a \<and>
     da_step_count a' = (if length (da_buffer a) < dc_batch_size cfg then da_step_count a else da_step_count a + 1)"
  by (simp add: agent_update_def buffer_sample_def Let_def)

lemma service_step_run:
  assumes "run_state cfg k s" and "0 < dc_batch_size cfg" and "dc_batch_size cfg \<le> dc_replay_capacity cfg"
    and "\<forall>net st. length (q net st) = 3" and "snd (fst inp) < 3"
  shows "\<exists>s'. service_step q fit cfg inp s = Inr s' \<and> run_state cfg (k + 1) s'"
proof -
  note s = assms(1)[unfolded run_state_def]
  obtain a action where sel: "agent_select q cfg (fst inp) (dn_agent s) (dn_state s) = (a, action)" by fastforce
  obtain env ns r fin where st: "rate_step (dn_env s) action = (env, ns, r, fin)" by (metis prod_cases4)
  define t where "t = \<lparr>tn_state = dn_state s, tn_action = action, tn_reward = r, tn_next_state = ns, tn_done = flag fin\<rparr>"
  define b where "b = buffer_push (dc_replay_capacity cfg) (da_buffer a) t"
  define ev where "ev = (if \<not> fin then (env, ns) else rate_reset env)"
  have a: "action < 3" "da_buffer a = da_buffer (dn_agent s)" "da_step_count a = da_step_count (dn_agent s)"
    using agent_select_inv[OF sel assms(5)] assms(4) by simp_all
  have env: "rate_ok env" "length ns = 6"
    using rate_step_env[of "dn_env s" action] apply_action_ok[of "dn_env s" action] st s
    by (auto simp: rate_ok_def)
  then have ev: "rate_ok (fst ev)" "length (snd ev) = 6" by (auto simp: ev_def rate_reset_def Let_def rate_ok_def)
  have t: "transition_ok t" using a env s by (simp add: t_def transition_ok_def flag_def)
  have len: "length b = min (dc_replay_capacity cfg) (k + 1)"
    using s a by (auto simp: b_def buffer_push_def length_deque_push)
  have b: "\<forall>t \<in> set b. transition_ok t"
    using set_deque_push[of "dc_replay_capacity cfg" "da_buffer a" t] s a t by (auto simp: b_def buffer_push_def)
  obtain a' loss where u: "agent_update q fit cfg (snd inp) (a\<lparr>da_buffer := b\<rparr>) = Inr (a', loss)" "da_buffer a' = b"
    "da_step_count a' = (if length b < dc_batch_size cfg then da_step_count a else da_step_count a + 1)"
    using agent_update_inv[of q fit cfg "snd inp" "a\<lparr>da_buffer := b\<rparr>"] by auto
  have "service_step q fit cfg inp s = Inr \<lparr>dn_agent = a', dn_env = fst ev, dn_state = snd ev\<rparr>"
    using sel st u(1) by (simp add: service_step_def Let_def t_def b_def ev_def split_beta)
  moreover have "da_step_count a' = (k + 1) - (dc_batch_size cfg - 1)"
    using u(3) len s a assms(2,3) by auto
  ultimately show ?thesis using ev b len u(2) by (simp add: run_state_def)
qed

lemma service_run_state:
  assumes "run_state cfg k s" and "0 < dc_batch_size cfg" and "dc_batch_size cfg \<le> dc_replay_capacity cfg"
    and "\<forall>net st. length (q net st) = 3" and "\<forall>inp \<in> set inps. snd (fst inp) < 3"
  shows "\<exists>s'. foldE (\<lambda>s inp. service_step q fit cfg inp s) s inps = Inr s' \<and> run_state cfg (k + length inps) s'"
  using assms(1,5)
proof (induction inps arbitrary: k s)
  case (Cons i rest)
  obtain t where t: "service_step q fit cfg i s = Inr t" "run_state cfg (k + 1) t"
    using service_step_run[OF Cons.prems(1) assms(2-4), of i fit] Cons.prems(2) by auto
  then show ?case using Cons.IH[OF t(2)] Cons.prems(2) by simp
qed simp

definition run_init :: "dqn_config \<Rightarrow> 'net \<Rightarrow> 'net dqn_run" where
  "run_init cfg net =
     (case rate_reset rate_init of (env, state) \<Rightarrow> \<lparr>dn_agent = agent_init cfg net, dn_env = env, dn_state = state\<rparr>)"

lemma run_init_state: "run_state cfg 0 (run_init cfg net)"
  by (simp add: run_state_def run_init_def agent_init_def rate_reset_def rate_init_def rate_ok_def Let_def)



text \<open>
  Exploration decays linearly and never stops: epsilon stays between its two ends, does not grow
  with the number of updates, and rests at the lower end from the decay horizon on.
\<close>

theorem epsilon_schedule:
  assumes "0 < dc_epsilon_decay cfg" and "dc_epsilon_end cfg \<le> dc_epsilon_start cfg"
    and "da_step_count a \<le> da_step_count b"
  shows "(let e = (\<lambda>x. da_epsilon (fst (agent_select q cfg d x st)))
          in dc_epsilon_end cfg \<le> e b \<and> e b \<le> e a \<and> e a \<le> dc_epsilon_start cfg \<and>
             ((dc_epsilon_start cfg - dc_epsilon_end cfg) * real (dc_epsilon_decay cfg) \<le> real (da_step_count b)
                \<longrightarrow> e b = dc_epsilon_end cfg))"
proof -
  have e: "da_epsilon (fst (agent_select q cfg d x st)) =
      max (dc_epsilon_end cfg) (dc_epsilon_start cfg - real (da_step_count x) / real (dc_epsilon_decay cfg))" for x
    by (simp add: agent_select_def Let_def)
  have "real (da_step_count a) / real (dc_epsilon_decay cfg) \<le> real (da_step_count b) / real (dc_epsilon_decay cfg)"
    using assms(3) by (intro divide_right_mono) simp_all
  moreover have "0 \<le> real (da_step_count a) / real (dc_epsilon_decay cfg)" by simp
  moreover have "dc_epsilon_start cfg - dc_epsilon_end cfg \<le> real (da_step_count b) / real (dc_epsilon_decay cfg)"
    if "(dc_epsilon_start cfg - dc_epsilon_end cfg) * real (dc_epsilon_decay cfg) \<le> real (da_step_count b)"
    using that assms(1) by (simp add: le_divide_eq)
  ultimately show ?thesis unfolding Let_def e using assms(2) by (auto simp: max_def)
qed

theorem epsilon_schedule_witness:
  "da_epsilon (fst (agent_select (\<lambda>net st. []) dqn_default (0, 0) (agent_init dqn_default ()\<lparr>da_step_count := 9500\<rparr>) [])) = 5/100"
  using epsilon_schedule[of dqn_default "agent_init dqn_default ()" "agent_init dqn_default ()\<lparr>da_step_count := 9500\<rparr>"
      "\<lambda>net st. []" "(0, 0)" "[]"]
  by (simp add: dqn_default_def agent_init_def Let_def)

definition update_run :: "('net \<Rightarrow> real list \<Rightarrow> real list) \<Rightarrow> (transition list \<Rightarrow> real list \<Rightarrow> 'net \<Rightarrow> 'net) \<Rightarrow>
    dqn_config \<Rightarrow> 'net dqn_agent \<Rightarrow> nat list list \<Rightarrow> py_err + 'net dqn_agent" where
  \<comment> \<open>calls of \<open>update\<close> in a row, with the positions each draws\<close>
  "update_run q fit cfg a pickss = foldE (\<lambda>a picks. bindE (agent_update q fit cfg picks a) (\<lambda>r. Inr (fst r))) a pickss"

lemma updates_keep_target:
  assumes "dc_batch_size cfg \<le> length (da_buffer a)" and "da_step_count a mod f = 0" and "dc_target_update_freq cfg = f"
    and "length pickss < f"
  shows "\<exists>a'. update_run q fit cfg a pickss = Inr a' \<and>
     da_target a' = da_target a \<and> da_buffer a' = da_buffer a \<and> da_step_count a' = da_step_count a + length pickss"
  using assms(4)
proof (induction pickss rule: rev_induct)
  case (snoc picks pickss)
  obtain a' where a': "update_run q fit cfg a pickss = Inr a'"
    "da_target a' = da_target a" "da_buffer a' = da_buffer a" "da_step_count a' = da_step_count a + length pickss"
    using snoc by auto
  have "(da_step_count a + length pickss + 1) mod f = length pickss + 1"
    using assms(2) snoc.prems by (metis Suc_eq_plus1 add.assoc length_append_singleton mod_add_left_eq mod_less add_0)
  then have "(da_step_count a' + 1) mod f \<noteq> 0" using a'(4) by simp
  then show ?case using a' assms(1,3)
    by (simp add: update_run_def foldE_append agent_update_def buffer_sample_def Let_def)
qed (simp add: update_run_def)

text \<open>
  The target network lags as configured: from a synchronisation on it stays as it was for fewer
  updates than the update frequency, and at exactly that many it becomes the policy network.
\<close>

theorem target_lags_policy:
  assumes "dc_batch_size cfg \<le> length (da_buffer a)" and "da_step_count a mod dc_target_update_freq cfg = 0"
    and "length pickss + 1 = dc_target_update_freq cfg"
  shows "\<exists>a' a''. update_run q fit cfg a pickss = Inr a' \<and>
     update_run q fit cfg a (pickss @ [picks]) = Inr a'' \<and>
     da_target a' = da_target a \<and> da_target a'' = da_policy a''"
proof -
  obtain a' where a': "update_run q fit cfg a pickss = Inr a'"
    "da_target a' = da_target a" "da_buffer a' = da_buffer a" "da_step_count a' = da_step_count a + length pickss"
    using updates_keep_target[OF assms(1,2) refl, of pickss q fit] assms(3) by auto
  have "(da_step_count a' + 1) mod dc_target_update_freq cfg = 0"
    using a'(4) assms(2,3) by (metis add.assoc mod_add_self2)
  then show ?thesis using a' assms(1)
    by (simp add: update_run_def foldE_append agent_update_def buffer_sample_def Let_def)
qed

theorem target_lags_policy_witness:
  "\<exists>a' a''. update_run (\<lambda>n st. [0]) (\<lambda>b t n. n + 1) (dqn_default\<lparr>dc_batch_size := 0, dc_target_update_freq := 2\<rparr>)
       (agent_init dqn_default (0::nat)) [[]] = Inr a' \<and>
     update_run (\<lambda>n st. [0]) (\<lambda>b t n. n + 1) (dqn_default\<lparr>dc_batch_size := 0, dc_target_update_freq := 2\<rparr>)
       (agent_init dqn_default (0::nat)) ([[]] @ [[]]) = Inr a'' \<and> da_target a' = 0 \<and> da_target a'' = da_policy a''"
  using target_lags_policy[of "dqn_default\<lparr>dc_batch_size := 0, dc_target_update_freq := 2\<rparr>" "agent_init dqn_default (0::nat)" "[[]]"
      "\<lambda>n st. [0]" "\<lambda>b t n. n + 1" "[]"]
  by (simp add: agent_init_def)

lemma a3c_run_spec:
  "a3c_run critic gamma choice total_steps w = (bs, w') \<Longrightarrow>
     total_steps \<le> aw_total_steps w' \<and> (aw_total_steps w \<le> total_steps + 19 \<longrightarrow> aw_total_steps w' \<le> total_steps + 19) \<and>
     aw_total_steps w' = aw_total_steps w + sum_list (map (\<lambda>b. length (snd b)) bs) \<and>
     (\<forall>b \<in> set bs. 0 < length (snd b) \<and> length (snd b) \<le> 20)"
proof (induction "total_steps - aw_total_steps w" arbitrary: w bs rule: less_induct)
  case less
  show ?case
  proof (cases "aw_total_steps w < total_steps")
    case True
    obtain b v f where c: "a3c_collect critic (map choice [aw_total_steps w..<aw_total_steps w + 20]) w = (b, v, f)"
      by (metis prod_cases3)
    define x where "x = (b, nstep_returns gamma f (ab_rewards b) (ab_values b))"
    have it: "a3c_iteration critic gamma choice w = (x, v)" using c by (simp add: a3c_iteration_def x_def)
    obtain cs where cs: "a3c_run critic gamma choice total_steps v = (cs, w')" "bs = x # cs"
      using less.prems True it by (subst (asm) a3c_run.simps) (auto split: prod.splits)
    note p = a3c_collect_steps[OF c]
    have len: "length (snd x) = length (ab_rewards b)" by (simp add: x_def nstep_returns_def nstep_fold)
    have v: "aw_total_steps v = aw_total_steps w + length (snd x)" "0 < length (snd x)" "length (snd x) \<le> 20"
      using p len by simp_all
    have "total_steps - aw_total_steps v < total_steps - aw_total_steps w" using True v(1,2) by (intro diff_less_mono2) simp_all
    from less.hyps[OF this cs(1)] show ?thesis using True v cs(2) by simp
  next
    case False
    then show ?thesis using less.prems by (subst (asm) a3c_run.simps) simp
  qed
qed

text \<open>
  C39. A worker's loop ends: whatever is sampled it makes at least the configured number of steps and
  overshoots by fewer than twenty, in batches of one to twenty returns.
\<close>

theorem a3c_worker_terminates:
  assumes "aw_total_steps w = 0" and "a3c_run critic gamma choice total_steps w = (batches, w')"
  shows "total_steps \<le> aw_total_steps w' \<and> aw_total_steps w' < total_steps + 20 \<and>
     sum_list (map (\<lambda>b. length (snd b)) batches) = aw_total_steps w' \<and>
     (\<forall>b \<in> set batches. 0 < length (snd b) \<and> length (snd b) \<le> 20)"
  using a3c_run_spec[OF assms(2)] assms(1) by auto

theorem a3c_worker_terminates_witness:
  "\<exists>w'. snd (a3c_run (\<lambda>st. 0) (1/2) (\<lambda>t. 1) 100000 \<lparr>aw_env = rate_init, aw_state = [], aw_total_steps = 0\<rparr>) = w'
     \<and> aw_total_steps w' < 100020"
  using a3c_worker_terminates[of "\<lparr>aw_env = rate_init, aw_state = [], aw_total_steps = 0\<rparr>" "\<lambda>st. 0" "1/2" "\<lambda>t. 1" 100000]
  by (cases "a3c_run (\<lambda>st. 0) (1/2) (\<lambda>t. 1) 100000 \<lparr>aw_env = rate_init, aw_state = [], aw_total_steps = 0\<rparr>") simp

end
