(* ===== verification/Demo_Backend.thy ===== *)
theory Demo_Backend
  imports Py_Value
begin

text \<open>
  The demo backends of \<open>demo/backends.py\<close>: the state of one backend, a request in its two halves
  (before and after the simulated latency, between which other handlers run), the admin handler
  with its partial effects, and the statistics. The random draws are arguments.
\<close>

section \<open>State\<close>

record profile =
  pf_id :: nat
  pf_port :: nat
  pf_base_ms :: real
  pf_jitter :: real
  pf_error_pct :: real

definition PROFILES :: "profile list" where
  "PROFILES =
     [\<lparr>pf_id = 0, pf_port = 9000, pf_base_ms = 45, pf_jitter = 8, pf_error_pct = 2/10\<rparr>,
      \<lparr>pf_id = 1, pf_port = 9001, pf_base_ms = 52, pf_jitter = 12, pf_error_pct = 3/10\<rparr>,
      \<lparr>pf_id = 2, pf_port = 9002, pf_base_ms = 120, pf_jitter = 30, pf_error_pct = 5/10\<rparr>,
      \<lparr>pf_id = 3, pf_port = 9003, pf_base_ms = 38, pf_jitter = 5, pf_error_pct = 1/10\<rparr>]"

record backend =
  bk_base_ms :: real
  bk_jitter :: real
  bk_error_pct :: real
  bk_overload :: bool
  bk_req_count :: nat
  bk_err_count :: nat
  bk_start_time :: real

definition backend_new :: "profile \<Rightarrow> real \<Rightarrow> backend" where
  "backend_new p now =
     \<lparr>bk_base_ms = pf_base_ms p, bk_jitter = pf_jitter p, bk_error_pct = pf_error_pct p, bk_overload = False,
      bk_req_count = 0, bk_err_count = 0, bk_start_time = now\<rparr>"

section \<open>Handlers\<close>

definition backend_arrive :: "(real \<Rightarrow> real) \<Rightarrow> (real \<Rightarrow> real) \<Rightarrow> backend \<Rightarrow> backend \<times> real" where
  \<comment> \<open>up to the sleep: the state and the latency in seconds; \<open>blow sd\<close> and \<open>noise sd\<close> are the
      draws of \<open>random.gauss(0, sd)\<close>\<close>
  "backend_arrive blow noise s =
     (let s = s\<lparr>bk_req_count := bk_req_count s + 1\<rparr>;
          base = bk_base_ms s;
          base = (if bk_overload s then base * 8 + blow base else base)
      in (s, max (1/1000) ((base + noise (bk_jitter s)) / 1000)))"

datatype backend_reply =
    ServedOk nat real \<comment> \<open>200, with the request id and the latency in ms\<close>
  | Unavailable real \<comment> \<open>503, with the latency in ms\<close>

definition backend_finish :: "real \<Rightarrow> real \<Rightarrow> backend \<Rightarrow> backend \<times> backend_reply" where
  \<comment> \<open>after the sleep: \<open>draw\<close> is \<open>random.random()\<close>\<close>
  "backend_finish draw lat_s s =
     (let err_pct = bk_error_pct s + (if bk_overload s then 15 else 0)
      in if draw * 100 < err_pct
         then (s\<lparr>bk_err_count := bk_err_count s + 1\<rparr>, Unavailable (lat_s * 1000))
         else (s, ServedOk (bk_req_count s) (lat_s * 1000)))"

definition set_field :: "string \<Rightarrow> (py_val \<Rightarrow> py_err + 'a) \<Rightarrow> ('a \<Rightarrow> backend \<Rightarrow> backend) \<Rightarrow> py_val \<Rightarrow> backend \<Rightarrow>
    backend \<times> (py_err + unit)" where
  \<comment> \<open>\<open>if key in data: s[key] = convert(data[key])\<close>\<close>
  "set_field key convert put data s =
     (case py_contains data key of
        Inl e \<Rightarrow> (s, Inl e)
      | Inr present \<Rightarrow>
          if \<not> present then (s, Inr ())
          else case bindE (py_item data key) convert of
                 Inl e \<Rightarrow> (s, Inl e)
               | Inr v \<Rightarrow> (put v s, Inr ()))"

definition andthen :: "backend \<times> (py_err + unit) \<Rightarrow> (backend \<Rightarrow> backend \<times> (py_err + unit)) \<Rightarrow> backend \<times> (py_err + unit)" where
  \<comment> \<open>the next statement, unless one before it raised\<close>
  "andthen r f = (case r of (s, Inl e) \<Rightarrow> (s, Inl e) | (s, Inr _) \<Rightarrow> f s)"

definition backend_admin :: "py_err + py_val \<Rightarrow> backend \<Rightarrow> backend \<times> (py_err + unit)" where
  \<comment> \<open>\<open>Inr ()\<close> is the reply 200, an exception the reply 400\<close>
  "backend_admin json s =
     (case json of
        Inl e \<Rightarrow> (s, Inl e)
      | Inr data \<Rightarrow>
          andthen (set_field ''base_ms'' to_float (\<lambda>v. bk_base_ms_update (\<lambda>_. v)) data s) (\<lambda>s.
          andthen (set_field ''jitter'' to_float (\<lambda>v. bk_jitter_update (\<lambda>_. v)) data s) (\<lambda>s.
          andthen (set_field ''error_pct'' to_float (\<lambda>v. bk_error_pct_update (\<lambda>_. v)) data s) (\<lambda>s.
                   set_field ''overload'' (\<lambda>v. Inr (truthy v)) (\<lambda>v. bk_overload_update (\<lambda>_. v)) data s))))"

record backend_stats =
  bt_req_count :: nat
  bt_err_count :: nat
  bt_error_rate :: real
  bt_base_ms :: real
  bt_overload :: bool

definition backend_stats_of :: "backend \<Rightarrow> backend_stats" where
  "backend_stats_of s =
     \<lparr>bt_req_count = bk_req_count s, bt_err_count = bk_err_count s,
      bt_error_rate = real (bk_err_count s) / max 1 (real (bk_req_count s)),
      bt_base_ms = bk_base_ms s, bt_overload = bk_overload s\<rparr>"

definition backend_health :: "backend \<Rightarrow> nat" where
  \<comment> \<open>the status of \<open>/_health\<close>, whatever the state\<close>
  "backend_health s = 200"

section \<open>Interleavings\<close>

text \<open>A backend with the number of requests that are asleep; each of them may end at any time.\<close>

inductive backend_step :: "backend \<times> nat \<Rightarrow> backend \<times> nat \<Rightarrow> bool" where
  arrive: "backend_arrive blow noise s = (s', lat) \<Longrightarrow> backend_step (s, k) (s', k + 1)"
| finish: "backend_finish draw lat s = (s', reply) \<Longrightarrow> backend_step (s, k + 1) (s', k)"
| admin: "backend_admin json s = (s', r) \<Longrightarrow> backend_step (s, k) (s', k)"

inductive backend_reach :: "profile \<Rightarrow> backend \<times> nat \<Rightarrow> bool" for p where
  start: "backend_reach p (backend_new p now, 0)"
| step: "backend_reach p st \<Longrightarrow> backend_step st st' \<Longrightarrow> backend_reach p st'"

inductive_cases backend_stepE: "backend_step st st'"

definition counts :: "backend \<Rightarrow> nat \<times> nat" where
  "counts s = (bk_req_count s, bk_err_count s)"

lemma set_field_counts:
  "(\<And>v. counts (put v s) = counts s) \<Longrightarrow> counts (fst (set_field key conv put data s)) = counts s"
  by (simp add: set_field_def split: sum.split)

lemma andthen_counts:
  "counts (fst x) = c \<Longrightarrow> (\<And>t. counts (fst (f t)) = counts t) \<Longrightarrow> counts (fst (andthen x f)) = c"
  by (cases x) (auto simp: andthen_def split: sum.split)

lemma counts_updates:
  "counts (bk_base_ms_update f s) = counts s" "counts (bk_jitter_update f s) = counts s"
  "counts (bk_error_pct_update f s) = counts s" "counts (bk_overload_update g s) = counts s"
  by (simp_all add: counts_def)

lemma backend_admin_counts: "counts (fst (backend_admin json s)) = counts s"
proof (cases json)
  case (Inr data)
  show ?thesis unfolding Inr backend_admin_def sum.case
    by (intro andthen_counts set_field_counts counts_updates)
qed (simp add: backend_admin_def)

section \<open>Properties\<close>

lemma backend_reach_counts: "backend_reach p st \<Longrightarrow> bk_err_count (fst st) + snd st \<le> bk_req_count (fst st)"
proof (induction rule: backend_reach.induct)
  case start
  then show ?case by (simp add: backend_new_def)
next
  case (step st st')
  from step.hyps(2) step.IH show ?case
  proof (cases rule: backend_step.cases)
    case (admin json s s' r k)
    then show ?thesis using backend_admin_counts[of json s] step.IH by (simp add: counts_def)
  qed (auto simp: backend_arrive_def backend_finish_def Let_def split: if_splits)
qed

text \<open>
  The statistics of a backend are consistent under concurrency: with any interleaving of requests
  and admin calls the errors and the requests still asleep together never exceed the requests
  counted, so the reported error rate lies between zero and one.
\<close>

theorem backend_stats_consistent:
  assumes "backend_reach p (s, waiting)"
  shows "bt_err_count (backend_stats_of s) + waiting \<le> bt_req_count (backend_stats_of s) \<and>
     0 \<le> bt_error_rate (backend_stats_of s) \<and> bt_error_rate (backend_stats_of s) \<le> 1"
  using backend_reach_counts[OF assms] by (simp add: backend_stats_of_def divide_le_eq le_max_iff_disj)

theorem backend_stats_consistent_witness: "bt_error_rate (backend_stats_of (backend_new (PROFILES ! 2) 0)) \<le> 1"
  using backend_stats_consistent[OF backend_reach.start] by simp

text \<open>
  A killed backend looks healthy: after the admin call the proxy sends when killing it, every
  request is answered with status 503, whatever is drawn, while the health probe is still answered
  with status 200.
\<close>

theorem killed_backend_fails_yet_healthy:
  assumes "0 \<le> draw" and "draw < 1"
  shows "(let (k, r) = backend_admin (Inr (PDict [(''overload'', PBool True), (''error_pct'', PInt 90)])) s
          in r = Inr () \<and> backend_health k = 200 \<and> (\<exists>ms. snd (backend_finish draw lat k) = Unavailable ms))"
  using assms
  by (simp add: backend_admin_def andthen_def set_field_def backend_finish_def backend_health_def Let_def)

theorem killed_backend_fails_yet_healthy_witness:
  "(let (k, r) = backend_admin (Inr (PDict [(''overload'', PBool True), (''error_pct'', PInt 90)])) (backend_new (PROFILES ! 0) 0)
    in backend_health k = 200 \<and> (\<exists>ms. snd (backend_finish (999/1000) 1 k) = Unavailable ms))"
  using killed_backend_fails_yet_healthy[of "999/1000" "backend_new (PROFILES ! 0) 0" 1] by (simp add: split_beta Let_def)

text \<open>
  Reviving forgets the profile: the admin call the proxy sends when reviving a backend sets its
  error rate to 0.3 per cent whatever its profile says, so three of the four demo backends do not
  come back as they were.
\<close>

theorem revive_forgets_profile:
  assumes "p \<in> set PROFILES" and "pf_id p \<noteq> 1"
  shows "(let s = backend_new p now;
              k = fst (backend_admin (Inr (PDict [(''overload'', PBool True), (''error_pct'', PInt 90)])) s);
              r = fst (backend_admin (Inr (PDict [(''overload'', PBool False), (''error_pct'', PFloat (3/10))])) k)
          in \<not> bk_overload r \<and> bk_base_ms r = bk_base_ms s \<and> bk_error_pct r \<noteq> bk_error_pct s)"
  using assms
  by (auto simp: PROFILES_def backend_new_def backend_admin_def andthen_def set_field_def Let_def)

theorem revive_forgets_profile_witness:
  "bk_error_pct (fst (backend_admin (Inr (PDict [(''overload'', PBool False), (''error_pct'', PFloat (3/10))]))
     (fst (backend_admin (Inr (PDict [(''overload'', PBool True), (''error_pct'', PInt 90)])) (backend_new (PROFILES ! 2) 0))))) \<noteq> 5/10"
  using revive_forgets_profile[of "PROFILES ! 2" 0] by (simp add: PROFILES_def backend_new_def Let_def)

text \<open>
  Request ids are not unique: the id is read after the sleep, so two requests that overlap are
  answered with the same one.
\<close>

theorem overlapping_requests_share_id:
  assumes "bk_error_pct s \<le> 0" and "\<not> bk_overload s"
  shows "(let s1 = fst (backend_arrive b1 n1 s); s2 = fst (backend_arrive b2 n2 s1);
              (s3, r1) = backend_finish 0 l1 s2; (s4, r2) = backend_finish 0 l2 s3
          in r1 = ServedOk (bk_req_count s + 2) (l1 * 1000) \<and> r2 = ServedOk (bk_req_count s + 2) (l2 * 1000))"
  using assms by (simp add: backend_arrive_def backend_finish_def Let_def)

theorem overlapping_requests_share_id_witness:
  "(let s = backend_new ((PROFILES ! 0)\<lparr>pf_error_pct := 0\<rparr>) 0;
        s2 = fst (backend_arrive (\<lambda>x. x) (\<lambda>x. x) (fst (backend_arrive (\<lambda>x. x) (\<lambda>x. x) s)))
    in snd (backend_finish 0 1 s2) = ServedOk 2 1000)"
  using overlapping_requests_share_id[of "backend_new ((PROFILES ! 0)\<lparr>pf_error_pct := 0\<rparr>) 0" "\<lambda>x. x" "\<lambda>x. x" "\<lambda>x. x" "\<lambda>x. x" 1 1]
  by (simp add: backend_new_def split_beta Let_def)

end
