(* ===== verification/Load_Generator.thy ===== *)
theory Load_Generator
  imports Ip_Address
begin

text \<open>
  The load generator of \<open>demo/loadgen.py\<close>: the target rate, the pacing loop with its one-second
  slots, the set of pending tasks with the callbacks bound to it, the statistics and the line the
  printer reports. The clock and the contents of the spike file are arguments.
\<close>

section \<open>Pacing\<close>

definition is_spike :: "string option \<Rightarrow> bool" where
  \<comment> \<open>\<open>None\<close>: the file cannot be read\<close>
  "is_spike spike = (case spike of None \<Rightarrow> False | Some s \<Rightarrow> strip s = ''1'')"

definition target_rps :: "string option \<Rightarrow> real \<Rightarrow> real" where
  "target_rps spike t =
     (let base = 200 + 80 * sin (2 * pi * t / 60);
          base = (if is_spike spike then base * 3 else base)
      in max 10 base)"

record loadgen =
  lg_t_start :: real
  lg_slot_start :: real
  lg_slot_count :: int

definition loadgen_start :: "real \<Rightarrow> loadgen" where
  "loadgen_start now = \<lparr>lg_t_start = now, lg_slot_start = now, lg_slot_count = 0\<rparr>"

definition loadgen_iter :: "string option \<Rightarrow> real \<Rightarrow> loadgen \<Rightarrow> loadgen \<times> nat \<times> real" where
  \<comment> \<open>one pass of the loop: the state, the number of requests fired and the sleep\<close>
  "loadgen_iter spike now s =
     (let t = now - lg_t_start s;
          rps = target_rps spike t;
          elapsed = now - lg_slot_start s;
          s = (if elapsed \<ge> 1 then s\<lparr>lg_slot_start := now, lg_slot_count := 0\<rparr> else s);
          target = py_int (rps * (if elapsed < 1 then elapsed else 1));
          to_fire = target - lg_slot_count s;
          fired = nat (max 0 to_fire)
      in (s\<lparr>lg_slot_count := lg_slot_count s + int fired\<rparr>, fired, max 0 (1 / max rps 1 * (5/10))))"

fun loadgen_run :: "loadgen \<Rightarrow> (string option \<times> real) list \<Rightarrow> loadgen" where
  "loadgen_run s [] = s"
| "loadgen_run s ((spike, now) # rest) = loadgen_run (fst (loadgen_iter spike now s)) rest"

section \<open>Pending tasks\<close>

text \<open>
  The variable \<open>pending\<close> is rebound by \<open>asyncio.wait\<close> to a new set, while the callback of a task
  discards from the set that was bound when the task was created. Sets are numbered.
\<close>

record pending_tasks =
  pn_current :: nat
  pn_sets :: "nat \<Rightarrow> nat list"
  pn_home :: "nat \<Rightarrow> nat" \<comment> \<open>the set the callback of a task is bound to\<close>
  pn_finished :: "nat list"

definition pending_empty :: pending_tasks where
  "pending_empty = \<lparr>pn_current = 0, pn_sets = (\<lambda>g. []), pn_home = (\<lambda>k. 0), pn_finished = []\<rparr>"

definition spawn :: "nat \<Rightarrow> pending_tasks \<Rightarrow> pending_tasks" where
  "spawn k p = p\<lparr>pn_sets := (pn_sets p)(pn_current p := k # pn_sets p (pn_current p)), pn_home := (pn_home p)(k := pn_current p)\<rparr>"

definition finish_task :: "nat \<Rightarrow> pending_tasks \<Rightarrow> pending_tasks" where
  "finish_task k p =
     p\<lparr>pn_sets := (pn_sets p)(pn_home p k := removeAll k (pn_sets p (pn_home p k))), pn_finished := k # pn_finished p\<rparr>"

definition trim :: "nat \<Rightarrow> pending_tasks \<Rightarrow> pending_tasks" where
  \<comment> \<open>\<open>if len(pending) > limit: _, pending = await asyncio.wait(pending, ...)\<close>, once it returns\<close>
  "trim limit p =
     (if length (pn_sets p (pn_current p)) > limit
      then p\<lparr>pn_current := pn_current p + 1,
             pn_sets := (pn_sets p)(pn_current p + 1 := filter (\<lambda>k. k \<notin> set (pn_finished p)) (pn_sets p (pn_current p)))\<rparr>
      else p)"

definition pending_limit :: nat where "pending_limit = 2000"

section \<open>Statistics\<close>

record lg_stats =
  ls_total :: nat
  ls_ok :: nat
  ls_err :: nat
  ls_lat_sum :: real
  ls_window :: "(real \<times> bool \<times> real) list"

definition stats_empty :: lg_stats where
  "stats_empty = \<lparr>ls_total = 0, ls_ok = 0, ls_err = 0, ls_lat_sum = 0, ls_window = []\<rparr>"

definition fire_request :: "real \<Rightarrow> (nat \<times> real) option \<Rightarrow> lg_stats \<Rightarrow> lg_stats" where
  \<comment> \<open>the end of a request at time \<open>now\<close>: status and latency, or \<open>None\<close> for an exception\<close>
  "fire_request now outcome s =
     (case outcome of
        Some (status, lat_ms) \<Rightarrow>
          let is_ok = status < 500;
              s = s\<lparr>ls_total := ls_total s + 1, ls_lat_sum := ls_lat_sum s + lat_ms,
                    ls_window := ls_window s @ [(now, is_ok, lat_ms)]\<rparr>
          in if is_ok then s\<lparr>ls_ok := ls_ok s + 1\<rparr> else s\<lparr>ls_err := ls_err s + 1\<rparr>
      | None \<Rightarrow> s\<lparr>ls_err := ls_err s + 1, ls_total := ls_total s + 1\<rparr>)"

record lg_line =
  ll_rps :: real
  ll_succ :: real
  ll_p50 :: real
  ll_p99 :: real
  ll_total :: nat

definition print_stats :: "real \<Rightarrow> lg_stats \<Rightarrow> lg_stats \<times> (py_err + lg_line option)" where
  \<comment> \<open>one report; \<open>None\<close> stands for the line that says it is waiting for traffic\<close>
  "print_stats now s =
     (let win = filter (\<lambda>(ts, ok, lat). ts > now - 5) (ls_window s);
          s = s\<lparr>ls_window := win\<rparr>;
          lats = sort (map (\<lambda>(ts, ok, lat). lat) win)
      in (s, if win = [] then Inr None
             else bindE (py_get lats (int (length lats div 2))) (\<lambda>p50.
                  bindE (py_get lats (py_int (real (length lats) * (99/100)))) (\<lambda>p99.
                    Inr (Some \<lparr>ll_rps = real (length win) / 5,
                               ll_succ = real (length (filter (\<lambda>(ts, ok, lat). ok) win)) / real (length win) * 100,
                               ll_p50 = p50, ll_p99 = p99, ll_total = ls_total s\<rparr>)))))"

section \<open>Properties\<close>

lemma target_rps_range: "10 \<le> target_rps spike t \<and> target_rps spike t \<le> 840"
proof -
  define base where "base = 200 + 80 * sin (2 * pi * t / 60)"
  have "sin (2 * pi * t / 60) \<le> 1" by simp
  then have "base \<le> 280" unfolding base_def by linarith
  then show ?thesis unfolding target_rps_def Let_def base_def[symmetric] by auto
qed

definition paced :: "real \<Rightarrow> loadgen \<Rightarrow> bool" where
  "paced now s \<longleftrightarrow> lg_slot_start s \<le> now \<and> 0 \<le> lg_slot_count s \<and> lg_slot_count s \<le> 840"

lemma loadgen_iter_paced:
  assumes "paced now0 s" and "now0 \<le> now"
  shows "paced now (fst (loadgen_iter spike now s))"
proof -
  define f where "f = (if now - lg_slot_start s < 1 then now - lg_slot_start s else 1)"
  have f: "0 \<le> f" "f \<le> 1" using assms by (auto simp: f_def paced_def)
  have "target_rps spike (now - lg_t_start s) * f \<le> 840 * 1"
    using target_rps_range f by (intro mult_mono) (auto intro: order_trans[of 0 10])
  moreover have "0 \<le> target_rps spike (now - lg_t_start s) * f"
    using target_rps_range[of spike "now - lg_t_start s"] f by simp
  ultimately have "py_int (target_rps spike (now - lg_t_start s) * f) \<le> 840" by (simp add: py_int_def floor_le_iff)
  then show ?thesis using assms by (auto simp: loadgen_iter_def Let_def paced_def f_def)
qed

text \<open>
  The generator is bounded: on a clock that does not run backwards it never counts more than 840
  requests in a slot, three ends the crest of the wave.
\<close>

theorem loadgen_slot_bounded:
  assumes "sorted (map snd inputs)" and "\<forall>(spike, now) \<in> set inputs. t0 \<le> now"
  shows "0 \<le> lg_slot_count (loadgen_run (loadgen_start t0) inputs) \<and> lg_slot_count (loadgen_run (loadgen_start t0) inputs) \<le> 840"
proof -
  have "paced (last (now0 # map snd inputs)) (loadgen_run s inputs)"
    if "paced now0 s" and "sorted (now0 # map snd inputs)" for now0 s
    using that
  proof (induction inputs arbitrary: now0 s)
    case (Cons x xs)
    obtain spike now where x: "x = (spike, now)" by fastforce
    then show ?case using Cons.IH[OF loadgen_iter_paced[OF Cons.prems(1)], of now spike] Cons.prems(2) by simp
  qed simp
  moreover have "paced t0 (loadgen_start t0)" by (simp add: paced_def loadgen_start_def)
  moreover have "sorted (t0 # map snd inputs)" using assms by auto
  ultimately show ?thesis by (auto simp: paced_def)
qed

theorem loadgen_slot_bounded_witness: "lg_slot_count (loadgen_run (loadgen_start 0) [(None, 1), (Some ''1'', 2)]) \<le> 840"
  using loadgen_slot_bounded[of "[(None, 1), (Some ''1'', 2)]" 0] by simp

text \<open>
  The load comes in bursts: the iteration that opens a new slot fires the requests of a whole
  second at once, and the rest of the slot is silent as long as the rate does not rise.
\<close>

theorem loadgen_burst_at_rollover:
  assumes "lg_slot_start s + 1 \<le> now" and "now \<le> now'" and "now' < now + 1"
    and "target_rps spike' (now' - lg_t_start s) \<le> target_rps spike (now - lg_t_start s)"
  shows "(let (s1, fired1, z1) = loadgen_iter spike now s; (s2, fired2, z2) = loadgen_iter spike' now' s1
          in int fired1 = py_int (target_rps spike (now - lg_t_start s)) \<and> fired2 = 0)"
proof -
  let ?r = "target_rps spike (now - lg_t_start s)" and ?r' = "target_rps spike' (now' - lg_t_start s)"
  have r: "0 \<le> ?r" "0 \<le> ?r'" using target_rps_range order_trans[of 0 10] by (simp_all add: order_trans[of 0 10])
  have "?r' * (now' - now) \<le> ?r' * 1" using assms r by (intro mult_left_mono) simp_all
  then have le: "?r' * (now' - now) \<le> ?r" "0 \<le> ?r' * (now' - now)" using assms r by simp_all
  then have "py_int (?r' * (now' - now)) \<le> py_int ?r" using r by (simp add: py_int_def floor_mono)
  then show ?thesis using assms py_int_nonneg[OF r(1)] by (simp add: loadgen_iter_def Let_def)
qed

theorem loadgen_burst_at_rollover_witness:
  "fst (snd (loadgen_iter None 2 (fst (loadgen_iter None 2 (loadgen_start 0))))) = 0"
  using loadgen_burst_at_rollover[of "loadgen_start 0" 2 2 None None] by (simp add: loadgen_start_def split_beta Let_def)

text \<open>
  After \<open>pending\<close> has been rebound, a task created before no longer leaves it when it finishes: its
  callback discards from the old set.
\<close>

theorem stale_discard:
  assumes "limit < length (pn_sets p (pn_current p))" and "k \<in> set (pn_sets p (pn_current p))"
    and "k \<notin> set (pn_finished p)" and "pn_home p k \<le> pn_current p"
  shows "(let q = finish_task k (trim limit p) in k \<in> set (pn_sets q (pn_current q)) \<and> k \<in> set (pn_finished q))"
  using assms by (simp add: trim_def finish_task_def Let_def)

theorem stale_discard_witness:
  "(let q = finish_task 1 (trim 1 (spawn 2 (spawn 1 pending_empty))) in 1 \<in> set (pn_sets q (pn_current q)))"
  using stale_discard[of 1 "spawn 2 (spawn 1 pending_empty)" 1] by (simp add: spawn_def pending_empty_def Let_def)

text \<open>
  A report is well defined: the percentiles are elements of the window, the median is at most the
  99th percentile, and the success rate lies between zero and a hundred.
\<close>

theorem report_well_defined:
  assumes "\<exists>(ts, ok, lat) \<in> set (ls_window s). now - 5 < ts"
  shows "\<exists>line. snd (print_stats now s) = Inr (Some line) \<and> ll_p50 line \<le> ll_p99 line \<and>
     0 \<le> ll_succ line \<and> ll_succ line \<le> 100 \<and> ll_p99 line \<in> (\<lambda>(ts, ok, lat). lat) ` set (ls_window s)"
proof -
  define win where "win = filter (\<lambda>(ts, ok, lat). ts > now - 5) (ls_window s)"
  define lats where "lats = sort (map (\<lambda>(ts, ok, lat). lat) win)"
  have ne: "win \<noteq> []" using assms by (auto simp: win_def filter_empty_conv)
  define n where "n = length win"
  have n: "0 < n" "length lats = n" using ne by (simp_all add: n_def lats_def)
  define j where "j = nat (py_int (real n * (99/100)))"
  have pj: "py_int (real n * (99/100)) = int j" using py_int_nonneg[of "real n * (99/100)"] by (simp add: j_def)
  have "real_of_int (py_int (real n * (99/100))) \<le> real n * (99/100)" by (intro py_int_le) simp
  also have "\<dots> < real n" using n by simp
  finally have jn: "j < n" using pj by linarith
  have "n div 2 \<le> j"
  proof -
    have "real (n div 2) \<le> real n * (99/100)" by linarith
    then have "int (n div 2) \<le> \<lfloor>real n * (99/100)\<rfloor>" by (simp add: le_floor_iff)
    then show ?thesis using pj by (simp add: py_int_def)
  qed
  then have "lats ! (n div 2) \<le> lats ! j" using jn n by (intro sorted_nth_mono) (simp_all add: lats_def)
  moreover have "lats ! j \<in> (\<lambda>(ts, ok, lat). lat) ` set (ls_window s)"
  proof -
    have "set lats \<subseteq> (\<lambda>(ts, ok, lat). lat) ` set (ls_window s)" by (force simp: lats_def win_def)
    then show ?thesis using nth_mem[of j lats] jn n(2) by blast
  qed
  moreover have "real (length (filter (\<lambda>(ts, ok, lat). ok) win)) / real n * 100 \<le> 100"
    using n length_filter_le[of "\<lambda>(ts, ok, lat). ok" win] by (simp add: n_def divide_le_eq)
  moreover have "py_get lats (int (length lats div 2)) = Inr (lats ! (n div 2))" "py_get lats (py_int (real (length lats) * (99/100))) = Inr (lats ! j)"
    using n jn pj by (simp_all add: py_get_nat)
  ultimately show ?thesis using ne n
    by (simp add: print_stats_def Let_def win_def[symmetric] lats_def[symmetric] n_def[symmetric])
qed

theorem report_well_defined_witness:
  "\<exists>line. snd (print_stats 10 (fire_request 9 (Some (200, 12)) stats_empty)) = Inr (Some line) \<and> ll_p50 line \<le> ll_p99 line"
  using report_well_defined[of "fire_request 9 (Some (200, 12)) stats_empty" 10]
  by (auto simp: fire_request_def stats_empty_def Let_def)

text \<open>
  Failures without a reply are invisible in the report: exceptions are counted as errors but never
  enter the window the success rate is computed from, so when every request fails that way the
  printer keeps waiting for traffic.
\<close>

theorem exceptions_invisible:
  "ls_err (foldl (\<lambda>s now. fire_request now None s) stats_empty ends) = length ends \<and>
   snd (print_stats now (foldl (\<lambda>s now. fire_request now None s) stats_empty ends)) = Inr None"
proof -
  have "ls_err (foldl (\<lambda>s now. fire_request now None s) s ends) = ls_err s + length ends \<and>
      ls_window (foldl (\<lambda>s now. fire_request now None s) s ends) = ls_window s" for s
    by (induction ends arbitrary: s) (simp_all add: fire_request_def)
  then show ?thesis by (simp add: print_stats_def stats_empty_def Let_def)
qed

end
