(* ===== verification/Demo_Run.thy ===== *)
theory Demo_Run
  imports Omega_Prelude
begin

text \<open>
  The orchestrator of \<open>demo/run.py\<close>: components are started in a fixed order, each checked after a
  pause; a component that is gone by then takes the whole stack down. The model keeps, for each
  started process, whether it is alive, and the order in which processes were signalled. Whether a
  process survives its pause and whether it obeys the interrupt in time are arguments.
\<close>

section \<open>State\<close>

record proc =
  pr_name :: string
  pr_alive :: bool

record stack =
  st_processes :: "proc list" \<comment> \<open>in the order they were started\<close>
  st_interrupted :: "string list" \<comment> \<open>names, in the order of the signals\<close>
  st_killed :: "string list"
  st_spike_flag :: bool
  st_exit :: "nat option"

definition LAUNCH_ORDER :: "string list" where
  "LAUNCH_ORDER = [''backends'', ''proxy'', ''loadgen'']"

definition stack_empty :: "bool \<Rightarrow> stack" where
  "stack_empty spike = \<lparr>st_processes = [], st_interrupted = [], st_killed = [], st_spike_flag = spike, st_exit = None\<rparr>"

section \<open>Operations\<close>

definition teardown :: "(string \<Rightarrow> bool) \<Rightarrow> stack \<Rightarrow> stack" where
  \<comment> \<open>\<open>obeys\<close>: whether a process that is still alive ends within four seconds of the interrupt\<close>
  "teardown obeys s =
     s\<lparr>st_interrupted := st_interrupted s @ map pr_name (rev (st_processes s)),
       st_killed := st_killed s @ map pr_name (filter (\<lambda>p. pr_alive p \<and> \<not> obeys (pr_name p)) (st_processes s)),
       st_processes := map (pr_alive_update (\<lambda>_. False)) (st_processes s),
       st_spike_flag := False\<rparr>"

definition start_process :: "(string \<Rightarrow> bool) \<Rightarrow> stack \<Rightarrow> string \<times> bool \<Rightarrow> stack" where
  \<comment> \<open>\<open>_start\<close> for a component and whether it is alive after its pause; exits with code 1 if not\<close>
  "start_process obeys s spec =
     (case spec of (name, survives) \<Rightarrow>
        let s = s\<lparr>st_processes := st_processes s @ [\<lparr>pr_name = name, pr_alive = survives\<rparr>]\<rparr>
        in if survives then s else (teardown obeys s)\<lparr>st_exit := Some 1\<rparr>)"

fun start_all :: "(string \<Rightarrow> bool) \<Rightarrow> stack \<Rightarrow> (string \<times> bool) list \<Rightarrow> stack" where
  \<comment> \<open>the loop over \<open>LAUNCH_ORDER\<close>, left by the exit\<close>
  "start_all obeys s [] = s"
| "start_all obeys s (spec # specs) =
     (let s = start_process obeys s spec
      in if st_exit s = None then start_all obeys s specs else s)"

definition exited_names :: "stack \<Rightarrow> string list" where
  \<comment> \<open>the names one pass of the monitoring loop warns about\<close>
  "exited_names s =
     map (\<lambda>i. if i < length LAUNCH_ORDER then LAUNCH_ORDER ! i else ''unknown'')
       (filter (\<lambda>i. \<not> pr_alive (st_processes s ! i)) [0..<length (st_processes s)])"

definition demo_main :: "(string \<Rightarrow> bool) \<Rightarrow> bool \<Rightarrow> bool list \<Rightarrow> stack \<Rightarrow> stack" where
  \<comment> \<open>\<open>main\<close> until the interrupt, followed by the handler registered with \<open>atexit\<close>\<close>
  "demo_main obeys has_aiohttp survive s =
     (if \<not> has_aiohttp then (teardown obeys s)\<lparr>st_exit := Some 1\<rparr>
      else let s = start_all obeys s (zip LAUNCH_ORDER survive)
           in if st_exit s \<noteq> None then teardown obeys s
              else (teardown obeys (teardown obeys s))\<lparr>st_exit := Some 0\<rparr>)"

section \<open>Properties\<close>

definition all_down :: "stack \<Rightarrow> bool" where
  "all_down s \<longleftrightarrow> (\<forall>p \<in> set (st_processes s). \<not> pr_alive p) \<and> \<not> st_spike_flag s"

lemma teardown_down: "all_down (teardown obeys s)"
  by (auto simp: teardown_def all_down_def)

lemma start_all_survivors:
  assumes "st_exit s = None"
  shows "st_exit (start_all obeys s specs) = None \<longleftrightarrow> (\<forall>(name, survives) \<in> set specs. survives)"
  using assms
proof (induction specs arbitrary: s)
  case (Cons spec specs)
  then show ?case by (cases spec) (auto simp: start_process_def Let_def)
qed simp

lemma start_all_spec:
  assumes "st_exit s = None" and "\<forall>p \<in> set (st_processes s). pr_alive p"
  shows "(st_exit (start_all obeys s specs) = None \<longrightarrow>
            st_processes (start_all obeys s specs) = st_processes s @ map (\<lambda>(name, a). \<lparr>pr_name = name, pr_alive = True\<rparr>) specs \<and>
            st_interrupted (start_all obeys s specs) = st_interrupted s) \<and>
         (st_exit (start_all obeys s specs) \<noteq> None \<longrightarrow>
            st_exit (start_all obeys s specs) = Some 1 \<and> all_down (start_all obeys s specs) \<and>
            (let k = length (takeWhile snd specs) + 1
             in map pr_name (st_processes (start_all obeys s specs)) = map pr_name (st_processes s) @ map fst (take k specs) \<and>
                st_interrupted (start_all obeys s specs) =
                  st_interrupted s @ rev (map pr_name (st_processes s) @ map fst (take k specs))))"
  using assms
proof (induction specs arbitrary: s)
  case (Cons spec specs)
  obtain name a where spec: "spec = (name, a)" by fastforce
  show ?case
  proof (cases a)
    case True
    then have "start_process obeys s spec = s\<lparr>st_processes := st_processes s @ [\<lparr>pr_name = name, pr_alive = True\<rparr>]\<rparr>"
      by (simp add: start_process_def spec)
    then show ?thesis using Cons.IH[of "start_process obeys s spec"] Cons.prems True spec by simp
  next
    case False
    then show ?thesis using spec teardown_down[of obeys]
      by (simp add: start_process_def Let_def) (simp add: teardown_def all_down_def comp_def rev_map)
  qed
qed simp



text \<open>
  However it ends, the demo leaves nothing behind: no process is alive and the spike flag is gone,
  whichever component failed and whether or not the processes obey the interrupt.
\<close>

theorem demo_leaves_nothing:
  "all_down (demo_main obeys has_aiohttp survive s) \<and> st_exit (demo_main obeys has_aiohttp survive s) \<noteq> None"
  using teardown_down by (auto simp: demo_main_def Let_def all_down_def teardown_def)

text \<open>The monitoring loop names exactly the components that have exited.\<close>

theorem monitor_names_exited:
  assumes "map pr_name (st_processes s) = LAUNCH_ORDER"
  shows "exited_names s = map pr_name (filter (\<lambda>p. \<not> pr_alive p) (st_processes s))"
proof -
  have len: "length (st_processes s) = length LAUNCH_ORDER" using assms by (metis length_map)
  have "exited_names s = map (\<lambda>i. pr_name (st_processes s ! i)) (filter (\<lambda>i. \<not> pr_alive (st_processes s ! i)) [0..<length (st_processes s)])"
    using len assms by (auto simp: exited_names_def) (metis nth_map)
  also have "\<dots> = map pr_name (filter (\<lambda>p. \<not> pr_alive p) (map (\<lambda>i. st_processes s ! i) [0..<length (st_processes s)]))"
    by (simp add: filter_map comp_def)
  finally show ?thesis by (simp add: map_nth)
qed

theorem monitor_names_exited_witness:
  "exited_names (stack_empty False\<lparr>st_processes := [\<lparr>pr_name = ''backends'', pr_alive = True\<rparr>,
      \<lparr>pr_name = ''proxy'', pr_alive = False\<rparr>, \<lparr>pr_name = ''loadgen'', pr_alive = True\<rparr>]\<rparr>) = [''proxy'']"
  by (subst monitor_names_exited) (simp_all add: LAUNCH_ORDER_def)

end
