(* ===== verification/Dashboard_Sim.thy ===== *)
theory Dashboard_Sim
  imports Metrics_Store Kan_Inference
begin

text \<open>
  The simulation behind the demo mode of \<open>dashboard/app.py\<close>: the session state, one tick of the
  M/M/1 model and the request log it invents. The draws of the random generator are arguments: a
  normal draw is its standardised value, a uniform one lies in the unit interval and is scaled by
  the code. The clock text of a log line is left to the printer.
\<close>

section \<open>State\<close>

definition H_SIM :: nat where "H_SIM = 120"
definition N_SIM :: nat where "N_SIM = 4"
definition SIM_NAMES :: "string list" where
  "SIM_NAMES = [''backend-0a2b'', ''backend-1c8d'', ''backend-2f3e'', ''backend-3b9a'']"
definition SIM_BL :: "real list" where "SIM_BL = [45, 52, 120, 38]"
definition SIM_BU :: "real list" where "SIM_BU = [30/100, 35/100, 45/100, 28/100]"
definition SIM_PATHS :: "(string \<times> string) list" where
  "SIM_PATHS =
     [(''/api/v1/health'', ''GET''), (''/api/v1/users'', ''GET''), (''/api/v2/ingest'', ''POST''),
      (''/api/v1/metrics'', ''GET''), (''/api/v2/config'', ''PUT''), (''/api/v1/events'', ''POST''),
      (''/api/v1/status'', ''GET''), (''/api/v2/query'', ''POST'')]"

datatype log_level = INFO | WARN | ERROR

record log_line =
  ll_level :: log_level
  ll_name :: string
  ll_method :: string
  ll_path :: string
  ll_status :: nat
  ll_latency :: "real option" \<comment> \<open>\<open>None\<close> prints as a dash\<close>
  ll_tag :: string

record sim_session =
  ds_tick :: nat
  ds_lat :: "real list list"
  ds_load :: "real list list"
  ds_rps :: "real list"
  ds_err :: "real list list"
  ds_vnodes :: "real list"
  ds_health :: "bool list"
  ds_rl :: "real list"
  ds_cbf :: "bool list"
  ds_proactive :: bool
  ds_wt :: "real list"
  ds_fail :: int
  ds_spike :: bool
  ds_treq :: "int list"
  ds_logs :: "log_line list"
  ds_sla_ok :: int
  ds_sla_tot :: int

definition sim_start :: sim_session where
  "sim_start =
     \<lparr>ds_tick = 0, ds_lat = replicate N_SIM (replicate H_SIM 0), ds_load = replicate N_SIM (replicate H_SIM 0),
      ds_rps = replicate H_SIM 0, ds_err = replicate N_SIM (replicate H_SIM 0),
      ds_vnodes = replicate N_SIM 150, ds_health = replicate N_SIM True, ds_rl = replicate N_SIM 1000,
      ds_cbf = replicate N_SIM False, ds_proactive = False, ds_wt = replicate N_SIM (1 / real N_SIM),
      ds_fail = -1, ds_spike = False, ds_treq = replicate N_SIM 0, ds_logs = [], ds_sla_ok = 0,
      ds_sla_tot = 0\<rparr>"

definition init_sim :: "sim_session option \<Rightarrow> sim_session" where
  \<comment> \<open>an initialised session is kept\<close>
  "init_sim session = (case session of Some s \<Rightarrow> s | None \<Rightarrow> sim_start)"

section \<open>One tick of one target\<close>

record target_draws =
  td_load :: real \<comment> \<open>standard normal\<close>
  td_cap :: real \<comment> \<open>uniform on the unit interval\<close>
  td_lat :: real \<comment> \<open>standard normal\<close>
  td_err :: real \<comment> \<open>uniform on the unit interval\<close>

record target_tick =
  tt_load :: real
  tt_cbf :: bool
  tt_lat :: real
  tt_err :: real

definition idle_tick :: target_tick where
  \<comment> \<open>the entries an unhealthy target keeps\<close>
  "idle_tick = \<lparr>tt_load = 0, tt_cbf = False, tt_lat = 0, tt_err = 0\<rparr>"

definition cap_load :: "real \<Rightarrow> real \<Rightarrow> real" where
  \<comment> \<open>the safety projection: a load above the cap is redrawn just above it\<close>
  "cap_load load u = (if load > 80/100 then 80/100 + 3/100 * u else load)"

definition target_latency :: "real \<Rightarrow> real \<Rightarrow> real \<Rightarrow> real" where
  \<comment> \<open>the M/M/1 sojourn time at that load, with four per cent of noise\<close>
  "target_latency bl load z =
     (let sl = min load (97/100);
          mu = 1 / (bl / 1000);
          lam = sl * mu;
          ml = (if mu > lam then 1000 / (mu - lam) else 5000)
      in max 1 (ml + ml * (4/100) * z))"

definition target_error :: "bool \<Rightarrow> real \<Rightarrow> real \<Rightarrow> real" where
  "target_error failing load u =
     (if failing then 14/100 + 4/100 * u
      else if load > 85/100 then (load - 85/100) * (25/10)
      else 15/10000 * u)"

definition target_step :: "real \<Rightarrow> real \<Rightarrow> real \<Rightarrow> real \<Rightarrow> bool \<Rightarrow> target_draws \<Rightarrow> target_tick" where
  \<comment> \<open>from the traffic share \<open>w\<^sub>i * rps\<close>, the rate cap, the base latency and the base utilisation\<close>
  "target_step share rl bl bu failing d =
     (let util = share / rl;
          raw = min (util + bu * (3/10) + 15/1000 * td_load d) 1;
          load = cap_load raw (td_cap d)
      in \<lparr>tt_load = load, tt_cbf = (raw > 80/100), tt_lat = target_latency bl load (td_lat d),
          tt_err = target_error failing load (td_err d)\<rparr>)"

definition requests_of :: "real \<Rightarrow> int" where
  "requests_of share = max 1 (py_int (share / 10))"

definition sla_credit :: "int \<Rightarrow> target_tick \<Rightarrow> int" where
  "sla_credit nr t = py_int (real_of_int nr * (1 - tt_err t) * (if tt_lat t < 200 then 1 else 5/10))"

section \<open>The tick\<close>

definition sim_traffic :: "nat \<Rightarrow> bool \<Rightarrow> real" where
  "sim_traffic t spike =
     (let rps = 1800 + 700 * sin (2 * pi * real t / 60) + 350 * sin (2 * pi * real t / 180)
      in if spike then rps * (24/10) else rps)"

definition shares :: "real list \<Rightarrow> real list" where
  "shares vnodes = map (\<lambda>v. v / sum_list vnodes) vnodes"

definition inverse_latency :: "real list \<Rightarrow> real list" where
  "inverse_latency lat = map (\<lambda>l. if l > 0 then 1 / (l + 1) else 0) lat"

definition raw_weights :: "real list \<Rightarrow> bool list \<Rightarrow> real list" where
  "raw_weights lat health =
     (let h = map flag health;
          inv = map2 (*) (inverse_latency lat) h
      in if sum_list inv > 0 then map (\<lambda>x. x / sum_list inv) inv
         else map (\<lambda>x. x / max (sum_list h) 1) h)"

definition blend :: "real list \<Rightarrow> real list \<Rightarrow> real list" where
  "blend wt raw = map2 (\<lambda>a b. 88/100 * a + 12/100 * b) wt raw"

definition steer_vnodes :: "bool \<Rightarrow> real list \<Rightarrow> real list \<Rightarrow> real list" where
  \<comment> \<open>loaded targets give up three per cent under pressure; all drift back to 150 otherwise\<close>
  "steer_vnodes proactive load vnodes =
     (if proactive then map2 (\<lambda>l v. if l > 70/100 then max 50 (v * (97/100)) else v) load vnodes
      else map (\<lambda>v. v * (99/100) + 150 * (1/100)) vnodes)"

definition target_ticks :: "sim_session \<Rightarrow> real \<Rightarrow> target_draws list \<Rightarrow> target_tick list" where
  "target_ticks s rps ds =
     (let w = shares (ds_vnodes s)
      in map (\<lambda>i. if ds_health s ! i
                  then target_step (w ! i * rps) (ds_rl s ! i) (SIM_BL ! i) (SIM_BU ! i) (int i = ds_fail s) (ds ! i)
                  else idle_tick) [0..<N_SIM])"

definition count_requests :: "sim_session \<Rightarrow> real \<Rightarrow> int list" where
  \<comment> \<open>\<open>nr\<close> per target, zero for the unhealthy ones the loop skips\<close>
  "count_requests s rps =
     (let w = shares (ds_vnodes s)
      in map (\<lambda>i. if ds_health s ! i then requests_of (w ! i * rps) else 0) [0..<N_SIM])"

section \<open>The request log\<close>

record log_draws =
  ld_target :: nat
  ld_path :: nat
  ld_lat :: real \<comment> \<open>standard normal\<close>
  ld_err :: real \<comment> \<open>uniform on the unit interval\<close>
  ld_status :: nat \<comment> \<open>index into the three error codes\<close>

definition log_line_of :: "real list \<Rightarrow> real list \<Rightarrow> bool list \<Rightarrow> string list \<Rightarrow> log_draws \<Rightarrow> log_line" where
  \<comment> \<open>the body of the loops of \<open>_gen_sim_logs\<close> and \<open>_gen_live_logs\<close>\<close>
  "log_line_of lat err health names d =
     (let i = ld_target d;
          lv = max 1 (lat ! i + lat ! i * (15/100) * ld_lat d);
          line = (\<lambda>level status ls tag. \<lparr>ll_level = level, ll_name = names ! i,
                    ll_method = snd (SIM_PATHS ! ld_path d), ll_path = fst (SIM_PATHS ! ld_path d),
                    ll_status = status, ll_latency = ls, ll_tag = tag\<rparr>)
      in if \<not> health ! i then line ERROR 503 None ''CONN_REFUSED''
         else if ld_err d < err ! i then line ERROR ([500, 502, 503] ! ld_status d) (Some lv) ''UPSTREAM_ERR''
         else if lv > 300 then line WARN 200 (Some lv) ''SLOW_RESPONSE''
         else line INFO 200 (Some lv) [])"

definition sim_log_count :: "real \<Rightarrow> nat" where
  "sim_log_count rps = nat (max 3 (min 10 (py_int (rps / 300))))"

definition live_log_count :: "real \<Rightarrow> nat" where
  "live_log_count rps = nat (max 2 (min 8 (py_int (rps / 400))))"

definition push_logs :: "log_line list \<Rightarrow> log_line list \<Rightarrow> log_line list" where
  "push_logs new old = new @ take 300 old"

definition gen_sim_logs :: "real list \<Rightarrow> real list \<Rightarrow> bool list \<Rightarrow> real \<Rightarrow> log_draws list \<Rightarrow> log_line list \<Rightarrow> log_line list" where
  \<comment> \<open>one drawn line per element of the first draws\<close>
  "gen_sim_logs lat err health rps draws old =
     push_logs (map (log_line_of lat err health SIM_NAMES) (take (sim_log_count rps) draws)) old"

record sim_draws =
  sd_targets :: "target_draws list"
  sd_logs :: "log_draws list"

definition step_sim :: "sim_session \<Rightarrow> sim_draws \<Rightarrow> sim_session" where
  "step_sim s d =
     (let t = ds_tick s;
          rps = sim_traffic t (ds_spike s);
          ticks = target_ticks s rps (sd_targets d);
          load = map tt_load ticks; lat = map tt_lat ticks; err = map tt_err ticks;
          nrs = count_requests s rps;
          credits = map2 (\<lambda>nr tk. if nr = 0 then 0 else sla_credit nr tk) nrs ticks;
          pro = (if t > 10 then load_slope (column_means (ds_load s) 10) * 30 > 75/100 else ds_proactive s)
      in s\<lparr>ds_cbf := map tt_cbf ticks,
           ds_treq := map2 (+) (ds_treq s) nrs,
           ds_sla_ok := ds_sla_ok s + sum_list credits,
           ds_sla_tot := ds_sla_tot s + sum_list nrs,
           ds_wt := blend (ds_wt s) (raw_weights lat (ds_health s)),
           ds_proactive := pro,
           ds_vnodes := (if t > 10 then steer_vnodes pro load (ds_vnodes s) else ds_vnodes s),
           ds_lat := map2 shift_in (ds_lat s) lat,
           ds_load := map2 shift_in (ds_load s) load,
           ds_rps := shift_in (ds_rps s) rps,
           ds_err := map2 shift_in (ds_err s) err,
           ds_logs := gen_sim_logs lat err (ds_health s) rps (sd_logs d) (ds_logs s),
           ds_tick := t + 1\<rparr>)"

section \<open>The fault panel\<close>

record fault_panel =
  fp_sel :: "nat option" \<comment> \<open>the chosen target\<close>
  fp_spike :: bool
  fp_rl :: "int list" \<comment> \<open>the sliders\<close>

definition apply_panel :: "sim_session \<Rightarrow> fault_panel \<Rightarrow> sim_session" where
  "apply_panel s p =
     (let fail = (case fp_sel p of None \<Rightarrow> -1 | Some i \<Rightarrow> int i)
      in s\<lparr>ds_fail := fail, ds_health := map (\<lambda>i. int i \<noteq> fail) [0..<N_SIM],
           ds_spike := fp_spike p, ds_rl := map real_of_int (fp_rl p)\<rparr>)"

section \<open>The invariant of a session\<close>

definition sim_draws_ok :: "sim_draws \<Rightarrow> bool" where
  "sim_draws_ok d \<longleftrightarrow> length (sd_targets d) = N_SIM \<and>
     (\<forall>td \<in> set (sd_targets d). 0 \<le> td_cap td \<and> td_cap td \<le> 1 \<and> 0 \<le> td_err td \<and> td_err td \<le> 1)"

definition panel_ok :: "fault_panel \<Rightarrow> bool" where
  \<comment> \<open>what the widgets of the panel can return\<close>
  "panel_ok p \<longleftrightarrow> (\<forall>i. fp_sel p = Some i \<longrightarrow> i < N_SIM) \<and>
     length (fp_rl p) = N_SIM \<and> (\<forall>r \<in> set (fp_rl p). 200 \<le> r \<and> r \<le> 2000)"

inductive session_reach :: "sim_session \<Rightarrow> bool" where
  start: "session_reach sim_start"
| tick: "session_reach s \<Longrightarrow> sim_draws_ok d \<Longrightarrow> session_reach (step_sim s d)"
| panel: "session_reach s \<Longrightarrow> panel_ok p \<Longrightarrow> session_reach (apply_panel s p)"

definition session_ok :: "sim_session \<Rightarrow> bool" where
  "session_ok s \<longleftrightarrow>
     - 1 \<le> ds_fail s \<and> ds_fail s < int N_SIM \<and>
     ds_health s = map (\<lambda>i. int i \<noteq> ds_fail s) [0..<N_SIM] \<and>
     length (ds_vnodes s) = N_SIM \<and> (\<forall>v \<in> set (ds_vnodes s). 50 \<le> v \<and> v \<le> 150) \<and>
     length (ds_rl s) = N_SIM \<and> (\<forall>r \<in> set (ds_rl s). 200 \<le> r \<and> r \<le> 2000) \<and>
     rows_of (\<lambda>x. x \<le> 83/100) N_SIM H_SIM (ds_load s) \<and>
     rows_of (\<lambda>x. 0 \<le> x \<and> x \<le> 15/10000) N_SIM H_SIM (ds_err s) \<and>
     rows_of (\<lambda>x. x = 0 \<or> 1 \<le> x) N_SIM H_SIM (ds_lat s) \<and>
     length (ds_rps s) = H_SIM \<and> length (ds_wt s) = N_SIM \<and> is_dist (ds_wt s) \<and>
     length (ds_treq s) = N_SIM \<and> (\<forall>r \<in> set (ds_treq s). 0 \<le> r) \<and>
     length (ds_cbf s) = N_SIM \<and>
     0 \<le> ds_sla_ok s \<and> ds_sla_ok s \<le> ds_sla_tot s \<and> length (ds_logs s) \<le> 310"

lemma sim_start_ok: "session_ok sim_start"
  by (auto simp: session_ok_def sim_start_def N_SIM_def H_SIM_def rows_of_def is_dist_def sum_list_replicate
      upt_rec numeral_eq_Suc)

definition target_tick_ok :: "target_tick \<Rightarrow> bool" where
  "target_tick_ok t \<longleftrightarrow> tt_load t \<le> 83/100 \<and> 0 \<le> tt_err t \<and> tt_err t \<le> 15/10000 \<and> (tt_lat t = 0 \<or> 1 \<le> tt_lat t)"

text \<open>A load never passes 0.83, so neither the error branch above 0.85 nor the 5000 ms one is taken.\<close>

lemma cap_load_range: "0 \<le> u \<Longrightarrow> u \<le> 1 \<Longrightarrow> cap_load x u \<le> 83/100"
  by (simp add: cap_load_def)

lemma target_latency_ge: "1 \<le> target_latency bl load z"
  by (simp add: target_latency_def Let_def)

lemma target_error_range:
  "load \<le> 83/100 \<Longrightarrow> 0 \<le> u \<Longrightarrow> u \<le> 1 \<Longrightarrow> 0 \<le> target_error False load u \<and> target_error False load u \<le> 15/10000"
  by (simp add: target_error_def)

lemma target_step_ok:
  assumes "0 \<le> td_cap d \<and> td_cap d \<le> 1 \<and> 0 \<le> td_err d \<and> td_err d \<le> 1"
  shows "target_tick_ok (target_step share rl bl bu False d)"
  using assms target_error_range[OF cap_load_range] cap_load_range[of "td_cap d"]
  by (simp add: target_tick_ok_def target_step_def Let_def target_latency_ge)

lemma target_step_lat: "1 \<le> tt_lat (target_step share rl bl bu f d)"
  by (simp add: target_step_def Let_def target_latency_ge)

lemma idle_tick_ok: "target_tick_ok idle_tick"
  by (simp add: target_tick_ok_def idle_tick_def)

lemma sla_credit_range:
  assumes "target_tick_ok t" and "0 \<le> nr"
  shows "0 \<le> sla_credit nr t \<and> sla_credit nr t \<le> nr"
proof -
  define x where "x = real_of_int nr * (1 - tt_err t) * (if tt_lat t < 200 then 1 else 5/10)"
  have e: "0 \<le> 1 - tt_err t" "1 - tt_err t \<le> 1" using assms(1) by (simp_all add: target_tick_ok_def)
  have le: "real_of_int nr * (1 - tt_err t) \<le> real_of_int nr"
    using mult_left_mono[OF e(2), of "real_of_int nr"] assms(2) by simp
  have nn: "0 \<le> real_of_int nr * (1 - tt_err t)" using e(1) assms(2) by simp
  have "0 \<le> x" "x \<le> real_of_int nr" using le nn by (simp_all add: x_def)
  then have "0 \<le> py_int x" "real_of_int (py_int x) \<le> real_of_int nr"
    using py_int_nonneg[of x] py_int_le[of x] by simp_all
  then show ?thesis by (simp add: sla_credit_def x_def)
qed

lemma requests_of_pos: "1 \<le> requests_of x"
  by (simp add: requests_of_def)

lemma session_okD:
  assumes "session_ok s"
  shows "length (ds_health s) = N_SIM" "length (ds_vnodes s) = N_SIM" "length (ds_wt s) = N_SIM"
    "i < N_SIM \<Longrightarrow> ds_health s ! i \<longleftrightarrow> int i \<noteq> ds_fail s" "True \<in> set (ds_health s)"
proof -
  show l: "length (ds_health s) = N_SIM" "length (ds_vnodes s) = N_SIM" "length (ds_wt s) = N_SIM"
    using assms by (auto simp: session_ok_def)
  show h: "ds_health s ! i \<longleftrightarrow> int i \<noteq> ds_fail s" if "i < N_SIM" for i
    using assms that by (simp add: session_ok_def)
  define k :: nat where "k = (if ds_fail s = 0 then 1 else 0)"
  have "k < length (ds_health s)" "ds_health s ! k" using h[of k] l(1) by (auto simp: k_def N_SIM_def)
  then show "True \<in> set (ds_health s)" by (metis nth_mem)
qed

lemma length_target_ticks [simp]: "length (target_ticks s rps ds) = N_SIM"
  by (simp add: target_ticks_def Let_def)

lemma target_ticks_nth:
  "i < N_SIM \<Longrightarrow> target_ticks s rps ds ! i =
     (if ds_health s ! i
      then target_step (shares (ds_vnodes s) ! i * rps) (ds_rl s ! i) (SIM_BL ! i) (SIM_BU ! i) (int i = ds_fail s) (ds ! i)
      else idle_tick)"
  by (simp add: target_ticks_def Let_def)

lemma target_ticks_ok:
  assumes "session_ok s" and "sim_draws_ok d" and "i < N_SIM"
  shows "target_tick_ok (target_ticks s rps (sd_targets d) ! i)"
proof (cases "ds_health s ! i")
  case True
  then have "int i \<noteq> ds_fail s" using session_okD(4)[OF assms(1,3)] by simp
  moreover have "sd_targets d ! i \<in> set (sd_targets d)" using assms(2,3) by (simp add: sim_draws_ok_def)
  ultimately show ?thesis using True assms(2,3) by (simp add: target_ticks_nth target_step_ok sim_draws_ok_def)
qed (simp add: target_ticks_nth assms(3) idle_tick_ok)

lemma ticks_column:
  assumes "session_ok s" and "sim_draws_ok d" and "\<And>t. target_tick_ok t \<Longrightarrow> P (f t)"
  shows "\<forall>v \<in> set (map f (target_ticks s rps (sd_targets d))). P v"
  using target_ticks_ok[OF assms(1,2)] assms(3) by (auto simp: in_set_conv_nth)

lemma length_count_requests [simp]: "length (count_requests s rps) = N_SIM"
  by (simp add: count_requests_def Let_def)

lemma count_requests_nonneg: "\<forall>r \<in> set (count_requests s rps). 0 \<le> r"
  using requests_of_pos by (auto simp: count_requests_def Let_def intro: order_trans[of 0 1])

lemma map2_sum_bounds:
  "length xs = length ys \<Longrightarrow> \<forall>(x, y) \<in> set (zip xs ys). 0 \<le> f x y \<and> f x y \<le> x \<Longrightarrow>
     0 \<le> sum_list (map2 f xs ys) \<and> sum_list (map2 f xs ys) \<le> sum_list (xs :: int list)"
  by (induction xs ys rule: list_induct2) auto

lemma credits_bounded:
  fixes rps :: real
  assumes "session_ok s" and "sim_draws_ok d"
  defines "nrs \<equiv> count_requests s rps" and "ticks \<equiv> target_ticks s rps (sd_targets d)"
  shows "0 \<le> sum_list (map2 (\<lambda>nr tk. if nr = 0 then 0 else sla_credit nr tk) nrs ticks) \<and>
     sum_list (map2 (\<lambda>nr tk. if nr = 0 then 0 else sla_credit nr tk) nrs ticks) \<le> sum_list nrs"
proof (rule map2_sum_bounds)
  show "length nrs = length ticks" by (simp add: nrs_def ticks_def)
  show "\<forall>(nr, tk) \<in> set (zip nrs ticks). 0 \<le> (if nr = 0 then 0 else sla_credit nr tk) \<and>
          (if nr = 0 then 0 else sla_credit nr tk) \<le> nr"
  proof clarify
    fix nr tk assume "(nr, tk) \<in> set (zip nrs ticks)"
    then have "0 \<le> nr" "target_tick_ok tk"
      using count_requests_nonneg[of s rps] target_ticks_ok[OF assms(1,2)]
      by (auto simp: nrs_def ticks_def in_set_conv_nth dest!: set_zip_leftD set_zip_rightD)
    then show "0 \<le> (if nr = 0 then 0 else sla_credit nr tk) \<and> (if nr = 0 then 0 else sla_credit nr tk) \<le> nr"
      using sla_credit_range by simp
  qed
qed

lemma sum_masked_pos:
  "length xs = length health \<Longrightarrow> \<forall>i < length xs. health ! i \<longrightarrow> 0 < xs ! i \<Longrightarrow> \<forall>x \<in> set xs. 0 \<le> x \<Longrightarrow>
   True \<in> set health \<Longrightarrow> 0 < sum_list (map2 (*) xs (map flag health) :: real list)"
proof (induction xs health rule: list_induct2)
  case (Cons x xs b health)
  have rest: "0 \<le> sum_list (map2 (*) xs (map flag health) :: real list)"
    using Cons.prems(2) by (intro sum_list_nonneg_list) (auto dest!: zip_memD intro!: mult_nonneg_nonneg)
  show ?case
  proof (cases b)
    case True
    then show ?thesis using Cons.prems(1) rest by fastforce
  next
    case False
    moreover have "\<forall>i < length xs. health ! i \<longrightarrow> 0 < xs ! i" using Cons.prems(1) by fastforce
    ultimately show ?thesis using Cons.IH Cons.prems by simp
  qed
qed simp

lemma raw_weights_masked:
  assumes "length lat = length health" and "True \<in> set health" and "\<forall>l \<in> set lat. 0 \<le> l"
  shows "is_dist (raw_weights lat health)" and "masked health (raw_weights lat health)"
proof -
  define h where "h = map flag health"
  define inv where "inv = map2 (*) (inverse_latency lat) h"
  have len: "length (inverse_latency lat) = length health" using assms(1) by (simp add: inverse_latency_def)
  have inv0: "\<forall>x \<in> set (inverse_latency lat). 0 \<le> x" using assms(3) by (auto simp: inverse_latency_def)
  have h1: "1 \<le> sum_list h" using sum_flags_ge_1[OF assms(2)] by (simp add: h_def)
  have mh: "masked health h" unfolding h_def by (rule masked_flags)
  have mi: "masked health inv"
    by (rule masked_product[of "inverse_latency lat"]) (use len inv0 in \<open>simp_all add: inv_def h_def\<close>)
  define v c where "v = (if sum_list inv > 0 then inv else h)"
    and "c = (if sum_list inv > 0 then sum_list inv else max (sum_list h) 1)"
  have eq: "raw_weights lat health = map (\<lambda>x. x / c) v"
    by (simp add: raw_weights_def Let_def v_def c_def inv_def h_def)
  have v: "masked health v" "sum_list v = c" "0 < c"
    using mi mh h1 by (auto simp: v_def c_def)
  show "masked health (raw_weights lat health)"
    unfolding eq using masked_divide[OF v(1)] v(3) by simp
  have "is_dist (map (\<lambda>x. x / sum_list v) v)"
    using is_dist_normalise masked_nonneg[OF v(1)] v(2,3) by metis
  then show "is_dist (raw_weights lat health)" unfolding eq by (simp only: v(2))
qed

lemma length_raw_weights [simp]: "length lat = length health \<Longrightarrow> length (raw_weights lat health) = length health"
  by (simp add: raw_weights_def Let_def inverse_latency_def)

lemma steer_vnodes_range:
  assumes "\<forall>v \<in> set vs. 50 \<le> v \<and> v \<le> 150" and "length load = length vs"
  shows "\<forall>v \<in> set (steer_vnodes p load vs). 50 \<le> v \<and> v \<le> 150"
proof
  fix v assume v: "v \<in> set (steer_vnodes p load vs)"
  obtain u where u: "u \<in> set vs" "v = max 50 (u * (97/100)) \<or> v = u \<or> v = u * (99/100) + 150 * (1/100)"
    using v assms(2) by (cases p) (auto simp: steer_vnodes_def split: if_splits dest: set_zip_rightD)
  have "50 \<le> u" "u \<le> 150" using u(1) assms(1) by simp_all
  then show "50 \<le> v \<and> v \<le> 150" using u(2) by auto
qed

lemma length_steer_vnodes [simp]: "length load = length vs \<Longrightarrow> length (steer_vnodes p load vs) = length vs"
  by (simp add: steer_vnodes_def)

lemma log_count_range: "sim_log_count rps \<le> 10" "live_log_count rps \<le> 8"
  by (simp_all add: sim_log_count_def live_log_count_def)

lemma gen_sim_logs_length: "length (gen_sim_logs lat err health rps draws old) \<le> 310"
  using log_count_range(1)[of rps] by (simp add: gen_sim_logs_def push_logs_def)

lemma sum_list_nonneg_int: "\<forall>x \<in> set xs. 0 \<le> x \<Longrightarrow> 0 \<le> sum_list (xs :: int list)"
  by (induction xs) auto

lemma map2_add_nonneg:
  "\<forall>x \<in> set xs. 0 \<le> x \<Longrightarrow> \<forall>y \<in> set ys. 0 \<le> y \<Longrightarrow> \<forall>z \<in> set (map2 (+) xs ys). 0 \<le> (z :: int)"
  by (auto dest!: zip_memD)

lemma apply_panel_ok:
  assumes "session_ok s" and "panel_ok p"
  shows "session_ok (apply_panel s p)"
proof -
  have "\<forall>r \<in> set (map real_of_int (fp_rl p)). 200 \<le> r \<and> r \<le> 2000" using assms(2) by (auto simp: panel_ok_def)
  then show ?thesis using assms by (auto simp: session_ok_def apply_panel_def panel_ok_def Let_def N_SIM_def split: option.splits)
qed

lemma step_sim_ok:
  assumes "session_ok s" and "sim_draws_ok d"
  shows "session_ok (step_sim s d)"
proof -
  define rps where "rps = sim_traffic (ds_tick s) (ds_spike s)"
  define ticks where "ticks = target_ticks s rps (sd_targets d)"
  have len: "length ticks = N_SIM" by (simp add: ticks_def)
  note col = ticks_column[OF assms, of _ _ rps, folded ticks_def]
  have load: "rows_of (\<lambda>x. x \<le> 83/100) N_SIM H_SIM (map2 shift_in (ds_load s) (map tt_load ticks))"
    using assms(1) len by (intro rows_of_shift col) (auto simp: session_ok_def target_tick_ok_def)
  have err: "rows_of (\<lambda>x. 0 \<le> x \<and> x \<le> 15/10000) N_SIM H_SIM (map2 shift_in (ds_err s) (map tt_err ticks))"
    using assms(1) len by (intro rows_of_shift col) (auto simp: session_ok_def target_tick_ok_def)
  have lat: "rows_of (\<lambda>x. x = 0 \<or> 1 \<le> x) N_SIM H_SIM (map2 shift_in (ds_lat s) (map tt_lat ticks))"
    using assms(1) len by (intro rows_of_shift col) (auto simp: session_ok_def target_tick_ok_def)
  have lat0: "\<forall>l \<in> set (map tt_lat ticks). 0 \<le> l" by (rule col) (auto simp: target_tick_ok_def)
  have wt: "is_dist (blend (ds_wt s) (raw_weights (map tt_lat ticks) (ds_health s)))"
    using raw_weights_masked(1)[OF _ session_okD(5)[OF assms(1)] lat0] assms(1) len session_okD(1,3)[OF assms(1)]
    unfolding blend_def by (intro is_dist_mix) (simp_all add: session_ok_def)
  have vn: "\<forall>v \<in> set (steer_vnodes p (map tt_load ticks) (ds_vnodes s)). 50 \<le> v \<and> v \<le> 150" for p
    using assms(1) len by (intro steer_vnodes_range) (auto simp: session_ok_def)
  have treq: "\<forall>r \<in> set (map2 (+) (ds_treq s) (count_requests s rps)). 0 \<le> r"
    using assms(1) count_requests_nonneg by (intro map2_add_nonneg) (auto simp: session_ok_def)
  note sla = credits_bounded[OF assms, of rps, folded ticks_def]
  show ?thesis
    unfolding step_sim_def Let_def rps_def[symmetric] ticks_def[symmetric]
    using assms(1) load err lat wt vn treq sla len gen_sim_logs_length session_okD(1)[OF assms(1)]
    by (simp add: session_ok_def blend_def)
qed

lemma session_reach_ok: "session_reach s \<Longrightarrow> session_ok s"
  by (induction rule: session_reach.induct) (simp_all add: sim_start_ok step_sim_ok apply_panel_ok)

section \<open>Properties\<close>

text \<open>
  In every session the demo mode can reach, whatever is drawn and whatever the fault panel is set
  to: at most one target is down, the virtual-node counts stay between 50 and 150, the displayed
  loads never pass 83 per cent, the error rates never pass 0.15 per cent, the weights are a
  probability vector, no more requests meet the objective than were sent, and the log keeps at
  most 310 lines.
\<close>
theorem demo_session_invariant:
  assumes "session_reach s"
  shows "(\<forall>i < N_SIM. ds_health s ! i \<longleftrightarrow> int i \<noteq> ds_fail s) \<and>
    (\<forall>v \<in> set (ds_vnodes s). 50 \<le> v \<and> v \<le> 150) \<and>
    (\<forall>i < N_SIM. \<forall>t < H_SIM. ds_load s ! i ! t \<le> 83/100 \<and>
       0 \<le> ds_err s ! i ! t \<and> ds_err s ! i ! t \<le> 15/10000) \<and>
    is_dist (ds_wt s) \<and> 0 \<le> ds_sla_ok s \<and> ds_sla_ok s \<le> ds_sla_tot s \<and> length (ds_logs s) \<le> 310"
proof -
  have ok: "session_ok s" by (rule session_reach_ok[OF assms])
  have "ds_load s ! i ! t \<le> 83/100" "0 \<le> ds_err s ! i ! t \<and> ds_err s ! i ! t \<le> 15/10000"
    if "i < N_SIM" "t < H_SIM" for i t
    using ok rows_of_nth[where P = "\<lambda>x::real. x \<le> 83/100", OF _ that]
      rows_of_nth[where P = "\<lambda>x::real. 0 \<le> x \<and> x \<le> 15/10000", OF _ that]
    by (simp_all add: session_ok_def)
  then show ?thesis using ok by (simp add: session_ok_def)
qed

definition calm_draws :: sim_draws where
  "calm_draws =
     \<lparr>sd_targets = replicate N_SIM \<lparr>td_load = 0, td_cap = 0, td_lat = 0, td_err = 1/2\<rparr>, sd_logs = []\<rparr>"

theorem demo_session_invariant_witness:
  "is_dist (ds_wt (step_sim (apply_panel sim_start \<lparr>fp_sel = Some 2, fp_spike = True, fp_rl = [200, 200, 200, 2000]\<rparr>) calm_draws))"
proof -
  have p: "panel_ok \<lparr>fp_sel = Some 2, fp_spike = True, fp_rl = [200, 200, 200, 2000]\<rparr>"
    by (simp add: panel_ok_def N_SIM_def)
  have d: "sim_draws_ok calm_draws" by (simp add: sim_draws_ok_def calm_draws_def N_SIM_def)
  show ?thesis using demo_session_invariant[OF session_reach.tick[OF session_reach.panel[OF session_reach.start p] d]] by simp
qed

text \<open>
  Deregistering a target in the fault panel leaves the tick of every other target as it was: the
  share of the missing target is dropped, not spread over the rest.
\<close>
theorem deregistered_share_dropped:
  assumes "i < N_SIM" and "j < N_SIM" and "j \<noteq> i"
  shows "target_ticks (apply_panel s \<lparr>fp_sel = Some i, fp_spike = b, fp_rl = rl\<rparr>) rps ds ! j =
    target_ticks (apply_panel s \<lparr>fp_sel = None, fp_spike = b, fp_rl = rl\<rparr>) rps ds ! j"
  using assms by (simp add: target_ticks_nth apply_panel_def)

theorem deregistered_share_dropped_witness:
  "target_ticks (apply_panel sim_start \<lparr>fp_sel = Some 0, fp_spike = False, fp_rl = [1000, 1000, 1000, 1000]\<rparr>) 1800
      (sd_targets calm_draws) ! 1 =
   target_ticks (apply_panel sim_start \<lparr>fp_sel = None, fp_spike = False, fp_rl = [1000, 1000, 1000, 1000]\<rparr>) 1800
      (sd_targets calm_draws) ! 1"
  by (rule deregistered_share_dropped) (simp_all add: N_SIM_def)

text \<open>
  After the warm-up, a tick without a rising load closes one per cent of every target's distance
  to 150 virtual nodes; under pressure it takes three per cent (down to 50) from the targets above
  70 per cent and leaves the others.
\<close>
theorem demo_vnodes_steered:
  assumes "10 < ds_tick s" and "length (ds_vnodes s) = N_SIM" and "i < N_SIM"
  shows "if ds_proactive (step_sim s d)
    then ds_vnodes (step_sim s d) ! i =
      (if tt_load (target_ticks s (sim_traffic (ds_tick s) (ds_spike s)) (sd_targets d) ! i) > 70/100
       then max 50 (97/100 * ds_vnodes s ! i) else ds_vnodes s ! i)
    else 150 - ds_vnodes (step_sim s d) ! i = 99/100 * (150 - ds_vnodes s ! i)"
  using assms by (simp add: step_sim_def Let_def steer_vnodes_def mult.commute algebra_simps)

theorem demo_vnodes_steered_witness:
  "let s = sim_start\<lparr>ds_tick := 11\<rparr>; s' = step_sim s calm_draws in
    if ds_proactive s'
    then ds_vnodes s' ! 0 =
      (if tt_load (target_ticks s (sim_traffic (ds_tick s) (ds_spike s)) (sd_targets calm_draws) ! 0) > 70/100
       then max 50 (97/100 * ds_vnodes s ! 0) else ds_vnodes s ! 0)
    else 150 - ds_vnodes s' ! 0 = 99/100 * (150 - ds_vnodes s ! 0)"
  unfolding Let_def by (rule demo_vnodes_steered) (simp_all add: sim_start_def N_SIM_def)

text \<open>
  A line of the invented request log is an error exactly when its status is 500 or more, reports a
  refused connection exactly when its target is down, and is a warning only for a success that
  took more than 300 ms.
\<close>
theorem demo_log_truthful:
  assumes "ld_status d < 3"
  shows "let l = log_line_of lat err health names d in
    (ll_level l = ERROR \<longleftrightarrow> 500 \<le> ll_status l) \<and>
    (ll_latency l = None \<longleftrightarrow> \<not> health ! ld_target d) \<and>
    (ll_tag l = ''CONN_REFUSED'' \<longleftrightarrow> \<not> health ! ld_target d) \<and>
    (ll_level l = WARN \<longrightarrow> ll_status l = 200 \<and> (\<exists>x > 300. ll_latency l = Some x)) \<and>
    (ll_level l = INFO \<longrightarrow> ll_status l = 200 \<and> (\<exists>x \<le> 300. ll_latency l = Some x))"
proof -
  have "[500, 502, 503::nat] ! ld_status d \<in> {500, 502, 503}"
    using nth_mem[of "ld_status d" "[500, 502, 503::nat]"] assms by (simp add: numeral_3_eq_3)
  then show ?thesis by (auto simp: log_line_of_def Let_def)
qed

theorem demo_log_truthful_witness:
  "let l = log_line_of [40, 50] [0, 1/2] [False, True] [''a'', ''b'']
       \<lparr>ld_target = 1, ld_path = 0, ld_lat = 0, ld_err = 1/4, ld_status = 1\<rparr> in
    ll_level l = ERROR \<and> ll_status l = 502 \<and> ll_tag l \<noteq> ''CONN_REFUSED''"
  using demo_log_truthful[of "\<lparr>ld_target = 1, ld_path = 0, ld_lat = 0, ld_err = 1/4, ld_status = 1\<rparr>"
      "[40, 50]" "[0, 1/2]" "[False, True]" "[''a'', ''b'']"]
  by (simp add: Let_def log_line_of_def)

end
