(* ===== verification/Dashboard_View.thy ===== *)
theory Dashboard_View
  imports Dashboard_Sim Py_Value
begin

text \<open>
  What \<open>dashboard/app.py\<close> shows: the data layer that takes the proxy's metrics file when it is
  fresh and the simulation otherwise, and the numbers and labels each tab derives from it. A
  widget is the value it displays; markup and colours that only follow a label are left out.
\<close>

section \<open>The data layer\<close>

record view_data =
  bu_live :: bool
  bu_N :: nat
  bu_H :: nat
  bu_names :: "string list"
  bu_zones :: "string list"
  bu_lat :: "real list list"
  bu_load :: "real list list"
  bu_err :: "real list list"
  bu_rps :: "real list"
  bu_health :: "bool list"
  bu_cbf :: "bool list"
  bu_vnodes :: "real list"
  bu_rl :: "real list"
  bu_kan_weights :: "real list"
  bu_proactive :: bool
  bu_treq :: "int list"
  bu_sla_pct :: real
  bu_logs :: "log_line list"
  bu_tick :: nat
  bu_proxy_ts :: "real option"

definition live_sla :: "nat list \<Rightarrow> nat list \<Rightarrow> real" where
  "live_sla treq terr = (1 - real (sum_list terr) / real (max 1 (sum_list treq))) * 100"

definition demo_sla :: "int \<Rightarrow> int \<Rightarrow> real" where
  "demo_sla sla_ok sla_tot =
     (if sla_tot > 0 then real_of_int sla_ok / real_of_int sla_tot * 100 else 100)"

definition gen_live_logs :: "real list \<Rightarrow> real list \<Rightarrow> real \<Rightarrow> bool list \<Rightarrow> string list \<Rightarrow> log_draws list \<Rightarrow> log_line list \<Rightarrow> log_line list" where
  "gen_live_logs lat err rps health names draws prev =
     push_logs (map (log_line_of lat err health names) (take (live_log_count rps) draws)) prev"

record dash_session =
  da_sim :: "sim_session option"
  da_live_logs :: "log_line list"

definition live_bundle :: "snapshot \<Rightarrow> log_line list \<Rightarrow> view_data" where
  "live_bundle raw logs =
     \<lparr>bu_live = True, bu_N = sn_n_backends raw, bu_H = length (sn_rps_hist raw),
      bu_names = sn_backend_names raw, bu_zones = sn_backend_zones raw, bu_lat = sn_latency_hist raw,
      bu_load = sn_load_hist raw, bu_err = sn_error_hist raw, bu_rps = sn_rps_hist raw,
      bu_health = sn_health raw, bu_cbf = sn_cbf_active raw, bu_vnodes = sn_vnode_counts raw,
      bu_rl = sn_rate_limits raw, bu_kan_weights = sn_kan_weights raw, bu_proactive = sn_proactive_active raw,
      bu_treq = map int (sn_total_requests raw), bu_sla_pct = live_sla (sn_total_requests raw) (sn_total_errors raw),
      bu_logs = logs, bu_tick = sn_tick raw, bu_proxy_ts = Some (sn_ts raw)\<rparr>"

definition demo_bundle :: "sim_session \<Rightarrow> view_data" where
  "demo_bundle s =
     \<lparr>bu_live = False, bu_N = N_SIM, bu_H = H_SIM, bu_names = SIM_NAMES,
      bu_zones = [''us-east-1a'', ''us-east-1b'', ''us-east-1c'', ''us-east-1a''], bu_lat = ds_lat s,
      bu_load = ds_load s, bu_err = ds_err s, bu_rps = ds_rps s, bu_health = ds_health s, bu_cbf = ds_cbf s,
      bu_vnodes = ds_vnodes s, bu_rl = ds_rl s, bu_kan_weights = ds_wt s, bu_proactive = ds_proactive s,
      bu_treq = ds_treq s, bu_sla_pct = demo_sla (ds_sla_ok s) (ds_sla_tot s), bu_logs = ds_logs s,
      bu_tick = ds_tick s, bu_proxy_ts = None\<rparr>"

definition load_data :: "snapshot option \<Rightarrow> real \<Rightarrow> sim_draws \<Rightarrow> dash_session \<Rightarrow> dash_session \<times> view_data" where
  \<comment> \<open>the file, the clock and the draws of this rerun\<close>
  "load_data file now d st =
     (case read_live_metrics file now of
        Some raw \<Rightarrow>
          let logs = gen_live_logs (map last (sn_latency_hist raw)) (map last (sn_error_hist raw)) (last (sn_rps_hist raw))
                       (sn_health raw) (sn_backend_names raw) (sd_logs d) (da_live_logs st)
          in (st\<lparr>da_live_logs := logs\<rparr>, live_bundle raw logs)
      | None \<Rightarrow>
          let s = step_sim (init_sim (da_sim st)) d
          in (st\<lparr>da_sim := Some s\<rparr>, demo_bundle s))"

section \<open>Indicators\<close>

definition from_end :: "nat \<Rightarrow> 'a list \<Rightarrow> 'a" where
  \<comment> \<open>\<open>xs[-k]\<close>\<close>
  "from_end k xs = xs ! (length xs - k)"

definition healthy_mean :: "nat \<Rightarrow> real list list \<Rightarrow> bool list \<Rightarrow> real" where
  \<comment> \<open>the mean of \<open>rows[i, -k]\<close> over the healthy targets\<close>
  "healthy_mean k rows health = vmean (map (\<lambda>i. from_end k (rows ! i)) (filter (\<lambda>i. health ! i) [0..<length health]))"

definition n_up :: "bool list \<Rightarrow> nat" where
  "n_up health = length (filter id health)"

record indicators =
  in_n_up :: nat
  in_cur_rps :: real
  in_prev_rps :: real
  in_avg_lat :: real
  in_avg_latp :: real
  in_avg_err :: real
  in_avg_errp :: real
  in_cbf_cnt :: nat
  in_total_reqs :: int

definition indicators_of :: "view_data \<Rightarrow> indicators" where
  "indicators_of b =
     (let up = n_up (bu_health b);
          cur = from_end 1 (bu_rps b);
          avg_lat = (if up > 0 then healthy_mean 1 (bu_lat b) (bu_health b) else 0);
          avg_err = (if up > 0 then 100 * healthy_mean 1 (bu_err b) (bu_health b) else 0)
      in \<lparr>in_n_up = up, in_cur_rps = cur, in_prev_rps = (if bu_H b > 6 then from_end 6 (bu_rps b) else cur),
          in_avg_lat = avg_lat,
          in_avg_latp = (if up > 0 \<and> bu_H b > 6 then healthy_mean 6 (bu_lat b) (bu_health b) else avg_lat),
          in_avg_err = avg_err,
          in_avg_errp = (if up > 0 \<and> bu_H b > 6 then 100 * healthy_mean 6 (bu_err b) (bu_health b) else avg_err),
          in_cbf_cnt = length (filter id (bu_cbf b)), in_total_reqs = sum_list (bu_treq b)\<rparr>)"

datatype status = Healthy | Degraded | Critical | Unhealthy

definition overall_status :: "view_data \<Rightarrow> status" where
  "overall_status b =
     (let k = indicators_of b
      in if in_n_up k = bu_N b \<and> in_cbf_cnt k = 0 then Healthy
         else if in_n_up k \<ge> bu_N b - 1 then Degraded
         else Critical)"

definition bar_width :: "real \<Rightarrow> real" where
  "bar_width pct = max 0 (min 100 pct)"

datatype trend = Stable | Up real bool | Down real bool \<comment> \<open>the percentage, and whether it is good news\<close>

definition delta_of :: "real \<Rightarrow> real \<Rightarrow> bool \<Rightarrow> trend" where
  "delta_of cur prev invert =
     (let diff = cur - prev;
          pct = (if \<bar>prev\<bar> > 1/1000 then diff / \<bar>prev\<bar> * 100 else 0)
      in if \<bar>pct\<bar> < 1/2 then Stable
         else if diff > 0 then Up \<bar>pct\<bar> (\<not> invert) else Down \<bar>pct\<bar> invert)"

definition sparkline :: "real list \<Rightarrow> real \<Rightarrow> real \<Rightarrow> (real \<times> real) list" where
  \<comment> \<open>the points of \<open>_sparksvg\<close>, none when there is nothing to draw\<close>
  "sparkline data w h =
     (let d = filter (\<lambda>v. v > 0) data
      in if length d < 2 \<or> np_max d = np_min d then []
         else let mn = np_min d; mx = np_max d
              in map (\<lambda>i. (real i / real (length d - 1) * w, h - (d ! i - mn) / (mx - mn) * h)) [0..<length d])"

section \<open>The tables\<close>

definition target_status :: "view_data \<Rightarrow> nat \<Rightarrow> status" where
  \<comment> \<open>a row of the targets table, and of the health tab\<close>
  "target_status b i =
     (let latv = from_end 1 (bu_lat b ! i);
          ev = from_end 1 (bu_err b ! i) * 100
      in if \<not> bu_health b ! i then Unhealthy
         else if ev > 2 \<or> latv > 400 then Degraded
         else Healthy)"

datatype cbf_label = FIRING | NEAR | WITHIN

definition cbf_label_of :: "view_data \<Rightarrow> nat \<Rightarrow> cbf_label" where
  "cbf_label_of b i =
     (if bu_cbf b ! i then FIRING
      else if from_end 1 (bu_load b ! i) * 100 > 70 then NEAR else WITHIN)"

definition gauge_value :: "view_data \<Rightarrow> nat \<Rightarrow> real \<times> real" where
  \<comment> \<open>the number of a gauge and the reference of its delta\<close>
  "gauge_value b i =
     (let lv = (if bu_health b ! i then from_end 1 (bu_load b ! i) * 100 else 0)
      in (lv, if bu_tick b > 10 then from_end 10 (bu_load b ! i) * 100 else lv))"

section \<open>Routing policy tab\<close>

definition weight_history :: "view_data \<Rightarrow> nat \<Rightarrow> real list" where
  \<comment> \<open>column \<open>t\<close> of the weight chart\<close>
  "weight_history b t =
     (let inv2 = inverse_latency (map (\<lambda>row. row ! t) (bu_lat b))
      in if sum_list inv2 > 0 then map (\<lambda>x. x / sum_list inv2) inv2
         else replicate (bu_N b) (1 / real (bu_N b)))"

definition displayed_weight :: "view_data \<Rightarrow> nat \<Rightarrow> real" where
  \<comment> \<open>the value of a row of the equation table\<close>
  "displayed_weight b i =
     (let cpu_c = from_end 1 (bu_load b ! i);
          lat_c = from_end 1 (bu_lat b ! i) / 1000;
          err_c = from_end 1 (bu_err b ! i)
      in max 0 (1 - 42/100 * cpu_c - 31/100 * lat_c - 10 * err_c) * (if bu_health b ! i then 1 else 0))"

definition margin :: "view_data \<Rightarrow> nat \<Rightarrow> real" where
  "margin b i = 80/100 - from_end 1 (bu_load b ! i)"

definition healthy_shares :: "view_data \<Rightarrow> real list" where
  \<comment> \<open>\<open>wh3\<close>\<close>
  "healthy_shares b =
     (let wh3 = map2 (*) (shares (bu_vnodes b)) (map flag (bu_health b))
      in if sum_list wh3 > 0 then map (\<lambda>x. x / sum_list wh3) wh3 else wh3)"

definition balance_factor :: "view_data \<Rightarrow> real" where
  "balance_factor b =
     (let nh = max 1 (n_up (bu_health b))
      in np_max (healthy_shares b) / (1 / real nh))"

section \<open>Rate control tab\<close>

datatype rate_label = Throttling | Holding | Expanding

definition rate_card :: "view_data \<Rightarrow> real \<Rightarrow> nat \<Rightarrow> real \<times> real \<times> rate_label" where
  \<comment> \<open>arrivals, utilisation of the cap, and the label\<close>
  "rate_card b cur_rps i =
     (let arr = shares (bu_vnodes b) ! i * cur_rps;
          util = (if bu_health b ! i then min 1 (arr / bu_rl b ! i) else 0);
          lv3 = from_end 1 (bu_load b ! i)
      in (arr, util, if lv3 > 80/100 then Throttling else if lv3 > 65/100 then Holding else Expanding))"

definition bucket_utilisation :: "view_data \<Rightarrow> nat \<Rightarrow> real list" where
  "bucket_utilisation b i =
     map (\<lambda>r. min 1 (shares (bu_vnodes b) ! i * r / bu_rl b ! i) * 100) (bu_rps b)"

section \<open>Health tab\<close>

definition percentile :: "real list \<Rightarrow> real \<Rightarrow> real" where
  \<comment> \<open>\<open>np.percentile\<close>: linear interpolation between the closest ranks\<close>
  "percentile xs q =
     (let s = sort xs;
          pos = q / 100 * real (length xs - 1);
          k = nat \<lfloor>pos\<rfloor>
      in s ! k + (pos - real k) * (s ! min (k + 1) (length xs - 1) - s ! k))"

definition latency_percentiles :: "view_data \<Rightarrow> nat \<Rightarrow> real \<times> real \<times> real" where
  "latency_percentiles b i =
     (if bu_health b ! i
      then (let w = last_n 20 (bu_lat b ! i) in (percentile w 50, percentile w 95, percentile w 99))
      else (0, 0, 0))"

record probe_row =
  pw_ago :: nat
  pw_ok :: bool
  pw_rtt :: "real option" \<comment> \<open>\<open>None\<close> prints as a timeout\<close>

definition probe_rows :: "view_data \<Rightarrow> nat \<Rightarrow> probe_row list" where
  "probe_rows b i =
     map (\<lambda>j. \<lparr>pw_ago = (j + 1) * 2,
               pw_ok = (bu_health b ! i \<and> from_end (1 + j) (bu_err b ! i) < 8/100),
               pw_rtt = (if bu_health b ! i then Some (from_end (1 + j) (bu_lat b ! i)) else None)\<rparr>) [0..<5]"

section \<open>The log panel\<close>

datatype colour = Green | Amber | Red | Muted

definition status_colour :: "nat \<Rightarrow> colour" where
  "status_colour code =
     (if code div 100 = 2 then Green else if code div 100 = 4 then Amber
      else if code div 100 = 5 then Red else Muted)"

definition log_rows :: "log_line list \<Rightarrow> nat \<Rightarrow> (log_line \<times> colour) list" where
  "log_rows logs n = map (\<lambda>l. (l, status_colour (ll_status l))) (take n logs)"

section \<open>The configuration editor\<close>

datatype save_message = Saved | Could_not_save

definition config_editor :: "string option \<Rightarrow> (string \<Rightarrow> string) \<Rightarrow> bool \<Rightarrow> save_outcome \<Rightarrow> string option \<times> save_message option" where
  \<comment> \<open>the file, the edit made in the text area, whether the button was pressed and how writing goes;
      opening for writing has already emptied the file when the write itself fails\<close>
  "config_editor file edit pressed saving =
     (let text = (case file of Some s \<Rightarrow> s | None \<Rightarrow> ''# omega-lb.yaml not found in repo root'');
          edited = edit text
      in if \<not> pressed then (file, None)
         else case saving of
                Writes \<Rightarrow> (Some edited, Some Saved)
              | Open_fails \<Rightarrow> (file, Some Could_not_save)
              | Write_fails \<Rightarrow> (Some [], Some Could_not_save))"

section \<open>Interpolated percentiles\<close>

lemma percentile_between:
  fixes a c f :: real
  assumes "a \<le> c" and "0 \<le> f" and "f \<le> 1"
  shows "a \<le> a + f * (c - a) \<and> a + f * (c - a) \<le> c"
  using assms mult_left_le_one_le[of "c - a" f] by (simp add: mult_nonneg_nonneg)

lemma percentile_mono:
  assumes "xs \<noteq> []" and "0 \<le> q" and "q \<le> r" and "r \<le> 100"
  shows "percentile xs q \<le> percentile xs r"
proof -
  define s m where "s = sort xs" and "m = length xs - 1"
  define pos where "pos = (\<lambda>q. q / 100 * real m)"
  define k where "k = (\<lambda>q. nat \<lfloor>pos q\<rfloor>)"
  have val: "percentile xs p = s ! k p + (pos p - real (k p)) * (s ! min (k p + 1) m - s ! k p)" for p
    by (simp add: percentile_def Let_def s_def m_def pos_def k_def)
  have len: "length s = m + 1" using assms(1) by (cases xs) (simp_all add: s_def m_def)
  have mono: "s ! i \<le> s ! j" if "i \<le> j" "j \<le> m" for i j
    using that len by (simp add: s_def sorted_nth_mono)
  have pos0: "0 \<le> pos p" "pos p \<le> real m" if "0 \<le> p" "p \<le> 100" for p
    using that mult_right_mono[of "p / 100" 1 "real m"] by (simp_all add: pos_def)
  have kf: "0 \<le> pos p - real (k p)" "pos p - real (k p) \<le> 1" "k p \<le> m" if "0 \<le> p" "p \<le> 100" for p
    using pos0[OF that] by (simp_all add: k_def) linarith+
  have bound: "s ! k p \<le> percentile xs p \<and> percentile xs p \<le> s ! min (k p + 1) m" if "0 \<le> p" "p \<le> 100" for p
    unfolding val using kf[OF that] mono by (intro percentile_between) auto
  have le: "pos q \<le> pos r" using assms(3) by (simp add: pos_def mult_right_mono divide_right_mono)
  show ?thesis
  proof (cases "k q = k r")
    case True
    have "0 \<le> s ! min (k r + 1) m - s ! k r" using mono[of "k r" "min (k r + 1) m"] kf(3)[of r] assms by simp
    then show ?thesis unfolding val True using le by (simp add: mult_right_mono)
  next
    case False
    moreover have "k q \<le> k r" using le unfolding k_def by (intro nat_mono floor_mono)
    ultimately have "k q + 1 \<le> k r" by simp
    then have "s ! min (k q + 1) m \<le> s ! k r" using mono[of "k q + 1" "k r"] kf(3)[of r] assms by simp
    then show ?thesis using bound[of q] bound[of r] assms by simp
  qed
qed

lemma percentile_range:
  assumes "xs \<noteq> []" and "0 \<le> q" and "q \<le> 100" and "\<forall>x \<in> set xs. lo \<le> x \<and> x \<le> hi"
  shows "lo \<le> percentile xs q \<and> percentile xs q \<le> hi"
proof -
  define s m where "s = sort xs" and "m = length xs - 1"
  have len: "length s = m + 1" "\<forall>x \<in> set s. lo \<le> x \<and> x \<le> hi"
    using assms(1,4) by (cases xs, simp_all add: s_def m_def)
  have "percentile xs 0 = s ! 0" by (simp add: percentile_def Let_def s_def)
  moreover have "percentile xs 100 = s ! m" by (simp add: percentile_def Let_def s_def m_def)
  moreover have "s ! 0 \<in> set s" "s ! m \<in> set s" using len(1) by simp_all
  ultimately show ?thesis
    using percentile_mono[OF assms(1), of 0 q] percentile_mono[OF assms(1), of q 100] assms(2,3) len(2)
    by fastforce
qed

section \<open>Shares and weights\<close>

lemma shares_nth: "i < length v \<Longrightarrow> shares v ! i = v ! i / sum_list v"
  by (simp add: shares_def)

lemma length_shares [simp]: "length (shares v) = length v"
  by (simp add: shares_def)

lemma sum_flags_n_up: "sum_list (map flag health) = real (n_up health)"
  by (simp add: n_up_def sum_flags)

lemma inverse_latency_nonneg: "\<forall>x \<in> set (inverse_latency lat). 0 \<le> x"
  by (auto simp: inverse_latency_def)

lemma sum_masked_le:
  "length w = length health \<Longrightarrow> \<forall>i < length w. w ! i \<le> (if health ! i then c else 0 :: real) \<Longrightarrow>
    sum_list w \<le> c * real (n_up health) \<and>
    (sum_list w = c * real (n_up health) \<longrightarrow> (\<forall>i < length w. w ! i = (if health ! i then c else 0)))"
proof (induction w health rule: list_induct2)
  case (Cons x w b health)
  have tail: "\<forall>i < length w. w ! i \<le> (if health ! i then c else 0)" using Cons.prems by fastforce
  have hd: "x \<le> (if b then c else 0)" using Cons.prems[rule_format, of 0] by simp
  show ?case using Cons.IH[OF tail] hd by (auto simp: n_up_def algebra_simps nth_Cons split: nat.split)
qed (simp add: n_up_def)

lemma sum_masked_eq:
  "length w = length health \<Longrightarrow> \<forall>i < length w. w ! i = (if health ! i then c else 0 :: real) \<Longrightarrow>
    sum_list w = c * real (n_up health)"
proof (induction w health rule: list_induct2)
  case (Cons x w b health)
  have "\<forall>i < length w. w ! i = (if health ! i then c else 0)" using Cons.prems by fastforce
  then show ?case using Cons.IH Cons.prems[rule_format, of 0] by (auto simp: n_up_def algebra_simps)
qed (simp add: n_up_def)

lemma sum_list_pos: "v \<noteq> [] \<Longrightarrow> \<forall>x \<in> set v. 0 < x \<Longrightarrow> 0 < sum_list (v :: real list)"
  using sum_list_nonneg_list[of "tl v"] by (cases v) (auto simp: less_imp_le intro: add_pos_nonneg)

lemma healthy_shares_dist:
  assumes "length (bu_vnodes b) = length (bu_health b)" and "\<forall>v \<in> set (bu_vnodes b). 0 < v"
    and "True \<in> set (bu_health b)"
  defines "w \<equiv> map2 (*) (shares (bu_vnodes b)) (map flag (bu_health b))"
  shows "0 < sum_list w" "healthy_shares b = map (\<lambda>x. x / sum_list w) w" "is_dist (healthy_shares b)"
    "masked (bu_health b) (healthy_shares b)"
proof -
  define v where "v = bu_vnodes b"
  have ne: "v \<noteq> []" using assms(1,3) by (auto simp: v_def)
  have tot: "0 < sum_list v"
    using sum_list_pos[OF ne] assms(2) by (simp add: v_def)
  have pos: "0 < shares v ! i" if "i < length v" for i
    using that tot assms(2) by (simp add: shares_nth v_def)
  then have nn: "\<forall>x \<in> set (shares v). 0 \<le> x" by (metis in_set_conv_nth length_shares less_imp_le)
  show w: "0 < sum_list w" unfolding w_def v_def[symmetric]
    by (rule sum_masked_pos) (use assms(1,3) pos nn in \<open>simp_all add: v_def\<close>)
  then show eq: "healthy_shares b = map (\<lambda>x. x / sum_list w) w"
    by (simp add: healthy_shares_def w_def)
  have m: "masked (bu_health b) w"
    by (rule masked_product[of "shares v"]) (use assms(1) nn in \<open>simp_all add: w_def v_def\<close>)
  show "is_dist (healthy_shares b)"
    unfolding eq by (rule is_dist_normalise[OF masked_nonneg[OF m] w])
  show "masked (bu_health b) (healthy_shares b)"
    unfolding eq using masked_divide[OF m] w by simp
qed

lemma healthy_shares_nth:
  assumes "length (bu_vnodes b) = length (bu_health b)" and "\<forall>v \<in> set (bu_vnodes b). 0 < v"
    and "True \<in> set (bu_health b)"
  obtains S where "S \<noteq> 0"
    and "\<forall>i < length (healthy_shares b). bu_health b ! i \<longrightarrow> healthy_shares b ! i = bu_vnodes b ! i / S"
proof
  define raw where "raw = map2 (*) (shares (bu_vnodes b)) (map flag (bu_health b))"
  note facts = healthy_shares_dist[OF assms, folded raw_def]
  have "bu_vnodes b \<noteq> []" using assms(1,3) by auto
  then show "sum_list (bu_vnodes b) * sum_list raw \<noteq> 0" using facts(1) sum_list_pos[OF _ assms(2)] by simp
  show "\<forall>i < length (healthy_shares b). bu_health b ! i \<longrightarrow>
      healthy_shares b ! i = bu_vnodes b ! i / (sum_list (bu_vnodes b) * sum_list raw)"
    unfolding facts(2) using assms(1) by (simp add: raw_def shares_nth)
qed

lemma balance_factor_max:
  "True \<in> set (bu_health b) \<Longrightarrow> balance_factor b = np_max (healthy_shares b) * real (n_up (bu_health b))"
  using sum_flags_ge_1[of "bu_health b"] by (simp add: balance_factor_def Let_def max_def sum_flags_n_up)

lemma healthy_mean_range:
  assumes "True \<in> set health" and "\<forall>i < length health. lo \<le> from_end k (rows ! i) \<and> from_end k (rows ! i) \<le> hi"
  shows "lo \<le> healthy_mean k rows health \<and> healthy_mean k rows health \<le> hi"
proof -
  obtain j where "j < length health" "health ! j" using assms(1) by (metis in_set_conv_nth)
  then have "filter (\<lambda>i. health ! i) [0..<length health] \<noteq> []" by (auto simp: filter_empty_conv)
  then show ?thesis using assms(2) unfolding healthy_mean_def by (intro vmean_bounds) auto
qed

lemma percent_range: "0 \<le> a \<Longrightarrow> a \<le> c \<Longrightarrow> 0 < c \<Longrightarrow> 0 \<le> a / c * 100 \<and> a / c * 100 \<le> (100 :: real)"
  by (simp add: field_simps)

lemma live_sla_range:
  assumes "length treq = length terr" and "\<forall>i < length treq. terr ! i \<le> treq ! i"
  shows "0 \<le> live_sla treq terr \<and> live_sla treq terr \<le> 100"
proof -
  have "sum_list terr \<le> sum_list treq" using assms
    by (induction treq terr rule: list_induct2) (fastforce+)
  then show ?thesis
    using percent_range[of "real (sum_list terr)" "real (max 1 (sum_list treq))"]
    by (simp add: live_sla_def algebra_simps)
qed

lemma demo_sla_range: "0 \<le> a \<Longrightarrow> a \<le> c \<Longrightarrow> 0 \<le> demo_sla a c \<and> demo_sla a c \<le> 100"
  using percent_range[of "real_of_int a" "real_of_int c"] by (simp add: demo_sla_def)

lemma avg_err_range:
  assumes "\<forall>i < length (bu_health b). 0 \<le> from_end 1 (bu_err b ! i) \<and> from_end 1 (bu_err b ! i) \<le> 1"
  shows "0 \<le> in_avg_err (indicators_of b) \<and> in_avg_err (indicators_of b) \<le> 100"
proof (cases "True \<in> set (bu_health b)")
  case True
  then show ?thesis using healthy_mean_range[OF True assms] by (simp add: indicators_of_def Let_def)
next
  case False
  then have "n_up (bu_health b) = 0" by (auto simp: n_up_def filter_empty_conv)
  then show ?thesis by (simp add: indicators_of_def Let_def)
qed

lemma last_unit:
  assumes "rows_of (\<lambda>x. 0 \<le> x \<and> x \<le> c) n 120 rows" and "i < n" and "c \<le> 1"
  shows "0 \<le> from_end 1 (rows ! i) \<and> from_end 1 (rows ! i) \<le> (1 :: real)"
proof -
  have "length (rows ! i) = 120" using assms(1,2) by (simp add: rows_of_def)
  then show ?thesis using rows_of_nth[OF assms(1,2), of 119] assms(3) by (simp add: from_end_def)
qed

definition view_in_range :: "view_data \<Rightarrow> bool" where
  "view_in_range b \<longleftrightarrow> 0 \<le> bu_sla_pct b \<and> bu_sla_pct b \<le> 100 \<and>
     0 \<le> in_avg_err (indicators_of b) \<and> in_avg_err (indicators_of b) \<le> 100 \<and>
     in_n_up (indicators_of b) \<le> bu_N b"

lemma n_up_le: "n_up health \<le> length health"
  by (simp add: n_up_def)

lemma in_n_up_eq: "in_n_up (indicators_of b) = n_up (bu_health b)"
  by (simp add: indicators_of_def Let_def)

lemma live_view_range:
  assumes "metrics_ok m"
  shows "view_in_range (live_bundle (snapshot_of m ts) logs)"
proof -
  define b where "b = live_bundle (snapshot_of m ts) logs"
  have sel: "bu_health b = ms_health m" "bu_err b = ms_error_hist m" "bu_N b = ms_n m"
    "bu_sla_pct b = live_sla (ms_total_req m) (ms_total_err m)"
    by (simp_all add: b_def live_bundle_def snapshot_of_def)
  have "0 \<le> bu_sla_pct b \<and> bu_sla_pct b \<le> 100"
    unfolding sel using assms by (intro live_sla_range) (simp_all add: metrics_ok_def)
  moreover have "0 \<le> in_avg_err (indicators_of b) \<and> in_avg_err (indicators_of b) \<le> 100"
    using assms last_unit[of 1 "ms_n m" "ms_error_hist m"]
    by (intro avg_err_range) (simp add: sel metrics_ok_def unit_rows_eq HISTORY_LEN_def)
  ultimately show ?thesis
    using assms n_up_le[of "ms_health m"] unfolding b_def[symmetric]
    by (simp add: view_in_range_def in_n_up_eq sel metrics_ok_def)
qed

lemma demo_view_range:
  assumes "session_ok s"
  shows "view_in_range (demo_bundle s)"
proof -
  have "0 \<le> in_avg_err (indicators_of (demo_bundle s)) \<and> in_avg_err (indicators_of (demo_bundle s)) \<le> 100"
    using assms session_okD(1)[OF assms] last_unit[of "15/10000" N_SIM "ds_err s"]
    by (intro avg_err_range) (simp add: demo_bundle_def session_ok_def H_SIM_def)
  moreover have "0 \<le> demo_sla (ds_sla_ok s) (ds_sla_tot s) \<and> demo_sla (ds_sla_ok s) (ds_sla_tot s) \<le> 100"
    using assms by (intro demo_sla_range) (simp_all add: session_ok_def)
  ultimately show ?thesis
    using n_up_le[of "ds_health s"] session_okD(1)[OF assms]
    by (simp add: view_in_range_def in_n_up_eq demo_bundle_def)
qed

section \<open>Properties\<close>

text \<open>
  The balance factor of the routing tab lies between 1 and the number of healthy targets, and is 1
  exactly when all healthy targets have the same number of virtual nodes.
\<close>
theorem balance_factor_range:
  assumes "length (bu_vnodes b) = length (bu_health b)" and "\<forall>v \<in> set (bu_vnodes b). 0 < v"
    and "True \<in> set (bu_health b)"
  shows "1 \<le> balance_factor b \<and> balance_factor b \<le> real (n_up (bu_health b)) \<and>
    (balance_factor b = 1 \<longleftrightarrow>
      (\<exists>c. \<forall>i < length (bu_vnodes b). bu_health b ! i \<longrightarrow> bu_vnodes b ! i = c))"
proof -
  define w where "w = healthy_shares b"
  define n where "n = real (n_up (bu_health b))"
  note facts = healthy_shares_dist[OF assms, folded w_def]
  obtain S where S: "S \<noteq> 0" and wi: "\<forall>i < length w. bu_health b ! i \<longrightarrow> w ! i = bu_vnodes b ! i / S"
    using healthy_shares_nth[OF assms] unfolding w_def by blast
  have len: "length w = length (bu_health b)" using facts(2) assms(1) by simp
  have ne: "w \<noteq> []" using len(1) assms(3) by auto
  have n1: "1 \<le> n" using sum_flags_ge_1[OF assms(3)] by (simp add: n_def sum_flags_n_up)
  have bf: "balance_factor b = np_max w * n" using balance_factor_max[OF assms(3)] by (simp add: w_def n_def)
  have mx: "0 \<le> np_max w" "np_max w \<le> 1"
    using np_max_in[OF ne] is_dist_le_one[OF facts(3)] by auto
  have le: "\<forall>i < length w. w ! i \<le> (if bu_health b ! i then np_max w else 0)"
    using facts(4) np_max_ge len(1) by (simp add: masked_def)
  have sum1: "sum_list w = 1" using facts(3) by (simp add: is_dist_def)
  note cap = sum_masked_le[OF len(1) le, folded n_def, unfolded sum1]
  have "np_max w * n = 1 \<longleftrightarrow> (\<exists>c. \<forall>i < length (bu_vnodes b). bu_health b ! i \<longrightarrow> bu_vnodes b ! i = c)"
  proof
    assume "np_max w * n = 1"
    then have "\<forall>i < length w. w ! i = (if bu_health b ! i then np_max w else 0)" using cap by simp
    then have "\<forall>i < length w. bu_health b ! i \<longrightarrow> bu_vnodes b ! i = np_max w * S"
      using wi S by (auto simp: field_simps)
    then show "\<exists>c. \<forall>i < length (bu_vnodes b). bu_health b ! i \<longrightarrow> bu_vnodes b ! i = c"
      using len(1) assms(1) by auto
  next
    assume "\<exists>c. \<forall>i < length (bu_vnodes b). bu_health b ! i \<longrightarrow> bu_vnodes b ! i = c"
    then obtain c where "\<forall>i < length (bu_vnodes b). bu_health b ! i \<longrightarrow> bu_vnodes b ! i = c" by blast
    then have c: "\<forall>i < length w. bu_health b ! i \<longrightarrow> w ! i = c / S" using wi len assms(1) by simp
    then have all: "\<forall>i < length w. w ! i = (if bu_health b ! i then c / S else 0)"
      using facts(4) len by (simp add: masked_def)
    have eq: "c / S * n = 1" using sum_masked_eq[OF len all] sum1 unfolding n_def by linarith
    then have "0 < c / S" using n1 by (smt (verit) mult_nonpos_nonneg)
    moreover obtain k where "k < length w" "np_max w = w ! k" using np_max_in[OF ne] by (metis in_set_conv_nth)
    ultimately have "np_max w \<le> c / S" using all by simp
    then have "np_max w * n \<le> c / S * n" using n1 by (intro mult_right_mono) simp_all
    then show "np_max w * n = 1" using cap eq by linarith
  qed
  then show ?thesis using cap mx n1 mult_right_mono[of "np_max w" 1 n] by (simp add: bf n_def)
qed

theorem balance_factor_range_witness:
  "let b = demo_bundle (sim_start\<lparr>ds_health := [True, False, True, True]\<rparr>) in
    balance_factor b = 1"
proof -
  define b where "b = demo_bundle (sim_start\<lparr>ds_health := [True, False, True, True]\<rparr>)"
  have b: "bu_vnodes b = [150, 150, 150, 150]" "bu_health b = [True, False, True, True]"
    by (simp_all add: b_def demo_bundle_def sim_start_def N_SIM_def numeral_eq_Suc)
  have "\<exists>c. \<forall>i < length (bu_vnodes b). bu_health b ! i \<longrightarrow> bu_vnodes b ! i = c"
    by (rule exI[of _ 150]) (auto simp: b nth_Cons split: nat.splits)
  then show ?thesis using balance_factor_range[of b] unfolding b_def[symmetric] Let_def by (auto simp: b)
qed

text \<open>
  The weight a row of the equation table displays is the raw score of the symbolic policy for the
  last column of the histories.
\<close>
theorem displayed_weight_is_symbolic:
  assumes "i < length (bu_load b)" and "length (bu_lat b) = length (bu_load b)"
    and "length (bu_err b) = length (bu_load b)" and "bu_load b ! i \<noteq> []" and "bu_lat b ! i \<noteq> []"
    and "bu_err b ! i \<noteq> []"
  shows "displayed_weight b i =
    equation_raw (kan_new session) (map last (bu_load b)) (map last (bu_lat b)) (map last (bu_err b)) (bu_health b) ! i"
  using assms by (simp add: displayed_weight_def equation_raw_def kan_new_def from_end_def last_conv_nth flag_def Let_def)

theorem displayed_weight_is_symbolic_witness:
  "displayed_weight (demo_bundle sim_start) 2 =
    equation_raw (kan_new None) (map last (ds_load sim_start)) (map last (ds_lat sim_start))
      (map last (ds_err sim_start)) (ds_health sim_start) ! 2"
  using displayed_weight_is_symbolic[of 2 "demo_bundle sim_start" None]
  by (simp add: demo_bundle_def sim_start_def N_SIM_def H_SIM_def)

text \<open>
  The latency percentiles of the health tab are ordered and lie within the window they are taken
  from.
\<close>
theorem percentiles_ordered:
  assumes "bu_lat b ! i \<noteq> []" and "latency_percentiles b i = (p50, p95, p99)"
    and "\<forall>x \<in> set (bu_lat b ! i). 0 \<le> x \<and> x \<le> hi" and "0 \<le> hi"
  shows "0 \<le> p50 \<and> p50 \<le> p95 \<and> p95 \<le> p99 \<and> p99 \<le> hi"
proof -
  define w where "w = last_n 20 (bu_lat b ! i)"
  have w: "w \<noteq> []" using assms(1) by (cases "bu_lat b ! i") (simp_all add: w_def last_n_def)
  have range: "\<forall>x \<in> set w. 0 \<le> x \<and> x \<le> hi"
    using assms(3) set_last_n[of 20 "bu_lat b ! i"] by (auto simp: w_def)
  show ?thesis
    using assms(2,4) percentile_mono[OF w, of 50 95] percentile_mono[OF w, of 95 99]
      percentile_range[OF w _ _ range, of 50] percentile_range[OF w _ _ range, of 99]
    by (auto simp: latency_percentiles_def w_def[symmetric] Let_def split: if_splits)
qed

theorem percentiles_ordered_witness:
  "\<exists>p50 p95 p99. latency_percentiles (demo_bundle (sim_start\<lparr>ds_lat := [[3, 1, 2, 9]]\<rparr>)) 0 = (p50, p95, p99) \<and>
     0 \<le> p50 \<and> p50 \<le> p95 \<and> p95 \<le> p99 \<and> p99 \<le> 9"
proof -
  define b where "b = demo_bundle (sim_start\<lparr>ds_lat := [[3, 1, 2, 9]]\<rparr>)"
  obtain p50 p95 p99 where eq: "latency_percentiles b 0 = (p50, p95, p99)" using prod_cases3 by blast
  have "bu_lat b ! 0 = [3, 1, 2, 9]" by (simp add: b_def demo_bundle_def)
  then show ?thesis using percentiles_ordered[OF _ eq, of 9] eq unfolding b_def[symmetric] by auto
qed

text \<open>A sparkline stays inside its box.\<close>
theorem sparkline_in_box:
  assumes "(x, y) \<in> set (sparkline data w h)" and "0 \<le> w" and "0 \<le> h"
  shows "0 \<le> x \<and> x \<le> w \<and> 0 \<le> y \<and> y \<le> h"
proof -
  define d where "d = filter (\<lambda>v. v > 0) data"
  have l: "2 \<le> length d" "np_max d \<noteq> np_min d"
    using assms(1) by (auto simp: sparkline_def d_def Let_def not_less split: if_splits)
  then obtain i where i: "i < length d" "x = real i / real (length d - 1) * w"
    "y = h - (d ! i - np_min d) / (np_max d - np_min d) * h"
    using assms(1) by (auto simp: sparkline_def d_def[symmetric] Let_def)
  have mem: "np_min d \<le> d ! i" "d ! i \<le> np_max d" using i(1) np_min_le np_max_ge by simp_all
  then have "0 < np_max d - np_min d" using l(2) by linarith
  then have f: "0 \<le> (d ! i - np_min d) / (np_max d - np_min d)" "(d ! i - np_min d) / (np_max d - np_min d) \<le> 1"
    using mem by simp_all
  have g: "0 \<le> real i / real (length d - 1)" "real i / real (length d - 1) \<le> 1" using i(1) l(1) by simp_all
  show ?thesis unfolding i(2,3)
    using mult_left_le_one_le[OF assms(2) g] mult_left_le_one_le[OF assms(3) f] mult_nonneg_nonneg[OF g(1) assms(2)]
      mult_nonneg_nonneg[OF f(1) assms(3)] by simp
qed

theorem sparkline_in_box_witness:
  "(0, 20) \<in> set (sparkline [0, 1, 3] 70 20) \<and> (0::real) \<le> 20 \<and> (20::real) \<le> 20"
proof -
  have m: "(0, 20) \<in> set (sparkline [0, 1, 3] 70 20)"
    by (simp add: sparkline_def np_max_def np_min_def upt_rec)
  show ?thesis using m sparkline_in_box[OF m] by simp
qed

text \<open>
  The data layer shows the proxy while its file is at most five seconds old, with every indicator
  in range whatever the proxy has recorded, and the simulation otherwise; either way the state of
  the other source is left alone.
\<close>
theorem data_layer_view:
  assumes "metrics_ok m" and "\<forall>s. da_sim st = Some s \<longrightarrow> session_reach s" and "sim_draws_ok d"
    and "load_data (Some (snapshot_of m ts)) now d st = (st', b)"
  shows "bu_live b = (now - ts \<le> 5) \<and> 0 \<le> bu_sla_pct b \<and> bu_sla_pct b \<le> 100 \<and>
    0 \<le> in_avg_err (indicators_of b) \<and> in_avg_err (indicators_of b) \<le> 100 \<and>
    in_n_up (indicators_of b) \<le> bu_N b \<and>
    (if bu_live b then da_sim st' = da_sim st \<and> bu_health b = ms_health m
     else (\<exists>s. da_sim st' = Some s \<and> session_reach s \<and> bu_health b = ds_health s) \<and> da_live_logs st' = da_live_logs st)"
proof (cases "now - ts \<le> 5")
  case True
  then obtain logs where b: "b = live_bundle (snapshot_of m ts) logs" "da_sim st' = da_sim st"
    using assms(4) by (auto simp: load_data_def read_live_metrics_def snapshot_of_def Let_def)
  have "view_in_range b" unfolding b by (rule live_view_range[OF assms(1)])
  moreover have "bu_live b" "bu_health b = ms_health m" unfolding b by (simp_all add: live_bundle_def snapshot_of_def)
  ultimately show ?thesis using True b(2) by (simp add: view_in_range_def)
next
  case False
  define s where "s = step_sim (init_sim (da_sim st)) d"
  have reach: "session_reach s" unfolding s_def using assms(2,3)
    by (cases "da_sim st") (auto simp: init_sim_def intro: session_reach.intros)
  have b: "b = demo_bundle s" "st' = st\<lparr>da_sim := Some s\<rparr>"
    using assms(4) False by (auto simp: load_data_def read_live_metrics_def snapshot_of_def s_def Let_def)
  have "view_in_range b" unfolding b by (rule demo_view_range[OF session_reach_ok[OF reach]])
  moreover have "\<not> bu_live b" "bu_health b = ds_health s" unfolding b by (simp_all add: demo_bundle_def)
  ultimately show ?thesis using False reach b(2) by (simp add: view_in_range_def)
qed

theorem data_layer_view_witness:
  "bu_live (snd (load_data (Some (snapshot_of (metrics_init 2 None None) 100)) 103 calm_draws \<lparr>da_sim = None, da_live_logs = []\<rparr>)) \<and>
   \<not> bu_live (snd (load_data (Some (snapshot_of (metrics_init 2 None None) 100)) 106 calm_draws \<lparr>da_sim = None, da_live_logs = []\<rparr>))"
proof -
  have d: "sim_draws_ok calm_draws" by (simp add: sim_draws_ok_def calm_draws_def N_SIM_def)
  show ?thesis
    using data_layer_view[OF metrics_init_ok[of 2 None None] _ d prod.collapse[symmetric], of "\<lparr>da_sim = None, da_live_logs = []\<rparr>" 100 103]
      data_layer_view[OF metrics_init_ok[of 2 None None] _ d prod.collapse[symmetric], of "\<lparr>da_sim = None, da_live_logs = []\<rparr>" 100 106]
    by simp
qed

text \<open>Every column of the weight chart is a probability vector.\<close>
theorem weight_history_dist:
  assumes "length (bu_lat b) = bu_N b" and "0 < bu_N b"
  shows "is_dist (weight_history b t) \<and> length (weight_history b t) = bu_N b"
proof -
  define inv2 where "inv2 = inverse_latency (map (\<lambda>row. row ! t) (bu_lat b))"
  have "\<forall>x \<in> set inv2. 0 \<le> x" unfolding inv2_def by (rule inverse_latency_nonneg)
  moreover have "length inv2 = bu_N b" using assms(1) by (simp add: inv2_def inverse_latency_def)
  ultimately show ?thesis
    using is_dist_normalise[of inv2] is_dist_uniform[OF assms(2)]
    by (simp add: weight_history_def inv2_def[symmetric] Let_def)
qed

theorem weight_history_dist_witness:
  "is_dist (weight_history (demo_bundle sim_start) 5)"
  using weight_history_dist[of "demo_bundle sim_start" 5] by (simp add: demo_bundle_def sim_start_def N_SIM_def)

end
