(* ===== verification/Observability.thy ===== *)
theory Observability
  imports Dashboard_View
begin

text \<open>
  The dashboard's export of metrics and traces, \<open>dashboard/observability.py\<close>: a module-level state
  that the first call of any function initialises. What the environment answers (whether the
  packages are there, whether the metrics server starts, ...) is an argument; a started server and
  a created tracer provider are counted.
\<close>

section \<open>State\<close>

record gauges =
  ga_requests_per_sec :: real
  ga_avg_latency_ms :: real
  ga_error_rate_pct :: real
  ga_healthy_targets :: real
  ga_total_targets :: real
  ga_cbf_count :: real
  ga_proactive_active :: real
  ga_sla_pct :: real

record obs_state =
  ob_initialized :: bool
  ob_metrics_available :: bool
  ob_metrics :: "gauges option"
  ob_metrics_port :: "int option"
  ob_tracing_available :: bool
  ob_otel_endpoint :: "string option"
  ob_provider :: bool
  ob_tracer :: bool
  ob_servers :: nat \<comment> \<open>metrics servers started so far\<close>
  ob_providers :: nat \<comment> \<open>tracer providers installed so far\<close>
  ob_shutdowns :: nat \<comment> \<open>calls of \<open>provider.shutdown\<close> so far\<close>

definition obs_fresh :: obs_state where
  "obs_fresh =
     \<lparr>ob_initialized = False, ob_metrics_available = False, ob_metrics = None, ob_metrics_port = None,
      ob_tracing_available = False, ob_otel_endpoint = None, ob_provider = False, ob_tracer = False,
      ob_servers = 0, ob_providers = 0, ob_shutdowns = 0\<rparr>"

record obs_env =
  oe_prometheus :: bool \<comment> \<open>the client library can be imported\<close>
  oe_port :: "string option" \<comment> \<open>\<open>OMEGALB_METRICS_PORT\<close>\<close>
  oe_server_starts :: bool
  oe_gauges_created :: bool
  oe_otel :: bool
  oe_endpoint :: "string option" \<comment> \<open>\<open>OMEGALB_OTEL_ENDPOINT\<close>\<close>
  oe_provider_built :: bool

section \<open>Operations\<close>

definition zero_gauges :: gauges where
  "zero_gauges = \<lparr>ga_requests_per_sec = 0, ga_avg_latency_ms = 0, ga_error_rate_pct = 0, ga_healthy_targets = 0,
     ga_total_targets = 0, ga_cbf_count = 0, ga_proactive_active = 0, ga_sla_pct = 0\<rparr>"

definition init_metrics :: "obs_env \<Rightarrow> obs_state \<Rightarrow> obs_state" where
  \<comment> \<open>the first guarded block: a server started before a later failure stays up\<close>
  "init_metrics env s =
     (if \<not> oe_prometheus env then s\<lparr>ob_metrics_available := False\<rparr>
      else case parse_int (case oe_port env of None \<Rightarrow> ''8001'' | Some p \<Rightarrow> p) of
             Inl e \<Rightarrow> s\<lparr>ob_metrics_available := False\<rparr>
           | Inr metrics_port \<Rightarrow>
               if \<not> oe_server_starts env then s\<lparr>ob_metrics_available := False\<rparr>
               else let s = s\<lparr>ob_servers := ob_servers s + 1\<rparr>
                    in if \<not> oe_gauges_created env then s\<lparr>ob_metrics_available := False\<rparr>
                       else s\<lparr>ob_metrics := Some zero_gauges, ob_metrics_available := True,
                              ob_metrics_port := Some metrics_port\<rparr>)"

definition init_tracing :: "obs_env \<Rightarrow> obs_state \<Rightarrow> obs_state" where
  "init_tracing env s =
     (if \<not> oe_otel env \<or> \<not> oe_provider_built env then s\<lparr>ob_tracing_available := False\<rparr>
      else s\<lparr>ob_provider := True, ob_tracer := True, ob_tracing_available := True,
             ob_otel_endpoint := Some (case oe_endpoint env of None \<Rightarrow> ''http://localhost:4318/v1/traces'' | Some u \<Rightarrow> u),
             ob_providers := ob_providers s + 1\<rparr>)"

definition init_observability :: "obs_env \<Rightarrow> obs_state \<Rightarrow> obs_state" where
  "init_observability env s =
     (if ob_initialized s then s
      else init_tracing env (init_metrics env (s\<lparr>ob_initialized := True\<rparr>)))"

record obs_status =
  os_metrics_available :: bool
  os_metrics_port :: "int option"
  os_tracing_available :: bool
  os_otel_endpoint :: "string option"

definition get_observability_status :: "obs_env \<Rightarrow> obs_state \<Rightarrow> obs_state \<times> obs_status" where
  "get_observability_status env s =
     (let s = init_observability env s
      in (s, \<lparr>os_metrics_available = ob_metrics_available s, os_metrics_port = ob_metrics_port s,
              os_tracing_available = ob_tracing_available s, os_otel_endpoint = ob_otel_endpoint s\<rparr>))"

definition gauges_of :: "view_data \<Rightarrow> gauges" where
  \<comment> \<open>the arguments the dashboard passes\<close>
  "gauges_of b =
     (let k = indicators_of b
      in \<lparr>ga_requests_per_sec = in_cur_rps k, ga_avg_latency_ms = in_avg_lat k, ga_error_rate_pct = in_avg_err k,
          ga_healthy_targets = real (in_n_up k), ga_total_targets = real (bu_N b), ga_cbf_count = real (in_cbf_cnt k),
          ga_proactive_active = flag (bu_proactive b), ga_sla_pct = bu_sla_pct b\<rparr>)"

definition update_metrics_from_state :: "obs_env \<Rightarrow> view_data \<Rightarrow> obs_state \<Rightarrow> obs_state" where
  "update_metrics_from_state env b s =
     (let s = init_observability env s
      in if \<not> ob_metrics_available s \<or> ob_metrics s = None then s
         else s\<lparr>ob_metrics := Some (gauges_of b)\<rparr>)"

definition maybe_traced :: "obs_env \<Rightarrow> obs_state \<Rightarrow> obs_state \<times> bool" where
  \<comment> \<open>whether a span is opened, rather than the null context\<close>
  "maybe_traced env s = (let s = init_observability env s in (s, ob_tracer s))"

definition shutdown_observability :: "obs_env \<Rightarrow> obs_state \<Rightarrow> obs_state" where
  "shutdown_observability env s =
     (let s = init_observability env s
      in if ob_provider s then s\<lparr>ob_shutdowns := ob_shutdowns s + 1\<rparr> else s)"

section \<open>Reachable states\<close>

datatype obs_call = Init | Status | Update view_data | Traced | Shutdown

fun obs_apply :: "obs_env \<Rightarrow> obs_state \<Rightarrow> obs_call \<Rightarrow> obs_state" where
  "obs_apply env s Init = init_observability env s"
| "obs_apply env s Status = fst (get_observability_status env s)"
| "obs_apply env s (Update b) = update_metrics_from_state env b s"
| "obs_apply env s Traced = fst (maybe_traced env s)"
| "obs_apply env s Shutdown = shutdown_observability env s"

definition obs_ok :: "obs_state \<Rightarrow> bool" where
  "obs_ok s \<longleftrightarrow> (ob_metrics_available s \<longleftrightarrow> ob_metrics s \<noteq> None) \<and>
     (ob_metrics_available s \<longleftrightarrow> ob_metrics_port s \<noteq> None) \<and>
     (ob_metrics_available s \<longrightarrow> ob_servers s = 1) \<and> ob_servers s \<le> 1 \<and>
     (ob_tracing_available s \<longleftrightarrow> ob_tracer s) \<and> (ob_provider s \<longleftrightarrow> ob_tracer s) \<and>
     (ob_tracing_available s \<longleftrightarrow> ob_otel_endpoint s \<noteq> None) \<and>
     ob_providers s = (if ob_tracer s then 1 else 0)"

lemma init_metrics_ok:
  fixes env :: obs_env
  defines "s \<equiv> init_metrics env (obs_fresh\<lparr>ob_initialized := True\<rparr>)"
  shows "(ob_metrics_available s \<longleftrightarrow> ob_metrics s \<noteq> None) \<and> (ob_metrics_available s \<longleftrightarrow> ob_metrics_port s \<noteq> None) \<and>
     (ob_metrics_available s \<longrightarrow> ob_servers s = 1) \<and> ob_servers s \<le> 1"
    and "ob_initialized s" and "\<not> ob_tracer s \<and> \<not> ob_provider s \<and> ob_otel_endpoint s = None \<and> ob_providers s = 0"
  unfolding s_def init_metrics_def Let_def
  by (simp_all add: obs_fresh_def split: sum.split)

lemma init_tracing_ok:
  assumes "(ob_metrics_available s \<longleftrightarrow> ob_metrics s \<noteq> None) \<and> (ob_metrics_available s \<longleftrightarrow> ob_metrics_port s \<noteq> None) \<and>
     (ob_metrics_available s \<longrightarrow> ob_servers s = 1) \<and> ob_servers s \<le> 1"
    and "\<not> ob_tracer s \<and> \<not> ob_provider s \<and> ob_otel_endpoint s = None \<and> ob_providers s = 0"
  shows "obs_ok (init_tracing env s)"
  using assms by (auto simp: init_tracing_def obs_ok_def)

lemma init_observability_ok:
  assumes "ob_initialized s \<longrightarrow> obs_ok s" and "\<not> ob_initialized s \<longrightarrow> s = obs_fresh"
  shows "obs_ok (init_observability env s) \<and> ob_initialized (init_observability env s)"
proof (cases "ob_initialized s")
  case False
  then have "s = obs_fresh" using assms(2) by simp
  moreover have "ob_initialized (init_tracing env t) = ob_initialized t" for t
    by (simp add: init_tracing_def)
  ultimately show ?thesis
    using False init_tracing_ok[OF init_metrics_ok(1,3)] init_metrics_ok(2) by (simp add: init_observability_def)
qed (use assms(1) in \<open>simp add: init_observability_def\<close>)

lemma init_observability_again: "ob_initialized s \<Longrightarrow> init_observability env s = s"
  by (simp add: init_observability_def)

lemma obs_apply_ok:
  assumes "ob_initialized s \<longrightarrow> obs_ok s" and "\<not> ob_initialized s \<longrightarrow> s = obs_fresh"
  shows "obs_ok (obs_apply env s c) \<and> ob_initialized (obs_apply env s c)"
  using init_observability_ok[OF assms, of env]
  by (cases c) (auto simp: get_observability_status_def update_metrics_from_state_def maybe_traced_def
      shutdown_observability_def obs_ok_def Let_def)

lemma obs_run_ok:
  assumes "obs_ok s" and "ob_initialized s"
  shows "obs_ok (foldl (obs_apply env) s cs) \<and> ob_initialized (foldl (obs_apply env) s cs)"
  using assms
proof (induction cs arbitrary: s)
  case (Cons c cs)
  then show ?case using obs_apply_ok[of s env c] by simp
qed simp

section \<open>Properties\<close>

text \<open>
  However often the dashboard is rerun and whatever it calls first, at most one metrics server is
  started and one tracer provider installed, and metrics and traces are reported as available
  exactly when they are; a missing package or a bad port disables one of the two and never raises.
\<close>
theorem observability_initialised_once:
  assumes "cs \<noteq> []"
  shows "let s = foldl (obs_apply env) obs_fresh cs in
    ob_initialized s \<and> ob_servers s \<le> 1 \<and> ob_providers s \<le> 1 \<and>
    (ob_metrics_available s \<longleftrightarrow> ob_metrics s \<noteq> None) \<and> (ob_metrics_available s \<longrightarrow> ob_servers s = 1) \<and>
    (ob_tracing_available s \<longleftrightarrow> ob_tracer s)"
proof -
  obtain c r where cs: "cs = c # r" using assms by (cases cs) auto
  have "obs_ok (obs_apply env obs_fresh c) \<and> ob_initialized (obs_apply env obs_fresh c)"
    by (rule obs_apply_ok) (simp_all add: obs_fresh_def)
  then show ?thesis using obs_run_ok[of "obs_apply env obs_fresh c" env r] unfolding cs
    by (auto simp: obs_ok_def Let_def)
qed

theorem observability_initialised_once_witness:
  "ob_servers (foldl (obs_apply \<lparr>oe_prometheus = True, oe_port = Some ''x'', oe_server_starts = True,
      oe_gauges_created = True, oe_otel = False, oe_endpoint = None, oe_provider_built = True\<rparr>)
      obs_fresh [Status, Traced, Init]) \<le> 1"
  using observability_initialised_once[of "[Status, Traced, Init]"
      "\<lparr>oe_prometheus = True, oe_port = Some ''x'', oe_server_starts = True,
      oe_gauges_created = True, oe_otel = False, oe_endpoint = None, oe_provider_built = True\<rparr>"]
  by (simp add: Let_def)

text \<open>
  With metrics available, the gauges after an update are the indicators the page shows, and later
  calls other than an update keep them.
\<close>
theorem gauges_show_last_view:
  assumes "ob_metrics_available (obs_apply env obs_fresh c)" and "\<forall>d \<in> set cs. \<forall>b'. d \<noteq> Update b'"
  shows "ob_metrics (foldl (obs_apply env) (obs_apply env obs_fresh c) (Update b # cs)) = Some (gauges_of b)"
proof -
  define s where "s = obs_apply env (obs_apply env obs_fresh c) (Update b)"
  have "obs_ok (obs_apply env obs_fresh c) \<and> ob_initialized (obs_apply env obs_fresh c)"
    by (rule obs_apply_ok) (simp_all add: obs_fresh_def)
  then have "ob_metrics s = Some (gauges_of b) \<and> ob_initialized s"
    using assms(1) by (auto simp: s_def update_metrics_from_state_def init_observability_def obs_ok_def)
  then have "ob_metrics (foldl (obs_apply env) s cs) = Some (gauges_of b)" using assms(2)
  proof (induction cs arbitrary: s)
    case (Cons d cs)
    have "ob_metrics (obs_apply env s d) = Some (gauges_of b) \<and> ob_initialized (obs_apply env s d)"
      using Cons.prems by (cases d) (auto simp: get_observability_status_def maybe_traced_def
          shutdown_observability_def init_observability_again Let_def)
    then show ?case using Cons by simp
  qed simp
  then show ?thesis by (simp add: s_def)
qed

definition full_env :: obs_env where
  "full_env = \<lparr>oe_prometheus = True, oe_port = None, oe_server_starts = True,
      oe_gauges_created = True, oe_otel = True, oe_endpoint = None, oe_provider_built = True\<rparr>"

theorem gauges_show_last_view_witness:
  "ob_metrics (foldl (obs_apply full_env) (obs_apply full_env obs_fresh Init) [Update (demo_bundle sim_start), Shutdown, Traced]) =
    Some (gauges_of (demo_bundle sim_start))"
proof -
  have "ob_metrics_available (obs_apply full_env obs_fresh Init)"
    by (simp add: full_env_def obs_fresh_def init_observability_def init_metrics_def init_tracing_def parse_int_def
        strip_def digit_val_def is_space_def)
  then show ?thesis by (rule gauges_show_last_view) simp
qed

end
