(* ===== verification/Desktop_App.thy ===== *)
theory Desktop_App
  imports Config_Loader Dashboard_View
begin

text \<open>
  The desktop application \<open>desktop/omegalb_desktop.py\<close>: the backend wiring table and the
  configuration file it is saved to, the probes of single backends, the processes of the stack
  with the watchdog, and the table of backends drawn from a status snapshot. Message boxes are the
  values they return, the activity log and the styling are left out, and what the operating system
  and the network answer are arguments.
\<close>

section \<open>State\<close>

datatype health_cell = Unknown | Testing | Probed_up | Probed_down nat | Probe_failed | Probe_error
datatype latency_cell = Dash | Not_available | Millis real

record wiring_row =
  wr_name :: "string option" \<comment> \<open>\<open>None\<close> for a cell without an item\<close>
  wr_host :: "string option"
  wr_port :: "string option"
  wr_zone :: "string option"
  wr_health :: health_cell
  wr_latency :: latency_cell
  wr_button :: nat \<comment> \<open>the row number the row's button was connected with\<close>

record desktop =
  dk_rows :: "wiring_row list"
  dk_config :: "py_val option" \<comment> \<open>the parsed configuration file\<close>
  dk_processes :: "(string \<times> bool) list" \<comment> \<open>name and liveness, in the order they were started\<close>
  dk_runtime_started :: bool
  dk_online :: bool
  dk_proxy_url :: "py_val \<times> int" \<comment> \<open>host and port of the proxy's address\<close>
  dk_managed_backends :: bool
  dk_loadgen :: bool
  dk_dashboard :: bool
  dk_snapshot :: "snapshot option"

section \<open>The wiring table\<close>

definition add_backend_row :: "string \<Rightarrow> string \<Rightarrow> string \<Rightarrow> string \<Rightarrow> wiring_row list \<Rightarrow> wiring_row list" where
  "add_backend_row name host port zone rows =
     rows @ [\<lparr>wr_name = Some name, wr_host = Some host, wr_port = Some port, wr_zone = Some zone,
              wr_health = Unknown, wr_latency = Dash, wr_button = length rows\<rparr>]"

definition remove_rows :: "nat set \<Rightarrow> wiring_row list \<Rightarrow> wiring_row list" where
  \<comment> \<open>the selected rows, removed from the bottom up\<close>
  "remove_rows sel rows = map (\<lambda>i. rows ! i) (filter (\<lambda>i. i \<notin> sel) [0..<length rows])"

definition demo_wiring :: "wiring_row list" where
  "demo_wiring =
     foldl (\<lambda>rows i. add_backend_row (''backend-'' @ nat_str i) ''127.0.0.1'' (nat_str (9000 + i))
                       (''local-'' @ [char_of (97 + i mod 3)]) rows) [] [0..<4]"

record wired_backend =
  wb_name :: string
  wb_host :: string
  wb_port :: nat
  wb_zone :: string

definition backend_dict :: "wired_backend \<Rightarrow> py_val" where
  "backend_dict b =
     PDict [(''name'', PStr (wb_name b)), (''host'', PStr (wb_host b)), (''port'', PInt (int (wb_port b))),
            (''zone'', PStr (wb_zone b))]"

definition cell_text :: "string \<Rightarrow> string option \<Rightarrow> string" where
  "cell_text dflt cell = (case cell of None \<Rightarrow> dflt | Some t \<Rightarrow> strip t)"

definition or_text :: "string \<Rightarrow> string \<Rightarrow> string" where
  \<comment> \<open>\<open>text or default\<close>\<close>
  "or_text t dflt = (if t = [] then dflt else t)"

definition extract_row :: "nat \<Rightarrow> wiring_row \<Rightarrow> py_err + wired_backend" where
  "extract_row r row =
     (let name = cell_text (''backend-'' @ nat_str r) (wr_name row);
          host = cell_text [] (wr_host row);
          port_txt = cell_text [] (wr_port row);
          zone = cell_text ''local'' (wr_zone row)
      in if host = [] then Inl ValueError
         else if \<not> isdigit port_txt then Inl ValueError
         else bindE (parse_int port_txt) (\<lambda>port.
           if \<not> (1 \<le> port \<and> port \<le> 65535) then Inl ValueError
           else Inr \<lparr>wb_name = or_text name (''backend-'' @ nat_str r), wb_host = host, wb_port = nat port,
                     wb_zone = or_text zone ''local''\<rparr>))"

definition extract_backends :: "wiring_row list \<Rightarrow> py_err + wired_backend list" where
  "extract_backends rows =
     bindE (mapE (\<lambda>(r, row). extract_row r row) (zip [0..<length rows] rows)) (\<lambda>bs.
       if bs = [] then Inl ValueError else Inr bs)"

section \<open>The configuration file\<close>

definition read_config :: "bool \<Rightarrow> bool \<Rightarrow> desktop \<Rightarrow> py_err + py_val" where
  \<comment> \<open>whether the YAML package is there, and whether the file parses\<close>
  "read_config yaml parses s =
     (if \<not> yaml then Inl RuntimeError
      else case dk_config s of
             None \<Rightarrow> Inr (PDict [])
           | Some v \<Rightarrow> if \<not> parses then Inl ValueError else Inr (if truthy v then v else PDict []))"

fun set_item :: "py_val \<Rightarrow> string \<Rightarrow> py_val \<Rightarrow> py_err + py_val" where
  \<comment> \<open>\<open>d[key] = v\<close>\<close>
  "set_item (PDict kvs) key v = Inr (PDict (dict_put kvs key v))"
| "set_item _ key v = Inl TypeError"

definition save_wiring :: "bool \<Rightarrow> bool \<Rightarrow> save_outcome \<Rightarrow> desktop \<Rightarrow> desktop \<times> bool" where
  \<comment> \<open>\<open>_save_wiring_to_config\<close>; the file is emptied first, so a failed write loses it\<close>
  "save_wiring yaml parses saving s =
     (case bindE (read_config yaml parses s) (\<lambda>cfg.
           bindE (extract_backends (dk_rows s)) (\<lambda>bs. set_item cfg ''backends'' (PList (map backend_dict bs)))) of
        Inl e \<Rightarrow> (s, False)
      | Inr cfg \<Rightarrow> (case saving of
            Writes \<Rightarrow> (s\<lparr>dk_config := Some cfg\<rparr>, True)
          | Open_fails \<Rightarrow> (s, False)
          | Write_fails \<Rightarrow> (s\<lparr>dk_config := Some PNone\<rparr>, False)))"

fun py_str :: "(py_val \<Rightarrow> string) \<Rightarrow> py_val \<Rightarrow> string" where
  \<comment> \<open>\<open>str(v)\<close>; the text of floats, lists and dicts is a parameter\<close>
  "py_str txt (PStr s) = s"
| "py_str txt (PInt k) = (if k < 0 then CHR ''-'' # nat_str (nat (- k)) else nat_str (nat k))"
| "py_str txt (PBool b) = (if b then ''True'' else ''False'')"
| "py_str txt PNone = ''None''"
| "py_str txt v = txt v"

definition load_row :: "(py_val \<Rightarrow> string) \<Rightarrow> wiring_row list \<Rightarrow> nat \<times> py_val \<Rightarrow> py_err + wiring_row list" where
  "load_row txt rows ib =
     (case ib of (i, b) \<Rightarrow>
        bindE (py_dot_get b ''name'' (PStr (''backend-'' @ nat_str i))) (\<lambda>name.
        bindE (py_dot_get b ''host'' (PStr ''127.0.0.1'')) (\<lambda>host.
        bindE (py_dot_get b ''port'' (PInt (9000 + int i))) (\<lambda>port.
        bindE (py_dot_get b ''zone'' (PStr ''local'')) (\<lambda>zone.
          Inr (add_backend_row (py_str txt name) (py_str txt host) (py_str txt port) (py_str txt zone) rows))))))"

definition load_wiring :: "(py_val \<Rightarrow> string) \<Rightarrow> bool \<Rightarrow> bool \<Rightarrow> desktop \<Rightarrow> desktop" where
  \<comment> \<open>\<open>_load_wiring_from_config\<close>: any exception, or an empty list, ends in the demo targets\<close>
  "load_wiring txt yaml parses s =
     (case bindE (read_config yaml parses s) (\<lambda>cfg.
           bindE (py_dot_get cfg ''proxy'' (PDict [])) (\<lambda>proxy.
           bindE (py_dot_get proxy ''host'' (PStr ''127.0.0.1'')) (\<lambda>host.
           bindE (bindE (py_dot_get proxy ''port'' (PInt 8080)) to_int) (\<lambda>port. Inr (cfg, host, port))))) of
        Inl e \<Rightarrow> s\<lparr>dk_rows := demo_wiring\<rparr>
      | Inr (cfg, host, port) \<Rightarrow>
          let s = s\<lparr>dk_proxy_url := (host, port)\<rparr>
          in case bindE (bindE (py_dot_get cfg ''backends'' (PList [])) py_iter) (\<lambda>bs.
                  foldE (load_row txt) [] (zip [0..<length bs] bs)) of
               Inl e \<Rightarrow> s\<lparr>dk_rows := demo_wiring\<rparr>
             | Inr rows \<Rightarrow> s\<lparr>dk_rows := (if rows = [] then demo_wiring else rows)\<rparr>)"

section \<open>Testing a backend\<close>

datatype probe_result = Responds nat real | Unreachable | Breaks

definition probe_target :: "wiring_row list \<Rightarrow> nat \<Rightarrow> (string \<times> int) option" where
  \<comment> \<open>the address \<open>_test_single_backend\<close> contacts, none when the row is missing or not valid\<close>
  "probe_target rows row =
     (if row < length rows
      then let host = cell_text [] (wr_host (rows ! row)); port_txt = cell_text [] (wr_port (rows ! row))
           in if host = [] \<or> \<not> isdigit port_txt then None
              else (case parse_int port_txt of Inl e \<Rightarrow> None | Inr p \<Rightarrow> Some (host, p))
      else None)"

definition test_backend :: "(string \<times> int \<Rightarrow> probe_result) \<Rightarrow> nat \<Rightarrow> wiring_row list \<Rightarrow> wiring_row list" where
  "test_backend net row rows =
     (case probe_target rows row of
        None \<Rightarrow> rows
      | Some a \<Rightarrow> (case net a of
            Responds code ms \<Rightarrow>
              if code = 200 then rows[row := (rows ! row)\<lparr>wr_health := Probed_up, wr_latency := Millis ms\<rparr>]
              else rows[row := (rows ! row)\<lparr>wr_health := Probed_down code\<rparr>]
          | Unreachable \<Rightarrow> rows[row := (rows ! row)\<lparr>wr_health := Probe_failed, wr_latency := Not_available\<rparr>]
          | Breaks \<Rightarrow> rows[row := (rows ! row)\<lparr>wr_health := Probe_error, wr_latency := Dash\<rparr>]))"

definition test_all :: "(string \<times> int \<Rightarrow> probe_result) \<Rightarrow> wiring_row list \<Rightarrow> wiring_row list" where
  "test_all net rows = foldl (\<lambda>rs r. test_backend net r rs) rows [0..<length rows]"

definition press_check :: "(string \<times> int \<Rightarrow> probe_result) \<Rightarrow> nat \<Rightarrow> wiring_row list \<Rightarrow> wiring_row list" where
  \<comment> \<open>the button of the row in position \<open>i\<close>\<close>
  "press_check net i rows = test_backend net (wr_button (rows ! i)) rows"

section \<open>The stack\<close>

definition managed_wiring_mismatched :: "wiring_row list \<Rightarrow> bool" where
  "managed_wiring_mismatched rows =
     (case extract_backends rows of
        Inl e \<Rightarrow> True
      | Inr bs \<Rightarrow> length bs < 4 \<or>
          map (\<lambda>b. (wb_host b, wb_port b)) (take 4 bs) \<noteq> map (\<lambda>i. (''127.0.0.1'', 9000 + i)) [0..<4])"

definition preflight_ports :: "(nat \<Rightarrow> bool) \<Rightarrow> desktop \<Rightarrow> bool" where
  "preflight_ports free s = (\<forall>port \<in> set (8080 # (if dk_dashboard s then [8501] else [])). free port)"

definition plans :: "desktop \<Rightarrow> string list" where
  "plans s =
     (if dk_managed_backends s then [''backends''] else []) @ [''proxy'']
     @ (if dk_loadgen s then [''loadgen''] else []) @ (if dk_dashboard s then [''dashboard''] else [])"

record start_inputs =
  sn_free :: "nat \<Rightarrow> bool"
  sn_yaml :: bool
  sn_parses :: bool
  sn_saving :: save_outcome
  sn_confirms :: bool

definition start_stack :: "start_inputs \<Rightarrow> desktop \<Rightarrow> desktop" where
  "start_stack inp s =
     (if dk_processes s \<noteq> [] then s
      else if \<not> preflight_ports (sn_free inp) s then s
      else case save_wiring (sn_yaml inp) (sn_parses inp) (sn_saving inp) s of
             (s, saved) \<Rightarrow>
               if \<not> saved then s
               else if dk_managed_backends s \<and> managed_wiring_mismatched (dk_rows s) \<and> \<not> sn_confirms inp then s
               else s\<lparr>dk_processes := map (\<lambda>name. (name, True)) (plans s), dk_runtime_started := True\<rparr>)"

definition stop_stack :: "(string \<Rightarrow> bool) \<Rightarrow> desktop \<Rightarrow> desktop \<times> (string \<times> bool) list" where
  \<comment> \<open>with the processes that were told to terminate, and whether they had to be killed because they
      were still alive after five seconds\<close>
  "stop_stack stubborn s =
     (if dk_processes s = [] then (s, [])
      else (s\<lparr>dk_processes := [], dk_runtime_started := False, dk_online := False\<rparr>,
            map (\<lambda>(name, alive). (name, stubborn name)) (filter snd (dk_processes s))))"

fun drop_first_dead :: "(string \<times> bool) list \<Rightarrow> (string \<times> bool) list" where
  "drop_first_dead [] = []"
| "drop_first_dead ((name, alive) # ps) = (if alive then (name, alive) # drop_first_dead ps else ps)"

definition watchdog :: "desktop \<Rightarrow> desktop" where
  \<comment> \<open>one exited process is reported and forgotten per call\<close>
  "watchdog s = s\<lparr>dk_processes := drop_first_dead (dk_processes s)\<rparr>"

section \<open>The status view\<close>

record kpi_view =
  kv_tick :: nat
  kv_rps :: real
  kv_total :: nat
  kv_err_pct :: real
  kv_healthy :: nat
  kv_backends :: nat

record backend_view =
  bv_name :: string
  bv_up :: bool
  bv_latency :: real
  bv_load_pct :: real
  bv_err_pct :: real
  bv_requests :: nat
  bv_vnodes :: int
  bv_rate :: real
  bv_weight :: real

definition last_or_zero :: "real list list \<Rightarrow> nat \<Rightarrow> real" where
  "last_or_zero rows i = (if i < length rows \<and> rows ! i \<noteq> [] then last (rows ! i) else 0)"

definition nth_or_zero :: "'a::zero list \<Rightarrow> nat \<Rightarrow> 'a" where
  "nth_or_zero xs i = (if i < length xs then xs ! i else 0)"

definition render_snapshot :: "snapshot \<Rightarrow> py_err + kpi_view \<times> backend_view list" where
  "render_snapshot d =
     (let tot = sum_list (sn_total_requests d);
          errors = sum_list (sn_total_errors d);
          err_pct = (if tot \<noteq> 0 then real errors / real tot * 100 else 0)
      in if sn_rps_hist d = [] then Inl IndexError
         else Inr (\<lparr>kv_tick = sn_tick d, kv_rps = last (sn_rps_hist d), kv_total = tot, kv_err_pct = err_pct,
                    kv_healthy = n_up (sn_health d), kv_backends = length (sn_health d)\<rparr>,
           map (\<lambda>i. \<lparr>bv_name = sn_backend_names d ! i, bv_up = (i < length (sn_health d) \<and> sn_health d ! i),
                      bv_latency = last_or_zero (sn_latency_hist d) i,
                      bv_load_pct = last_or_zero (sn_load_hist d) i * 100,
                      bv_err_pct = last_or_zero (sn_error_hist d) i * 100,
                      bv_requests = nth_or_zero (sn_total_requests d) i,
                      bv_vnodes = (if i < length (sn_vnode_counts d) then py_int (sn_vnode_counts d ! i) else 0),
                      bv_rate = nth_or_zero (sn_rate_limits d) i,
                      bv_weight = nth_or_zero (sn_kan_weights d) i\<rparr>) [0..<length (sn_backend_names d)]))"

definition poll_status :: "snapshot option \<Rightarrow> desktop \<Rightarrow> desktop" where
  \<comment> \<open>the reply of the status address, if there was one\<close>
  "poll_status reply s =
     (let s = watchdog s
      in case reply of
           None \<Rightarrow> s\<lparr>dk_online := False\<rparr>
         | Some snap \<Rightarrow>
             let s = s\<lparr>dk_snapshot := Some snap\<rparr>
             in case render_snapshot snap of
                  Inl e \<Rightarrow> s\<lparr>dk_online := False\<rparr>
                | Inr _ \<Rightarrow> s\<lparr>dk_online := True\<rparr>)"

section \<open>Saving and loading the wiring\<close>

definition wired_ok :: "wired_backend \<Rightarrow> bool" where
  \<comment> \<open>what a saved backend satisfies\<close>
  "wired_ok b \<longleftrightarrow> wb_host b \<noteq> [] \<and> strip (wb_host b) = wb_host b \<and> wb_name b \<noteq> [] \<and> strip (wb_name b) = wb_name b \<and>
     wb_zone b \<noteq> [] \<and> strip (wb_zone b) = wb_zone b \<and> 1 \<le> wb_port b \<and> wb_port b \<le> 65535"

lemma space_free_names: "strip (''backend-'' @ nat_str r) = ''backend-'' @ nat_str r" "strip ''local'' = ''local''"
proof -
  have "\<forall>c \<in> set (nat_str r). \<not> is_space c"
    using isdigit_nat_str[of r] digit_not_space by (auto simp: isdigit_def)
  moreover have "\<forall>c \<in> set ''backend-''. \<not> is_space c" "\<forall>c \<in> set ''local''. \<not> is_space c" by (simp_all add: is_space_def)
  ultimately show "strip (''backend-'' @ nat_str r) = ''backend-'' @ nat_str r" "strip ''local'' = ''local''"
    by (intro strip_no_space; auto simp del: append_Cons)+
qed

lemma cell_text_strip: "strip dflt = dflt \<Longrightarrow> strip (cell_text dflt cell) = cell_text dflt cell"
  by (simp add: cell_text_def split: option.split)

lemma extract_row_ok:
  assumes "extract_row r row = Inr b"
  shows "wired_ok b"
proof -
  define name host zone where "name = cell_text (''backend-'' @ nat_str r) (wr_name row)"
    and "host = cell_text [] (wr_host row)" and "zone = cell_text ''local'' (wr_zone row)"
  have strips: "strip name = name" "strip host = host" "strip zone = zone"
    unfolding name_def host_def zone_def
    by (rule cell_text_strip, rule space_free_names(1), rule cell_text_strip, simp add: strip_def,
        rule cell_text_strip, rule space_free_names(2))
  obtain port where port: "host \<noteq> []" "1 \<le> port" "port \<le> 65535"
    "b = \<lparr>wb_name = or_text name (''backend-'' @ nat_str r), wb_host = host, wb_port = nat port, wb_zone = or_text zone ''local''\<rparr>"
    using assms unfolding extract_row_def Let_def name_def[symmetric] host_def[symmetric] zone_def[symmetric]
    by (auto simp: bindE_Inr_iff split: if_splits)
  have "or_text name (''backend-'' @ nat_str r) \<noteq> []" "or_text zone ''local'' \<noteq> []" by (simp_all add: or_text_def)
  moreover have "strip (or_text name (''backend-'' @ nat_str r)) = or_text name (''backend-'' @ nat_str r)"
    using strips(1) space_free_names(1) by (simp add: or_text_def del: append_Cons)
  moreover have "strip (or_text zone ''local'') = or_text zone ''local''"
    using strips(3) space_free_names(2) by (simp add: or_text_def)
  moreover have "1 \<le> nat port" "nat port \<le> 65535" using port(2,3) by (simp_all add: le_nat_iff nat_le_iff)
  ultimately show ?thesis using port(1,4) strips(2) by (simp add: wired_ok_def)
qed

definition wired_row :: "nat \<Rightarrow> wired_backend \<Rightarrow> wiring_row" where
  \<comment> \<open>the row a saved backend is loaded into\<close>
  "wired_row k b = \<lparr>wr_name = Some (wb_name b), wr_host = Some (wb_host b), wr_port = Some (nat_str (wb_port b)),
     wr_zone = Some (wb_zone b), wr_health = Unknown, wr_latency = Dash, wr_button = k\<rparr>"

lemma load_row_dict: "load_row txt rows (i, backend_dict b) = Inr (rows @ [wired_row (length rows) b])"
  by (simp add: load_row_def backend_dict_def add_backend_row_def wired_row_def)

lemma load_rows_dicts:
  "length js = length bs \<Longrightarrow> foldE (load_row txt) rows (zip js (map backend_dict bs)) =
     Inr (rows @ map2 wired_row [length rows..<length rows + length bs] bs)"
proof (induction js bs arbitrary: rows rule: list_induct2)
  case (Cons j js b bs)
  have "[length rows..<length rows + Suc (length bs)] = length rows # [Suc (length rows)..<Suc (length rows) + length bs]"
    using upt_conv_Cons[of "length rows" "length rows + Suc (length bs)"] by (simp del: upt_Suc)
  then show ?case using Cons.IH[of "rows @ [wired_row (length rows) b]"] by (simp add: load_row_dict del: upt_Suc)
qed simp

lemma extract_wired_row: "wired_ok b \<Longrightarrow> extract_row r (wired_row k b) = Inr b"
  by (simp add: extract_row_def wired_row_def wired_ok_def cell_text_def strip_isdigit[OF isdigit_nat_str]
      isdigit_nat_str parse_int_nat_str or_text_def)

lemma extract_wired_rows:
  assumes "\<forall>b \<in> set bs. wired_ok b" and "bs \<noteq> []" and "length ks = length bs"
  shows "extract_backends (map2 wired_row ks bs) = Inr bs"
proof -
  define n where "n = length bs"
  have "mapE (\<lambda>(r, row). extract_row r row) (zip [0..<n] (map2 wired_row ks bs)) = Inr bs"
    unfolding mapE_Inr_iff using assms extract_wired_row
    by (auto simp: list_all2_conv_all_nth n_def)
  then show ?thesis using assms by (simp add: extract_backends_def n_def)
qed

lemma extract_backends_ok:
  assumes "extract_backends rows = Inr bs"
  shows "bs \<noteq> [] \<and> length bs = length rows \<and> (\<forall>b \<in> set bs. wired_ok b)"
proof -
  have all: "list_all2 (\<lambda>rr b. extract_row (fst rr) (snd rr) = Inr b) (zip [0..<length rows] rows) bs" and ne: "bs \<noteq> []"
    using assms by (auto simp: extract_backends_def bindE_Inr_iff mapE_Inr_iff case_prod_beta' split: if_splits)
  have "wired_ok b" if "b \<in> set bs" for b
    using that all extract_row_ok by (auto simp: list_all2_conv_all_nth in_set_conv_nth)
  then show ?thesis using ne list_all2_lengthD[OF all] by auto
qed

lemma save_wiring_saved:
  assumes "save_wiring yaml parses saving s = (s', True)"
  obtains kvs bs where "extract_backends (dk_rows s) = Inr bs" and "dk_rows s' = dk_rows s"
    and "dk_config s' = Some (PDict (dict_put kvs ''backends'' (PList (map backend_dict bs))))"
    and "read_config yaml parses s = Inr (PDict kvs)"
proof -
  obtain cfg where cfg: "bindE (read_config yaml parses s) (\<lambda>cfg. bindE (extract_backends (dk_rows s))
      (\<lambda>bs. set_item cfg ''backends'' (PList (map backend_dict bs)))) = Inr cfg"
    and s': "s' = s\<lparr>dk_config := Some cfg\<rparr>"
    using assms by (auto simp: save_wiring_def split: sum.splits save_outcome.splits)
  then obtain old bs where old: "read_config yaml parses s = Inr old" "extract_backends (dk_rows s) = Inr bs"
    "set_item old ''backends'' (PList (map backend_dict bs)) = Inr cfg"
    by (auto simp: bindE_Inr_iff)
  then obtain kvs where "old = PDict kvs" "cfg = PDict (dict_put kvs ''backends'' (PList (map backend_dict bs)))"
    by (cases old) auto
  then show ?thesis using that old s' by simp
qed

section \<open>Properties\<close>

text \<open>
  C32. Saving the wiring table and loading it back gives the same backends, each with a host, a name
  and a zone without surrounding blanks and a port from 1 to 65535, as long as the proxy section
  of the file is readable.
\<close>
theorem wiring_roundtrip:
  assumes "save_wiring yaml parses saving s = (s', True)"
    and "\<exists>cfg proxy host port. dk_config s' = Some cfg \<and> py_dot_get cfg ''proxy'' (PDict []) = Inr proxy \<and>
      py_dot_get proxy ''host'' (PStr ''127.0.0.1'') = Inr host \<and>
      bindE (py_dot_get proxy ''port'' (PInt 8080)) to_int = Inr port"
  shows "\<exists>bs. extract_backends (dk_rows s) = Inr bs \<and> (\<forall>b \<in> set bs. wired_ok b) \<and>
    extract_backends (dk_rows (load_wiring txt True True s')) = Inr bs"
proof -
  obtain kvs bs where bs: "extract_backends (dk_rows s) = Inr bs" and
    cfg: "dk_config s' = Some (PDict (dict_put kvs ''backends'' (PList (map backend_dict bs))))"
    by (rule save_wiring_saved[OF assms(1)])
  have ok: "bs \<noteq> [] \<and> length bs = length (dk_rows s) \<and> (\<forall>b \<in> set bs. wired_ok b)" by (rule extract_backends_ok[OF bs])
  define d where "d = dict_put kvs ''backends'' (PList (map backend_dict bs))"
  have "map_of d ''backends'' = Some (PList (map backend_dict bs))" by (simp add: d_def map_of_dict_put)
  moreover from this have "d \<noteq> []" by auto
  moreover have "dk_rows s \<noteq> []" using ok by auto
  moreover obtain proxy host port where "py_dot_get (PDict d) ''proxy'' (PDict []) = Inr proxy"
    "py_dot_get proxy ''host'' (PStr ''127.0.0.1'') = Inr host" "bindE (py_dot_get proxy ''port'' (PInt 8080)) to_int = Inr port"
    using assms(2) cfg by (auto simp: d_def)
  ultimately have "dk_rows (load_wiring txt True True s') = map2 wired_row [0..<length bs] bs"
    using cfg ok load_rows_dicts[of "[0..<length bs]" bs "txt" "[]"]
    by (simp add: load_wiring_def read_config_def d_def[symmetric] Let_def)
  then show ?thesis using bs ok extract_wired_rows[of bs "[0..<length bs]"] by simp
qed

definition demo_desktop :: desktop where
  "demo_desktop =
     \<lparr>dk_rows = add_backend_row '' api '' ''10.0.0.7'' ''8001'' [] [], dk_config = None, dk_processes = [],
      dk_runtime_started = False, dk_online = False, dk_proxy_url = (PStr ''127.0.0.1'', 8080),
      dk_managed_backends = False, dk_loadgen = True, dk_dashboard = False, dk_snapshot = None\<rparr>"

definition demo_saved :: "(string \<times> py_val) list" where
  "demo_saved = [(''backends'', PList [backend_dict
     \<lparr>wb_name = ''api'', wb_host = ''10.0.0.7'', wb_port = 8001, wb_zone = ''local''\<rparr>])]"

lemma demo_save:
  "\<exists>s'. save_wiring True True Writes demo_desktop = (s', True) \<and>
     dk_config s' = Some (PDict demo_saved)"
  by (simp add: demo_saved_def save_wiring_def demo_desktop_def read_config_def extract_backends_def extract_row_def
      add_backend_row_def cell_text_def strip_def is_space_def isdigit_def digit_val_def parse_int_def or_text_def)

theorem wiring_roundtrip_witness:
  "\<exists>s' bs. save_wiring True True Writes demo_desktop = (s', True) \<and> (\<forall>b \<in> set bs. wired_ok b) \<and>
     extract_backends (dk_rows (load_wiring (\<lambda>v. []) True True s')) = Inr bs"
proof -
  obtain s' where s: "save_wiring True True Writes demo_desktop = (s', True)"
    "dk_config s' = Some (PDict demo_saved)"
    using demo_save by blast
  then show ?thesis using wiring_roundtrip[OF s(1), of "\<lambda>v. []"] by (auto simp: demo_saved_def)
qed

text \<open>
  C31. What the application saves is what the proxy starts with: the addresses, names and zones the
  proxy reads from the saved file are those of the wiring table, in its order.
\<close>
theorem saved_wiring_reaches_proxy:
  assumes "save_wiring yaml parses saving s = (s', True)" and "dk_config s' = Some (PDict user)"
    and "distinct (map fst user)"
  shows "\<exists>bs d. extract_backends (dk_rows s) = Inr bs \<and>
    load_config \<lparr>cf_exists = True, cf_yaml = Yaml (PDict user), cf_json = None\<rparr> = Inr d \<and>
    read_backends (PDict d) = Inr (map (\<lambda>b. (PStr (wb_host b), int (wb_port b))) bs,
      map (\<lambda>b. PStr (wb_name b)) bs, map (\<lambda>b. PStr (wb_zone b)) bs)"
proof -
  obtain kvs bs where bs: "extract_backends (dk_rows s) = Inr bs" and
    user: "user = dict_put kvs ''backends'' (PList (map backend_dict bs))"
    using save_wiring_saved[OF assms(1)] assms(2) by (metis option.inject py_val.inject(6))
  define d where "d = foldl merge_entry config_defaults user"
  have load: "load_config \<lparr>cf_exists = True, cf_yaml = Yaml (PDict user), cf_json = None\<rparr> = Inr d"
    by (cases user) (simp_all add: load_config_def d_def)
  have "map_of user ''backends'' = Some (PList (map backend_dict bs))" by (simp add: user map_of_dict_put)
  then have item: "py_item (PDict d) ''backends'' = Inr (PList (map backend_dict bs))"
    by (simp add: d_def merge_entries_lookup[OF assms(3)] merged_def)
  have a: "mapE read_backend (map backend_dict bs) = Inr (map (\<lambda>b. (PStr (wb_host b), int (wb_port b))) bs)"
    by (induction bs) (simp_all add: read_backend_def backend_dict_def)
  have n: "mapE (\<lambda>(i, b). py_dot_get b ''name'' (f i)) (zip js (map backend_dict bs)) = Inr (map (\<lambda>b. PStr (wb_name b)) bs)"
    if "length js = length bs" for f :: "nat \<Rightarrow> py_val" and js
    using that by (induction js bs rule: list_induct2) (simp_all add: backend_dict_def)
  have z: "mapE (\<lambda>b. py_dot_get b ''zone'' (PStr ''local'')) (map backend_dict bs) = Inr (map (\<lambda>b. PStr (wb_zone b)) bs)"
    by (induction bs) (simp_all add: backend_dict_def)
  show ?thesis using bs load item a z n[of "[0..<length bs]"] unfolding read_backends_def by auto
qed

theorem saved_wiring_reaches_proxy_witness:
  "\<exists>bs d. extract_backends (dk_rows demo_desktop) = Inr bs \<and>
    load_config \<lparr>cf_exists = True, cf_yaml = Yaml (PDict demo_saved), cf_json = None\<rparr> = Inr d \<and>
    read_backends (PDict d) = Inr (map (\<lambda>b. (PStr (wb_host b), int (wb_port b))) bs,
      map (\<lambda>b. PStr (wb_name b)) bs, map (\<lambda>b. PStr (wb_zone b)) bs)"
proof -
  obtain s' where s: "save_wiring True True Writes demo_desktop = (s', True)" "dk_config s' = Some (PDict demo_saved)"
    using demo_save by blast
  have "distinct (map fst demo_saved)" by (simp add: demo_saved_def)
  then show ?thesis by (rule saved_wiring_reaches_proxy[OF s])
qed

lemma remove_first: "remove_rows {0} (a # rest) = rest"
proof -
  have "filter (\<lambda>i. i \<notin> {0}) [0..<Suc (length rest)] = map Suc [0..<length rest]"
    by (simp add: upt_conv_Cons map_Suc_upt filter_id_conv del: upt_Suc)
  then show ?thesis by (simp add: remove_rows_def map_nth comp_def del: upt_Suc)
qed

text \<open>
  The buttons of the wiring table remember the row they were created in: after the first row is
  removed, the button of the new first row probes the second one.
\<close>
theorem stale_check_button:
  assumes "2 \<le> length rows" and "\<forall>i < length rows. wr_button (rows ! i) = i"
  shows "press_check net 0 (remove_rows {0} rows) = test_backend net 1 (remove_rows {0} rows)"
proof -
  obtain a c rest where rows: "rows = a # c # rest"
    using assms(1) by (cases rows; cases "tl rows") auto
  have "wr_button c = 1" using assms(2)[rule_format, of 1] by (simp add: rows)
  then show ?thesis by (simp add: press_check_def rows remove_first)
qed

theorem stale_check_button_witness:
  "press_check net 0 (remove_rows {0} (add_backend_row ''b'' ''h2'' ''9001'' ''z'' (add_backend_row ''a'' ''h1'' ''9000'' ''z'' []))) =
   test_backend net 1 (remove_rows {0} (add_backend_row ''b'' ''h2'' ''9001'' ''z'' (add_backend_row ''a'' ''h1'' ''9000'' ''z'' [])))"
  by (rule stale_check_button) (auto simp: add_backend_row_def nth_Cons split: nat.splits)

section \<open>The life of the stack\<close>

datatype desktop_event =
    Start start_inputs
  | Stop "string \<Rightarrow> bool"
  | Poll "snapshot option"
  | Exits nat \<comment> \<open>a process of the stack exits by itself\<close>
  | Edit "wiring_row list"
  | Tick bool bool bool \<comment> \<open>the check boxes\<close>

definition process_exits :: "nat \<Rightarrow> desktop \<Rightarrow> desktop" where
  "process_exits k s =
     (if k < length (dk_processes s)
      then s\<lparr>dk_processes := (dk_processes s)[k := (fst (dk_processes s ! k), False)]\<rparr> else s)"

fun desktop_apply :: "desktop \<Rightarrow> desktop_event \<Rightarrow> desktop" where
  "desktop_apply s (Start inp) = start_stack inp s"
| "desktop_apply s (Stop stubborn) = fst (stop_stack stubborn s)"
| "desktop_apply s (Poll reply) = poll_status reply s"
| "desktop_apply s (Exits k) = process_exits k s"
| "desktop_apply s (Edit rows) = s\<lparr>dk_rows := rows\<rparr>"
| "desktop_apply s (Tick m l d) = s\<lparr>dk_managed_backends := m, dk_loadgen := l, dk_dashboard := d\<rparr>"

definition stack_ok :: "desktop \<Rightarrow> bool" where
  "stack_ok s \<longleftrightarrow> distinct (map fst (dk_processes s)) \<and>
     set (map fst (dk_processes s)) \<subseteq> {''backends'', ''proxy'', ''loadgen'', ''dashboard''} \<and>
     (dk_processes s \<noteq> [] \<longrightarrow> dk_runtime_started s)"

lemma drop_first_dead_sublist: "set (drop_first_dead ps) \<subseteq> set ps \<and>
    (distinct (map fst ps) \<longrightarrow> distinct (map fst (drop_first_dead ps)))"
  by (induction ps rule: drop_first_dead.induct) auto

lemma save_wiring_keeps:
  "dk_processes (fst (save_wiring y p w s)) = dk_processes s \<and>
   dk_runtime_started (fst (save_wiring y p w s)) = dk_runtime_started s \<and>
   dk_managed_backends (fst (save_wiring y p w s)) = dk_managed_backends s \<and>
   dk_loadgen (fst (save_wiring y p w s)) = dk_loadgen s \<and> dk_dashboard (fst (save_wiring y p w s)) = dk_dashboard s"
  by (simp add: save_wiring_def split: sum.split save_outcome.split)

lemma plans_ok: "distinct (plans s)" "set (plans s) \<subseteq> {''backends'', ''proxy'', ''loadgen'', ''dashboard''}"
  by (auto simp: plans_def)

lemma start_stack_cases:
  "(dk_processes (start_stack inp s) = dk_processes s \<and> dk_runtime_started (start_stack inp s) = dk_runtime_started s) \<or>
   (dk_processes s = [] \<and> dk_processes (start_stack inp s) = map (\<lambda>name. (name, True)) (plans s) \<and>
    dk_runtime_started (start_stack inp s))"
proof -
  obtain t b where t: "save_wiring (sn_yaml inp) (sn_parses inp) (sn_saving inp) s = (t, b)" by fastforce
  have "dk_processes t = dk_processes s" "dk_runtime_started t = dk_runtime_started s" "plans t = plans s"
    using save_wiring_keeps[of "sn_yaml inp" "sn_parses inp" "sn_saving inp" s] by (simp_all add: t plans_def)
  then show ?thesis by (simp add: start_stack_def t)
qed

lemma desktop_apply_ok:
  assumes "stack_ok s"
  shows "stack_ok (desktop_apply s e)"
proof (cases e)
  case (Start inp)
  show ?thesis
    using start_stack_cases[of inp s]
  proof
    assume "dk_processes (start_stack inp s) = dk_processes s \<and> dk_runtime_started (start_stack inp s) = dk_runtime_started s"
    then show ?thesis using assms by (simp add: Start stack_ok_def)
  next
    assume "dk_processes s = [] \<and> dk_processes (start_stack inp s) = map (\<lambda>name. (name, True)) (plans s) \<and>
      dk_runtime_started (start_stack inp s)"
    then show ?thesis using plans_ok[of s] by (simp add: Start stack_ok_def comp_def)
  qed
next
  case (Poll reply)
  have "stack_ok (watchdog s)"
    using assms drop_first_dead_sublist[of "dk_processes s"] by (fastforce simp: stack_ok_def watchdog_def)
  then show ?thesis by (auto simp: Poll poll_status_def Let_def stack_ok_def split: option.split sum.split)
next
  case (Exits k)
  have "map fst (dk_processes (process_exits k s)) = map fst (dk_processes s)"
  proof (cases "k < length (dk_processes s)")
    case True
    then have "(map fst (dk_processes s))[k := fst (dk_processes s ! k)] = map fst (dk_processes s)"
      by (metis list_update_id nth_map)
    then show ?thesis using True by (simp add: process_exits_def map_update)
  qed (simp add: process_exits_def)
  moreover have "(dk_processes (process_exits k s) = []) = (dk_processes s = [])" by (simp add: process_exits_def)
  moreover have "dk_runtime_started (process_exits k s) = dk_runtime_started s" by (simp add: process_exits_def)
  ultimately show ?thesis using assms by (simp add: Exits stack_ok_def)
qed (use assms in \<open>simp_all add: stack_ok_def stop_stack_def\<close>)

lemma desktop_run_ok: "stack_ok s \<Longrightarrow> stack_ok (foldl desktop_apply s es)"
  by (induction es arbitrary: s) (simp_all add: desktop_apply_ok)

text \<open>
  Whatever the user clicks and however processes exit, the application never runs two processes of
  one kind, runs nothing but the four it knows, and believes the stack is started while any
  process is listed; stopping leaves none, terminating exactly the ones still alive.
\<close>
theorem stack_never_doubled:
  assumes "dk_processes s = []"
  shows "distinct (map fst (dk_processes (foldl desktop_apply s es))) \<and>
    set (map fst (dk_processes (foldl desktop_apply s es))) \<subseteq> {''backends'', ''proxy'', ''loadgen'', ''dashboard''} \<and>
    (dk_processes (foldl desktop_apply s es) \<noteq> [] \<longrightarrow> dk_runtime_started (foldl desktop_apply s es)) \<and>
    dk_processes (fst (stop_stack stubborn (foldl desktop_apply s es))) = [] \<and>
    map fst (snd (stop_stack stubborn (foldl desktop_apply s es))) =
      map fst (filter snd (dk_processes (foldl desktop_apply s es)))"
proof -
  have "stack_ok s" using assms by (simp add: stack_ok_def)
  from desktop_run_ok[OF this, of es] show ?thesis
    by (simp add: stack_ok_def stop_stack_def comp_def case_prod_beta')
qed

theorem stack_never_doubled_witness:
  "distinct (map fst (dk_processes (foldl desktop_apply demo_desktop
     [Start \<lparr>sn_free = (\<lambda>p. True), sn_yaml = True, sn_parses = True, sn_saving = Writes, sn_confirms = True\<rparr>,
      Exits 1, Poll None, Stop (\<lambda>n. False)])))"
proof -
  have "dk_processes demo_desktop = []" by (simp add: demo_desktop_def)
  then show ?thesis by (rule stack_never_doubled[THEN conjunct1])
qed

lemma drop_first_dead_alive: "\<forall>p \<in> set ps. snd p \<Longrightarrow> drop_first_dead ps = ps"
  by (induction ps rule: drop_first_dead.induct) auto

lemma drop_first_dead_filter: "filter snd (drop_first_dead ps) = filter snd ps"
  by (induction ps rule: drop_first_dead.induct) auto

lemma drop_first_dead_count:
  "length (filter (\<lambda>p. \<not> snd p) (drop_first_dead ps)) = length (filter (\<lambda>p. \<not> snd p) ps) - 1"
  by (induction ps rule: drop_first_dead.induct) auto

text \<open>
  The watchdog forgets one exited process per poll: as many polls as there are exited processes
  leave exactly the running ones, and more polls change nothing.
\<close>
theorem watchdog_clears_exited:
  assumes "length (filter (\<lambda>p. \<not> snd p) (dk_processes s)) \<le> n"
  shows "dk_processes ((watchdog ^^ n) s) = filter snd (dk_processes s)"
proof -
  have keep: "filter snd (dk_processes ((watchdog ^^ k) s)) = filter snd (dk_processes s) \<and>
    length (filter (\<lambda>p. \<not> snd p) (dk_processes ((watchdog ^^ k) s))) = length (filter (\<lambda>p. \<not> snd p) (dk_processes s)) - k" for k
    by (induction k) (simp_all add: watchdog_def drop_first_dead_filter drop_first_dead_count)
  have "length (filter (\<lambda>p. \<not> snd p) (dk_processes ((watchdog ^^ n) s))) = 0" using keep[of n] assms by linarith
  then have "filter snd (dk_processes ((watchdog ^^ n) s)) = dk_processes ((watchdog ^^ n) s)"
    by (simp add: filter_empty_conv filter_id_conv)
  then show ?thesis using keep by simp
qed

theorem watchdog_clears_exited_witness:
  "dk_processes ((watchdog ^^ 2) (demo_desktop\<lparr>dk_processes := [(''backends'', False), (''proxy'', True), (''loadgen'', False)]\<rparr>)) =
    [(''proxy'', True)]"
  using watchdog_clears_exited[of "demo_desktop\<lparr>dk_processes := [(''backends'', False), (''proxy'', True), (''loadgen'', False)]\<rparr>" 2]
  by simp

text \<open>
  After the proxy has exited while anything else of the stack runs, the start button does nothing:
  only stopping the whole stack brings the proxy back.
\<close>
theorem crashed_proxy_not_restarted:
  assumes "dk_processes s = (''proxy'', False) # rest" and "rest \<noteq> []"
  shows "start_stack inp (watchdog s) = watchdog s"
  using assms by (simp add: start_stack_def watchdog_def)

theorem crashed_proxy_not_restarted_witness:
  "start_stack inp (watchdog (demo_desktop\<lparr>dk_processes := [(''proxy'', False), (''loadgen'', True)]\<rparr>)) =
    watchdog (demo_desktop\<lparr>dk_processes := [(''proxy'', False), (''loadgen'', True)]\<rparr>)"
  by (rule crashed_proxy_not_restarted[of _ "[(''loadgen'', True)]"]) simp_all

text \<open>
  On any snapshot the proxy can publish, the status view renders and shows one row per backend
  name, the number of healthy backends and an error percentage between 0 and 100.
\<close>
theorem status_view_renders:
  assumes "metrics_ok m" and "length (ms_names m) = ms_n m"
  shows "\<exists>k rows. render_snapshot (snapshot_of m ts) = Inr (k, rows) \<and> length rows = ms_n m \<and>
    kv_healthy k = n_up (ms_health m) \<and> kv_backends k = ms_n m \<and> 0 \<le> kv_err_pct k \<and> kv_err_pct k \<le> 100 \<and>
    (\<forall>i < ms_n m. bv_up (rows ! i) = ms_health m ! i \<and> 0 \<le> bv_load_pct (rows ! i) \<and> bv_load_pct (rows ! i) \<le> 100 \<and>
      bv_requests (rows ! i) = ms_total_req m ! i)"
proof -
  define req err where "req = ms_total_req m" and "err = ms_total_err m"
  have lens: "length req = ms_n m" "length err = ms_n m" "length (ms_health m) = ms_n m" "ms_rps_hist m \<noteq> []"
    using assms(1) by (auto simp: req_def err_def metrics_ok_def HISTORY_LEN_def)
  have "\<forall>i < length req. err ! i \<le> req ! i" using assms(1) lens(1) by (simp add: req_def err_def metrics_ok_def)
  then have "sum_list err \<le> sum_list req"
    using lens(1,2) sum_list_mono2[of err req] by simp
  then have pct: "0 < sum_list req \<Longrightarrow> 0 \<le> real (sum_list err) / real (sum_list req) * 100 \<and>
      real (sum_list err) / real (sum_list req) * 100 \<le> 100"
    by (intro percent_range) simp_all
  have load: "0 \<le> last_or_zero (ms_load_hist m) i \<and> last_or_zero (ms_load_hist m) i \<le> 1" if "i < ms_n m" for i
  proof -
    have "unit_rows (ms_n m) HISTORY_LEN (ms_load_hist m)" by (rule metrics_okD[OF assms(1)])
    then have "ms_load_hist m ! i \<in> set (ms_load_hist m)" "\<forall>row \<in> set (ms_load_hist m). \<forall>x \<in> set row. 0 \<le> x \<and> x \<le> 1"
      using that by (simp_all add: unit_rows_def)
    then show ?thesis using last_in_set by (auto simp: last_or_zero_def)
  qed
  show ?thesis
    using lens pct load assms(2) by (simp add: render_snapshot_def snapshot_of_def Let_def req_def err_def nth_or_zero_def)
qed

theorem status_view_renders_witness:
  "\<exists>k rows. render_snapshot (snapshot_of (metrics_init 3 None None) 0) = Inr (k, rows) \<and> length rows = 3"
  using status_view_renders[OF metrics_init_ok[of 3 None None], of 0] by (auto simp: metrics_init_def or_default_def)

end
