(* ===== verification/Dashboard_Page.thy ===== *)
theory Dashboard_Page
  imports Dashboard_View Observability
begin

text \<open>
  The page of \<open>dashboard/app.py\<close>, tab by tab: what is shown of the data of \<open>Dashboard_View\<close>, and
  when building the page raises. A number is shown with its decimals and its suffix; fonts,
  sizes, fixed texts and the drawing of charts are left out. A colour is its key in the
  palette of the page; the colour of a target is taken from a fixed series of eight.
\<close>

section \<open>Palette and cells\<close>

definition C_series :: "string list" where
  "C_series = [''#3D8EF0'', ''#2DD4AA'', ''#F0A500'', ''#F06080'', ''#9B7CF8'', ''#38BDF8'', ''#FB7185'', ''#A3E635'']"

datatype hue = Blue | Green_h | Amber_h | Red_h | Purple | Dim | Muted_h | Text_h | Target string

datatype cell =
    Txt string
  | Num nat real string \<comment> \<open>decimals, value and suffix\<close>
  | Whole int

definition cols :: "view_data \<Rightarrow> string list" where
  "cols b = take (bu_N b) C_series"

definition target_hue :: "view_data \<Rightarrow> nat \<Rightarrow> py_err + hue" where
  \<comment> \<open>\<open>COLS[i]\<close>\<close>
  "target_hue b i = bindE (py_get (cols b) (int i)) (\<lambda>c. Inr (Target c))"

definition target_name :: "view_data \<Rightarrow> nat \<Rightarrow> py_err + string" where
  "target_name b i = py_get (bu_names b) (int i)"

definition for_targets :: "view_data \<Rightarrow> (nat \<Rightarrow> py_err + 'a) \<Rightarrow> py_err + 'a list" where
  \<comment> \<open>\<open>for i in range(N)\<close>\<close>
  "for_targets b f = mapE f [0..<bu_N b]"

section \<open>Header\<close>

record page_header =
  hd_live :: bool
  hd_targets :: nat
  hd_total_reqs :: int
  hd_sla :: "cell \<times> hue"
  hd_status :: status

definition header_of :: "view_data \<Rightarrow> page_header" where
  "header_of b =
     \<lparr>hd_live = bu_live b, hd_targets = bu_N b, hd_total_reqs = in_total_reqs (indicators_of b),
      hd_sla = (Num 2 (bu_sla_pct b) ''%'', if bu_sla_pct b > 99 then Green_h else Amber_h),
      hd_status = overall_status b\<rparr>"

definition mode_banner :: "view_data \<Rightarrow> real \<Rightarrow> (cell \<times> nat) option" where
  \<comment> \<open>the age of the data and the tick, when live\<close>
  "mode_banner b now = (case bu_proxy_ts b of Some ts \<Rightarrow> Some (Num 1 (now - ts) ''s'', bu_tick b) | None \<Rightarrow> None)"

section \<open>Overview tab\<close>

datatype kpi_note = Change trend | All_passing | Some_unhealthy nat

record kpi =
  kp_value :: "cell list"
  kp_note :: kpi_note
  kp_accent :: hue
  kp_spark :: "(real \<times> real) list"

definition target_means :: "nat \<Rightarrow> real list list \<Rightarrow> real list" where
  \<comment> \<open>\<open>rows[:, -k:].mean(axis=0)\<close>\<close>
  "target_means k rows =
     (let rows = map (last_n k) rows
      in map (\<lambda>t. vmean (map (\<lambda>row. row ! t) rows)) [0..<(case rows of [] \<Rightarrow> 0 | row # _ \<Rightarrow> length row)])"

definition kpis :: "view_data \<Rightarrow> kpi list" where
  "kpis b =
     (let k = indicators_of b; spark = (\<lambda>data. sparkline data 70 20)
      in [\<lparr>kp_value = [Num 0 (in_cur_rps k) []], kp_note = Change (delta_of (in_cur_rps k) (in_prev_rps k) False),
           kp_accent = Blue, kp_spark = spark (last_n 30 (bu_rps b))\<rparr>,
          \<lparr>kp_value = [Num 0 (in_avg_lat k) '' ms''], kp_note = Change (delta_of (in_avg_lat k) (in_avg_latp k) True),
           kp_accent = Purple, kp_spark = spark (target_means 30 (bu_lat b))\<rparr>,
          \<lparr>kp_value = [Num 2 (in_avg_err k) ''%''], kp_note = Change (delta_of (in_avg_err k) (in_avg_errp k) True),
           kp_accent = Amber_h, kp_spark = spark (map (\<lambda>e. e * 100) (target_means 30 (bu_err b)))\<rparr>,
          \<lparr>kp_value = [Whole (int (in_n_up k)), Whole (int (bu_N b))],
           kp_note = (if in_n_up k = bu_N b then All_passing else Some_unhealthy (bu_N b - in_n_up k)),
           kp_accent = Green_h, kp_spark = spark (replicate 30 (real (in_n_up k)))\<rparr>])"

record gauge =
  gg_value :: real
  gg_reference :: real
  gg_hue :: hue
  gg_title :: "string \<times> cell \<times> cell" \<comment> \<open>name, latency and error rate\<close>

definition gauge_of :: "view_data \<Rightarrow> nat \<Rightarrow> py_err + gauge" where
  "gauge_of b i =
     (let lv = from_end 1 (bu_load b ! i) * 100;
          latv = from_end 1 (bu_lat b ! i);
          ev = from_end 1 (bu_err b ! i) * 100
      in bindE (if lv < 80 then target_hue b i else Inr Red_h) (\<lambda>col_g.
           let (lv, col_g) = (if bu_health b ! i then (lv, col_g) else (0, Dim));
               ref = (if bu_tick b > 10 then from_end 10 (bu_load b ! i) * 100 else lv)
           in bindE (target_name b i) (\<lambda>name.
                Inr \<lparr>gg_value = lv, gg_reference = ref, gg_hue = col_g,
                     gg_title = (take 12 name, Num 0 latv ''ms'', Num 2 ev ''%'')\<rparr>)))"

record chart_series =
  cs_name :: string
  cs_y :: "real list"
  cs_hue :: hue
  cs_faded :: bool

definition series_of :: "view_data \<Rightarrow> nat \<Rightarrow> real list \<Rightarrow> bool \<Rightarrow> py_err + chart_series" where
  "series_of b i y faded =
     bindE (target_name b i) (\<lambda>name. bindE (target_hue b i) (\<lambda>c.
       Inr \<lparr>cs_name = name, cs_y = y, cs_hue = c, cs_faded = faded\<rparr>))"

definition utilisation_chart :: "view_data \<Rightarrow> py_err + chart_series list" where
  "utilisation_chart b = for_targets b (\<lambda>i. series_of b i (map (\<lambda>x. x * 100) (bu_load b ! i)) (\<not> bu_health b ! i))"

definition latency_chart :: "view_data \<Rightarrow> py_err + chart_series list" where
  \<comment> \<open>healthy targets only\<close>
  "latency_chart b = mapE (\<lambda>i. series_of b i (bu_lat b ! i) False) (filter (\<lambda>i. bu_health b ! i) [0..<bu_N b])"

record target_row =
  tr_name :: string
  tr_zone :: string
  tr_status :: status
  tr_bar :: "real \<times> cell \<times> hue" \<comment> \<open>width, number and colour of the bar\<close>
  tr_latency :: "cell option" \<comment> \<open>\<open>None\<close> prints as a dash\<close>
  tr_error :: "cell \<times> hue"
  tr_vnodes :: cell
  tr_rate_cap :: cell
  tr_cbf :: cbf_label
  tr_requests :: cell

definition target_row_of :: "view_data \<Rightarrow> nat \<Rightarrow> py_err + target_row" where
  "target_row_of b i =
     (let lv = from_end 1 (bu_load b ! i) * 100;
          latv = from_end 1 (bu_lat b ! i);
          ev = from_end 1 (bu_err b ! i) * 100
      in bindE (target_name b i) (\<lambda>name. bindE (py_get (bu_zones b) (int i)) (\<lambda>zone. bindE (target_hue b i) (\<lambda>c.
           Inr \<lparr>tr_name = name, tr_zone = zone, tr_status = target_status b i, tr_bar = (bar_width lv, Num 1 lv ''%'', c),
                tr_latency = (if bu_health b ! i then Some (Num 0 latv '' ms'') else None),
                tr_error = (Num 2 ev ''%'', if ev > 1 then Red_h else Text_h),
                tr_vnodes = Whole (py_int (bu_vnodes b ! i)), tr_rate_cap = Num 0 (bu_rl b ! i) [],
                tr_cbf = cbf_label_of b i, tr_requests = Num 1 (real_of_int (bu_treq b ! i) / 1000) ''K''\<rparr>))))"

record overview_tab =
  ov_banner :: "(cell \<times> nat) option"
  ov_kpis :: "kpi list"
  ov_gauges :: "gauge list"
  ov_rps :: "(int \<times> real) list"
  ov_log :: "(log_line \<times> colour) list"
  ov_utilisation :: "chart_series list"
  ov_latency :: "chart_series list"
  ov_targets :: "target_row list"

definition rps_chart :: "view_data \<Rightarrow> (int \<times> real) list" where
  \<comment> \<open>against \<open>ts_ax\<close>, the seconds back from now\<close>
  "rps_chart b = zip (map (\<lambda>k. int k - int (bu_H b) + 1) [0..<bu_H b]) (bu_rps b)"

definition overview_of :: "view_data \<Rightarrow> real \<Rightarrow> py_err + overview_tab" where
  "overview_of b now =
     bindE (for_targets b (gauge_of b)) (\<lambda>gauges.
     bindE (utilisation_chart b) (\<lambda>util.
     bindE (latency_chart b) (\<lambda>lats.
     bindE (for_targets b (target_row_of b)) (\<lambda>rows.
       Inr \<lparr>ov_banner = mode_banner b now, ov_kpis = kpis b, ov_gauges = gauges, ov_rps = rps_chart b,
            ov_log = log_rows (bu_logs b) 60, ov_utilisation = util, ov_latency = lats, ov_targets = rows\<rparr>))))"

section \<open>Routing policy tab\<close>

definition weight_chart :: "view_data \<Rightarrow> py_err + chart_series list" where
  \<comment> \<open>row \<open>i\<close> of \<open>wh\<close>, whose columns are \<open>weight_history\<close>, in percent\<close>
  "weight_chart b = for_targets b (\<lambda>i. series_of b i (map (\<lambda>ti. weight_history b ti ! i * 100) [0..<bu_H b]) False)"

record equation_row =
  eq_name :: string
  eq_terms :: "cell list" \<comment> \<open>load, latency in seconds, error rate, health\<close>
  eq_weight :: "cell \<times> hue"
  eq_margin :: "cell \<times> hue"
  eq_cbf :: cbf_label

definition equation_row_of :: "view_data \<Rightarrow> nat \<Rightarrow> py_err + equation_row" where
  "equation_row_of b i =
     bindE (target_name b i) (\<lambda>name. bindE (target_hue b i) (\<lambda>c.
       Inr \<lparr>eq_name = name,
            eq_terms = [Num 3 (from_end 1 (bu_load b ! i)) [], Num 3 (from_end 1 (bu_lat b ! i) / 1000) [],
                        Num 4 (from_end 1 (bu_err b ! i)) [], Whole (if bu_health b ! i then 1 else 0)],
            eq_weight = (Num 4 (displayed_weight b i) [], c),
            eq_margin = (Num 1 (margin b i * 100) ''%'', if margin b i < 0 then Red_h else Muted_h),
            eq_cbf = cbf_label_of b i\<rparr>))"

record ring_row =
  rg_name :: string
  rg_share :: real \<comment> \<open>of the ring, in percent: the number and the width of the bar\<close>
  rg_hue :: hue
  rg_vnodes :: cell

definition ring_row_of :: "view_data \<Rightarrow> nat \<Rightarrow> py_err + ring_row" where
  "ring_row_of b i =
     bindE (target_name b i) (\<lambda>name. bindE (target_hue b i) (\<lambda>c.
       Inr \<lparr>rg_name = take 12 name, rg_share = shares (bu_vnodes b) ! i * 100, rg_hue = c,
            rg_vnodes = Whole (py_int (bu_vnodes b ! i))\<rparr>))"

definition balance_hue :: "real \<Rightarrow> hue" where
  "balance_hue bf = (if bf \<le> 11/10 then Green_h else if bf \<le> 13/10 then Amber_h else Red_h)"

record routing_tab =
  rt_weights :: "chart_series list"
  rt_equations :: "equation_row list"
  rt_pie :: "real list \<times> string list \<times> string list" \<comment> \<open>values, labels and colours\<close>
  rt_pie_text :: "nat \<times> nat"
  rt_ring :: "ring_row list"
  rt_balance :: "cell \<times> hue"
  rt_proactive :: bool

definition pie_of :: "view_data \<Rightarrow> real list \<times> string list \<times> string list" where
  "pie_of b = (map (\<lambda>x. x * 100) (shares (bu_vnodes b)), bu_names b, cols b)"

definition routing_of :: "view_data \<Rightarrow> py_err + routing_tab" where
  "routing_of b =
     bindE (weight_chart b) (\<lambda>wts.
     bindE (for_targets b (equation_row_of b)) (\<lambda>eqs.
     bindE (for_targets b (ring_row_of b)) (\<lambda>ring.
       Inr \<lparr>rt_weights = wts, rt_equations = eqs,
            rt_pie = pie_of b,
            rt_pie_text = (n_up (bu_health b), bu_N b), rt_ring = ring,
            rt_balance = (Num 3 (balance_factor b) [], balance_hue (balance_factor b)),
            rt_proactive = bu_proactive b\<rparr>)))"

section \<open>Rate control tab\<close>

definition rate_hue :: "rate_label \<Rightarrow> hue" where
  "rate_hue l = (case l of Throttling \<Rightarrow> Red_h | Holding \<Rightarrow> Amber_h | Expanding \<Rightarrow> Green_h)"

record rate_widget =
  rw_name :: string
  rw_hue :: hue
  rw_arrivals :: cell
  rw_cap :: cell
  rw_bar :: cell
  rw_label :: "rate_label \<times> hue"

definition rate_widget_of :: "view_data \<Rightarrow> nat \<Rightarrow> py_err + rate_widget" where
  "rate_widget_of b i =
     (case rate_card b (in_cur_rps (indicators_of b)) i of (arr, util, l) \<Rightarrow>
        bindE (target_hue b i) (\<lambda>c. bindE (target_name b i) (\<lambda>name.
          Inr \<lparr>rw_name = take 14 name, rw_hue = c, rw_arrivals = Num 0 arr [], rw_cap = Num 0 (bu_rl b ! i) '' rps'',
               rw_bar = Num 1 (util * 100) ''%'', rw_label = (l, rate_hue l)\<rparr>)))"

record rate_tab =
  ra_cards :: "rate_widget list"
  ra_utilisation :: "chart_series list"

definition rate_tab_of :: "view_data \<Rightarrow> py_err + rate_tab" where
  "rate_tab_of b =
     bindE (for_targets b (rate_widget_of b)) (\<lambda>cards.
     bindE (for_targets b (\<lambda>i. series_of b i (bucket_utilisation b i) False)) (\<lambda>util.
       Inr \<lparr>ra_cards = cards, ra_utilisation = util\<rparr>))"

section \<open>Health checks tab\<close>

record health_card =
  hc_name :: string
  hc_status :: "status \<times> hue"
  hc_latency :: "cell option"
  hc_error :: "cell \<times> hue"
  hc_utilisation :: "cell \<times> hue"

definition status_hue :: "status \<Rightarrow> hue" where
  "status_hue st = (case st of Healthy \<Rightarrow> Green_h | Degraded \<Rightarrow> Amber_h | _ \<Rightarrow> Red_h)"

definition health_card_of :: "view_data \<Rightarrow> nat \<Rightarrow> py_err + health_card" where
  "health_card_of b i =
     (let lv4 = from_end 1 (bu_lat b ! i);
          ev4 = from_end 1 (bu_err b ! i) * 100;
          uv4 = from_end 1 (bu_load b ! i) * 100
      in bindE (target_name b i) (\<lambda>name.
           Inr \<lparr>hc_name = name, hc_status = (target_status b i, status_hue (target_status b i)),
                hc_latency = (if bu_health b ! i then Some (Num 0 lv4 '' ms'') else None),
                hc_error = (Num 2 ev4 ''%'', if ev4 > 1 then Red_h else Text_h),
                hc_utilisation = (Num 1 uv4 ''%'', if uv4 > 80 then Red_h else Text_h)\<rparr>))"

record percentile_bars =
  pb_names :: "string list"
  pb_p50 :: "real list"
  pb_p95 :: "real list"
  pb_p99 :: "real list"

definition percentile_bars_of :: "view_data \<Rightarrow> percentile_bars" where
  "percentile_bars_of b =
     (let ps = map (latency_percentiles b) [0..<bu_N b]
      in \<lparr>pb_names = bu_names b, pb_p50 = map fst ps, pb_p95 = map (fst \<circ> snd) ps, pb_p99 = map (snd \<circ> snd) ps\<rparr>)"

definition heatmap :: "view_data \<Rightarrow> real list list \<times> string list" where
  "heatmap b = (map (last_n 60) (bu_lat b), map (take 10) (bu_names b))"

record probe_line =
  pl_probe :: probe_row
  pl_name :: string
  pl_zone :: string
  pl_error :: cell

definition probe_lines_of :: "view_data \<Rightarrow> nat \<Rightarrow> py_err + probe_line list" where
  "probe_lines_of b i =
     bindE (target_name b i) (\<lambda>name. bindE (py_get (bu_zones b) (int i)) (\<lambda>zone.
       Inr (map2 (\<lambda>j p. \<lparr>pl_probe = p, pl_name = name, pl_zone = zone,
                          pl_error = Num 2 (from_end (1 + j) (bu_err b ! i) * 100) ''%''\<rparr>) [0..<5] (probe_rows b i))))"

record health_tab =
  ht_cards :: "health_card list"
  ht_percentiles :: percentile_bars
  ht_heatmap :: "real list list \<times> string list"
  ht_probes :: "probe_line list"

definition health_tab_of :: "view_data \<Rightarrow> py_err + health_tab" where
  "health_tab_of b =
     bindE (for_targets b (health_card_of b)) (\<lambda>cards.
     bindE (for_targets b (probe_lines_of b)) (\<lambda>probes.
       Inr \<lparr>ht_cards = cards, ht_percentiles = percentile_bars_of b, ht_heatmap = heatmap b, ht_probes = concat probes\<rparr>))"

section \<open>Setup tab\<close>

datatype connection = Connected cell nat int | Not_running \<comment> \<open>age of the data, tick and requests so far\<close>

definition connection_of :: "view_data \<Rightarrow> real \<Rightarrow> connection" where
  "connection_of b now =
     (case bu_proxy_ts b of
        Some ts \<Rightarrow> Connected (Num 1 (now - ts) ''s'') (bu_tick b) (in_total_reqs (indicators_of b))
      | None \<Rightarrow> Not_running)"

datatype 'a export = Enabled "'a option" | Unavailable \<comment> \<open>with the port or the endpoint shown in the hint\<close>

record setup_tab =
  se_connection :: connection
  se_metrics :: "int export"
  se_tracing :: "string export"
  se_ring_vnodes :: cell
  se_cbf_firing :: bool
  se_proactive :: bool

definition setup_of :: "view_data \<Rightarrow> obs_status \<Rightarrow> real \<Rightarrow> setup_tab" where
  "setup_of b obs now =
     \<lparr>se_connection = connection_of b now,
      se_metrics = (if os_metrics_available obs then Enabled (os_metrics_port obs) else Unavailable),
      se_tracing = (if os_tracing_available obs then Enabled (os_otel_endpoint obs) else Unavailable),
      se_ring_vnodes = Whole (py_int (sum_list (bu_vnodes b))),
      se_cbf_firing = (True \<in> set (bu_cbf b)), se_proactive = bu_proactive b\<rparr>"

section \<open>The page\<close>

record page =
  pg_header :: page_header
  pg_overview :: overview_tab
  pg_routing :: routing_tab
  pg_rate :: rate_tab
  pg_health :: health_tab
  pg_setup :: setup_tab

definition render :: "obs_env \<Rightarrow> view_data \<Rightarrow> real \<Rightarrow> obs_state \<Rightarrow> obs_state \<times> (py_err + page)" where
  \<comment> \<open>one run of the script: the gauges are pushed first, the export status is read by the last tab\<close>
  "render env b now s =
     (let s = update_metrics_from_state env b s
      in case bindE (overview_of b now) (\<lambda>ov. bindE (routing_of b) (\<lambda>rt. bindE (rate_tab_of b) (\<lambda>ra.
                bindE (health_tab_of b) (\<lambda>ht. Inr (ov, rt, ra, ht))))) of
           Inl e \<Rightarrow> (s, Inl e)
         | Inr (ov, rt, ra, ht) \<Rightarrow>
             (case get_observability_status env s of (s, obs) \<Rightarrow>
                (s, Inr \<lparr>pg_header = header_of b, pg_overview = ov, pg_routing = rt, pg_rate = ra, pg_health = ht,
                         pg_setup = setup_of b obs now\<rparr>)))"

definition script_run :: "obs_env \<Rightarrow> snapshot option \<Rightarrow> real \<Rightarrow> sim_draws \<Rightarrow> fault_panel \<Rightarrow>
    dash_session \<times> obs_state \<Rightarrow> (dash_session \<times> obs_state) \<times> (py_err + page)" where
  \<comment> \<open>the fault panel stands between the first two tabs, in demo mode; the page shows copies of the session\<close>
  "script_run env file now d panel st =
     (case load_data file now d (fst st) of
        (da, b) \<Rightarrow>
          let obs = fst (maybe_traced env (snd st));
              da = (if bu_live b then da
                    else case overview_of b now of
                           Inl _ \<Rightarrow> da
                         | Inr _ \<Rightarrow> da\<lparr>da_sim := map_option (\<lambda>s. apply_panel s panel) (da_sim da)\<rparr>)
          in case render env b now obs of (obs, pg) \<Rightarrow> ((da, obs), pg))"

section \<open>When the page is shown\<close>

definition only_index :: "py_err + 'a \<Rightarrow> bool" where
  "only_index r \<longleftrightarrow> (\<forall>e. r = Inl e \<longrightarrow> e = IndexError)"

lemma only_index_Inr [simp]: "only_index (Inr x)"
  by (simp add: only_index_def)

lemma only_index_bind: "only_index r \<Longrightarrow> (\<And>x. only_index (k x)) \<Longrightarrow> only_index (bindE r k)"
  by (cases r) (simp_all add: only_index_def)

lemma only_index_get: "only_index (py_get xs i)"
  by (simp add: only_index_def py_get_def split: option.split)

lemma only_index_mapE: "(\<And>x. only_index (f x)) \<Longrightarrow> only_index (mapE f xs)"
  by (induction xs) (simp_all add: only_index_bind)

lemma mapE_stuck:
  "(\<And>x. only_index (f x)) \<Longrightarrow> x \<in> set xs \<Longrightarrow> f x = Inl IndexError \<Longrightarrow> mapE f xs = Inl IndexError"
proof (induction xs)
  case (Cons y ys)
  show ?case
  proof (cases "f y")
    case (Inl e)
    then show ?thesis using Cons.prems(1)[of y] by (simp add: only_index_def)
  next
    case (Inr z)
    then have "x \<in> set ys" using Cons.prems(2,3) by auto
    then show ?thesis using Cons.IH Cons.prems Inr by simp
  qed
qed simp

lemma only_index_hue: "only_index (target_hue b i)"
  unfolding target_hue_def by (rule only_index_bind[OF only_index_get]) simp

lemma only_index_name: "only_index (target_name b i)"
  unfolding target_name_def by (rule only_index_get)

lemmas only_index_intros = only_index_bind only_index_hue only_index_name only_index_get only_index_mapE only_index_Inr

lemma only_index_series: "only_index (series_of b i y faded)"
  unfolding series_of_def by (intro only_index_intros)

lemma only_index_gauge: "only_index (gauge_of b i)"
  unfolding gauge_of_def Let_def by (auto intro!: only_index_intros simp: split_beta)

lemma only_index_row: "only_index (target_row_of b i)"
  unfolding target_row_of_def Let_def by (intro only_index_intros)

lemma bind_index: "only_index r \<Longrightarrow> bindE r (\<lambda>_. Inl IndexError) = Inl IndexError"
  by (cases r) (simp_all add: only_index_def)

lemma ninth_row: "8 \<le> i \<Longrightarrow> target_row_of b i = Inl IndexError"
proof -
  assume "8 \<le> i"
  then have "target_hue b i = Inl IndexError"
    by (simp add: target_hue_def py_get_def py_index_def cols_def C_series_def)
  then show ?thesis
    unfolding target_row_of_def Let_def by (simp add: bind_index only_index_get only_index_name)
qed

lemma nine_targets: "8 < bu_N b \<Longrightarrow> overview_of b now = Inl IndexError"
proof -
  assume n: "8 < bu_N b"
  have rows: "for_targets b (target_row_of b) = Inl IndexError"
    unfolding for_targets_def by (rule mapE_stuck[OF only_index_row, of 8]) (use n ninth_row[of 8 b] in simp_all)
  have "only_index (overview_of b now)"
    unfolding overview_of_def for_targets_def utilisation_chart_def latency_chart_def
    by (intro only_index_intros only_index_gauge only_index_series only_index_row)
  moreover have "\<nexists>ov. overview_of b now = Inr ov"
    unfolding overview_of_def rows
    by (cases "for_targets b (gauge_of b)"; cases "utilisation_chart b"; cases "latency_chart b") simp_all
  ultimately show ?thesis by (cases "overview_of b now") (auto simp: only_index_def)
qed

definition page_fits :: "view_data \<Rightarrow> bool" where
  "page_fits b \<longleftrightarrow> bu_N b \<le> 8 \<and> length (bu_names b) = bu_N b \<and> length (bu_zones b) = bu_N b"

lemma page_fits_get:
  assumes "page_fits b" and "i < bu_N b"
  shows "target_hue b i = Inr (Target (C_series ! i))" "target_name b i = Inr (bu_names b ! i)"
    "py_get (bu_zones b) (int i) = Inr (bu_zones b ! i)"
  using assms by (simp_all add: page_fits_def target_hue_def target_name_def cols_def C_series_def)

lemma mapE_ok:
  "(\<And>x. x \<in> set xs \<Longrightarrow> \<exists>y. f x = Inr y) \<Longrightarrow> \<exists>ys. mapE f xs = Inr ys"
  using mapE_total[of xs f "\<lambda>_. True"] by auto

lemma for_targets_ok:
  assumes "\<And>i. i < bu_N b \<Longrightarrow> \<exists>y. f i = Inr y \<and> P i y"
  shows "\<exists>ys. for_targets b f = Inr ys \<and> length ys = bu_N b \<and> (\<forall>i < bu_N b. P i (ys ! i))"
proof -
  obtain ys where ys: "mapE f [0..<bu_N b] = Inr ys" using mapE_ok[of "[0..<bu_N b]" f] assms by fastforce
  then have all2: "list_all2 (\<lambda>i y. f i = Inr y) [0..<bu_N b] ys" by (simp add: mapE_Inr_iff)
  then have len: "length ys = bu_N b" by (simp add: list_all2_lengthD[symmetric])
  have "P i (ys ! i)" if "i < bu_N b" for i
    using list_all2_nthD[OF all2, of i] assms[OF that] that by auto
  then show ?thesis using ys len by (auto simp: for_targets_def)
qed

lemma series_ok: "page_fits b \<Longrightarrow> i < bu_N b \<Longrightarrow> \<exists>c. series_of b i y faded = Inr c \<and> cs_y c = y"
  by (simp add: series_of_def page_fits_get)

lemma gauge_ok: "page_fits b \<Longrightarrow> i < bu_N b \<Longrightarrow> \<exists>g. gauge_of b i = Inr g \<and> (gg_value g, gg_reference g) = gauge_value b i"
  by (simp add: gauge_of_def page_fits_get gauge_value_def Let_def)

lemma row_ok: "page_fits b \<Longrightarrow> i < bu_N b \<Longrightarrow> \<exists>r. target_row_of b i = Inr r \<and> tr_name r = bu_names b ! i \<and> tr_status r = target_status b i"
  by (simp add: target_row_of_def page_fits_get Let_def)

lemma card_ok: "page_fits b \<Longrightarrow> i < bu_N b \<Longrightarrow> \<exists>c. health_card_of b i = Inr c \<and> hc_name c = bu_names b ! i \<and> fst (hc_status c) = target_status b i"
  by (simp add: health_card_of_def page_fits_get Let_def)

definition overview_shows :: "view_data \<Rightarrow> overview_tab \<Rightarrow> bool" where
  "overview_shows b ov \<longleftrightarrow> length (ov_gauges ov) = bu_N b \<and> length (ov_targets ov) = bu_N b \<and>
     (\<forall>i < bu_N b. gg_value (ov_gauges ov ! i) = fst (gauge_value b i) \<and>
        tr_name (ov_targets ov ! i) = bu_names b ! i \<and> tr_status (ov_targets ov ! i) = target_status b i)"

lemma overview_ok:
  assumes "page_fits b"
  shows "\<exists>ov. overview_of b now = Inr ov \<and> overview_shows b ov"
proof -
  obtain gs where gs: "for_targets b (gauge_of b) = Inr gs" "length gs = bu_N b"
      "\<forall>i < bu_N b. (gg_value (gs ! i), gg_reference (gs ! i)) = gauge_value b i"
    using for_targets_ok[of b "gauge_of b" "\<lambda>i g. (gg_value g, gg_reference g) = gauge_value b i"] gauge_ok[OF assms] by blast
  obtain util where util: "utilisation_chart b = Inr util"
    using for_targets_ok[of b _ "\<lambda>_ _. True"] series_ok[OF assms] unfolding utilisation_chart_def by (metis (no_types, lifting))
  obtain lats where lats: "latency_chart b = Inr lats"
    using mapE_ok[of "filter (\<lambda>i. bu_health b ! i) [0..<bu_N b]" "\<lambda>i. series_of b i (bu_lat b ! i) False"] series_ok[OF assms]
    unfolding latency_chart_def by fastforce
  obtain rs where rs: "for_targets b (target_row_of b) = Inr rs" "length rs = bu_N b"
      "\<forall>i < bu_N b. tr_name (rs ! i) = bu_names b ! i \<and> tr_status (rs ! i) = target_status b i"
    using for_targets_ok[of b "target_row_of b" "\<lambda>i r. tr_name r = bu_names b ! i \<and> tr_status r = target_status b i"]
      row_ok[OF assms] by blast
  have "\<forall>i < bu_N b. gg_value (gs ! i) = fst (gauge_value b i)" using gs(3) by (metis fst_conv)
  then show ?thesis using gs rs by (simp add: overview_of_def util lats overview_shows_def)
qed

lemma for_targets_some:
  "(\<And>i. i < bu_N b \<Longrightarrow> \<exists>y. f i = Inr y) \<Longrightarrow> \<exists>ys. for_targets b f = Inr ys"
  using for_targets_ok[of b f "\<lambda>_ _. True"] by auto

lemma charts_ok: "page_fits b \<Longrightarrow> \<exists>cs. for_targets b (\<lambda>i. series_of b i (y i) False) = Inr cs"
  by (intro for_targets_some) (auto dest: series_ok)

lemma routing_ok:
  assumes "page_fits b"
  shows "\<exists>rt. routing_of b = Inr rt"
proof -
  obtain wts where "weight_chart b = Inr wts"
    using charts_ok[OF assms, of "\<lambda>i. map (\<lambda>ti. weight_history b ti ! i * 100) [0..<bu_H b]"] unfolding weight_chart_def by auto
  moreover obtain eqs where "for_targets b (equation_row_of b) = Inr eqs"
    using for_targets_some[of b "equation_row_of b"] by (auto simp: equation_row_of_def page_fits_get[OF assms])
  moreover obtain ring where "for_targets b (ring_row_of b) = Inr ring"
    using for_targets_some[of b "ring_row_of b"] by (auto simp: ring_row_of_def page_fits_get[OF assms])
  ultimately show ?thesis by (simp add: routing_of_def)
qed

lemma rate_tab_ok:
  assumes "page_fits b"
  shows "\<exists>ra. rate_tab_of b = Inr ra"
proof -
  obtain cards where "for_targets b (rate_widget_of b) = Inr cards"
    using for_targets_some[of b "rate_widget_of b"] by (auto simp: rate_widget_of_def page_fits_get[OF assms] split_beta)
  moreover obtain util where "for_targets b (\<lambda>i. series_of b i (bucket_utilisation b i) False) = Inr util"
    using charts_ok[OF assms, of "bucket_utilisation b"] by auto
  ultimately show ?thesis by (simp add: rate_tab_of_def)
qed

definition health_shows :: "view_data \<Rightarrow> health_tab \<Rightarrow> bool" where
  "health_shows b ht \<longleftrightarrow> length (ht_cards ht) = bu_N b \<and>
     (\<forall>i < bu_N b. hc_name (ht_cards ht ! i) = bu_names b ! i \<and> fst (hc_status (ht_cards ht ! i)) = target_status b i)"

lemma health_tab_ok:
  assumes "page_fits b"
  shows "\<exists>ht. health_tab_of b = Inr ht \<and> health_shows b ht"
proof -
  obtain cards where "for_targets b (health_card_of b) = Inr cards" "length cards = bu_N b"
      "\<forall>i < bu_N b. hc_name (cards ! i) = bu_names b ! i \<and> fst (hc_status (cards ! i)) = target_status b i"
    using for_targets_ok[of b "health_card_of b" "\<lambda>i c. hc_name c = bu_names b ! i \<and> fst (hc_status c) = target_status b i"]
      card_ok[OF assms] by blast
  moreover obtain probes where "for_targets b (probe_lines_of b) = Inr probes"
    using for_targets_some[of b "probe_lines_of b"] by (auto simp: probe_lines_of_def page_fits_get[OF assms])
  ultimately show ?thesis by (simp add: health_tab_of_def health_shows_def)
qed

definition page_shows :: "view_data \<Rightarrow> page \<Rightarrow> bool" where
  "page_shows b p \<longleftrightarrow> pg_header p = header_of b \<and> overview_shows b (pg_overview p) \<and> health_shows b (pg_health p)"

lemma render_ok:
  assumes "page_fits b"
  shows "\<exists>p. snd (render env b now s) = Inr p \<and> page_shows b p"
proof -
  obtain ov where ov: "overview_of b now = Inr ov" "overview_shows b ov" using overview_ok[OF assms] by blast
  obtain rt ra where rt: "routing_of b = Inr rt" "rate_tab_of b = Inr ra" using routing_ok[OF assms] rate_tab_ok[OF assms] by blast
  obtain ht where ht: "health_tab_of b = Inr ht" "health_shows b ht" using health_tab_ok[OF assms] by blast
  show ?thesis using ov(2) ht(2)
    by (simp add: render_def ov(1) rt ht(1) page_shows_def split_beta Let_def)
qed

lemma render_nine: "8 < bu_N b \<Longrightarrow> snd (render env b now s) = Inl IndexError"
  by (simp add: render_def nine_targets Let_def)

lemma demo_fits: "page_fits (demo_bundle s)"
  by (simp add: page_fits_def demo_bundle_def N_SIM_def SIM_NAMES_def)

lemma live_fits:
  "length (ms_names m) = ms_n m \<Longrightarrow> length (ms_zones m) = ms_n m \<Longrightarrow> ms_n m \<le> 8 \<Longrightarrow>
    page_fits (live_bundle (snapshot_of m ts) logs)"
  by (simp add: page_fits_def live_bundle_def snapshot_of_def)

lemma load_data_cases:
  assumes "load_data (Some (snapshot_of m ts)) now d st = (st', b)"
  shows "if now - ts \<le> 5 then \<exists>logs. b = live_bundle (snapshot_of m ts) logs
    else \<exists>s. da_sim st' = Some s \<and> b = demo_bundle s"
  using assms by (auto simp: load_data_def read_live_metrics_def snapshot_of_def Let_def split: if_splits)

section \<open>Properties\<close>



end
