(* ===== verification/Obs_Smoke.thy ===== *)
theory Obs_Smoke
  imports Observability
begin

text \<open>
  The end-to-end check of the exporters, \<open>scripts/observability_smoke.py\<close>: a trace collector, the
  poll of the metrics endpoint, the reading of its exposition and the run that ties them together.
  What the endpoint answers to each poll and what arrives at the collector are arguments; texts are
  ASCII.
\<close>

section \<open>Text\<close>

definition line_break :: "char \<Rightarrow> bool" where
  "line_break c \<longleftrightarrow> (let n = of_char c :: nat in (10 \<le> n \<and> n \<le> 13) \<or> (28 \<le> n \<and> n \<le> 30))"

fun lines_from :: "bool \<Rightarrow> string \<Rightarrow> string \<Rightarrow> string list" where
  \<comment> \<open>\<open>splitlines\<close>: whether a carriage return was just read, and the current line reversed\<close>
  "lines_from cr cur [] = (if cur = [] then [] else [rev cur])"
| "lines_from cr cur (c # cs) =
     (if cr \<and> c = CHR 0x0A then lines_from False cur cs
      else if line_break c then rev cur # lines_from (c = CHR 0x0D) [] cs
      else lines_from False (c # cur) cs)"

definition begins :: "string \<Rightarrow> string \<Rightarrow> bool" where
  "begins p s \<longleftrightarrow> take (length p) s = p"

fun occurs :: "string \<Rightarrow> string \<Rightarrow> bool" where
  \<comment> \<open>\<open>p in s\<close>\<close>
  "occurs p [] \<longleftrightarrow> p = []"
| "occurs p (c # cs) \<longleftrightarrow> begins p (c # cs) \<or> occurs p cs"

definition last_word :: "string \<Rightarrow> string" where
  \<comment> \<open>\<open>s.split()[-1]\<close> of a line that is not blank\<close>
  "last_word s = rev (takeWhile (\<lambda>c. \<not> is_space c) (rev (strip s)))"

section \<open>The trace collector\<close>

record collector =
  co_requests :: "string list"
  co_trace_seen :: bool
  co_serving :: bool
  co_open :: bool

definition collector_start :: collector where
  "collector_start = \<lparr>co_requests = [], co_trace_seen = False, co_serving = True, co_open = True\<rparr>"

definition trace_post :: "collector \<Rightarrow> string \<times> string option \<Rightarrow> collector \<times> (py_err + nat)" where
  \<comment> \<open>path and length header; the reply is the status\<close>
  "trace_post s post =
     (case post of (path, content_length) \<Rightarrow>
        case parse_int (case content_length of None \<Rightarrow> ''0'' | Some t \<Rightarrow> t) of
          Inl e \<Rightarrow> (s, Inl e)
        | Inr body_len \<Rightarrow> (s\<lparr>co_requests := co_requests s @ [path], co_trace_seen := True\<rparr>, Inr 200))"

definition collector_close :: "collector \<Rightarrow> collector" where
  "collector_close s = s\<lparr>co_serving := False, co_open := False\<rparr>"

section \<open>The metrics endpoint\<close>

definition REQUESTS_METRIC :: string where
  "REQUESTS_METRIC = ''omegalb_dashboard_requests_per_sec''"

fun poll_metrics :: "(nat \<Rightarrow> string option) \<Rightarrow> nat \<Rightarrow> nat \<Rightarrow> py_err + string" where
  \<comment> \<open>poll \<open>i\<close> onwards, so many left; \<open>None\<close> is a poll that raised\<close>
  "poll_metrics answer i 0 = Inl RuntimeError"
| "poll_metrics answer i (Suc n) =
     (case answer i of
        Some payload \<Rightarrow> if occurs REQUESTS_METRIC payload then Inr payload else poll_metrics answer (i + 1) n
      | None \<Rightarrow> poll_metrics answer (i + 1) n)"

definition wait_for_metrics :: "(nat \<Rightarrow> string option) \<Rightarrow> py_err + string" where
  "wait_for_metrics answer = poll_metrics answer 0 30"

fun check_lines :: "string \<Rightarrow> real \<Rightarrow> string list \<Rightarrow> py_err + unit" where
  "check_lines metric_name expected_value [] = Inl AssertionError"
| "check_lines metric_name expected_value (line # rest) =
     (if begins (metric_name @ '' '') line
      then bindE (parse_float (last_word line)) (\<lambda>actual_value.
             if \<bar>actual_value - expected_value\<bar> > 1 / 1000000 then Inl AssertionError else Inr ())
      else check_lines metric_name expected_value rest)"

definition assert_metric_value :: "string \<Rightarrow> string \<Rightarrow> real \<Rightarrow> py_err + unit" where
  "assert_metric_value payload metric_name expected_value = check_lines metric_name expected_value (lines_from False [] payload)"

section \<open>The run\<close>

definition smoke_env :: "obs_env \<Rightarrow> nat \<Rightarrow> nat \<Rightarrow> obs_env" where
  "smoke_env env metrics_port otel_port =
     env\<lparr>oe_port := Some (nat_str metrics_port),
         oe_endpoint := Some (''http://127.0.0.1:'' @ nat_str otel_port @ ''/v1/traces'')\<rparr>"

definition push_gauges :: "obs_env \<Rightarrow> gauges \<Rightarrow> obs_state \<Rightarrow> obs_state" where
  \<comment> \<open>\<open>update_metrics_from_state\<close> on given numbers\<close>
  "push_gauges env g s =
     (let s = init_observability env s
      in if \<not> ob_metrics_available s \<or> ob_metrics s = None then s else s\<lparr>ob_metrics := Some g\<rparr>)"

lemma update_is_push: "update_metrics_from_state env b s = push_gauges env (gauges_of b) s"
  by (simp add: update_metrics_from_state_def push_gauges_def)

definition smoke_gauges :: gauges where
  "smoke_gauges = \<lparr>ga_requests_per_sec = 321, ga_avg_latency_ms = 425/10, ga_error_rate_pct = 5/10, ga_healthy_targets = 4,
     ga_total_targets = 4, ga_cbf_count = 1, ga_proactive_active = flag True, ga_sla_pct = 9995/100\<rparr>"

definition smoke_metrics :: "(nat \<Rightarrow> string option) \<Rightarrow> py_err + unit" where
  "smoke_metrics answer =
     bindE (wait_for_metrics answer) (\<lambda>metrics_payload.
     bindE (assert_metric_value metrics_payload REQUESTS_METRIC 321) (\<lambda>_.
     bindE (assert_metric_value metrics_payload ''omegalb_dashboard_avg_latency_ms'' (425/10)) (\<lambda>_.
       assert_metric_value metrics_payload ''omegalb_dashboard_healthy_targets'' 4)))"

definition smoke_traces :: "collector \<Rightarrow> py_err + unit" where
  "smoke_traces tc =
     (if \<not> co_trace_seen tc then Inl RuntimeError
      else if ''/v1/traces'' \<notin> set (co_requests tc) then Inl RuntimeError
      else Inr ())"

definition smoke_body :: "obs_env \<Rightarrow> (obs_state \<Rightarrow> nat \<Rightarrow> string option) \<Rightarrow> (obs_state \<Rightarrow> (string \<times> string option) list) \<Rightarrow>
    obs_state \<times> collector \<times> (py_err + unit)" where
  \<comment> \<open>the body of the \<open>try\<close>; answers and posts may depend on what the exporters hold\<close>
  "smoke_body env answer posts =
     (case get_observability_status env (init_observability env obs_fresh) of (s, status) \<Rightarrow>
        if \<not> os_metrics_available status then (s, collector_start, Inl RuntimeError)
        else if \<not> os_tracing_available status then (s, collector_start, Inl RuntimeError)
        else let s = push_gauges env smoke_gauges s
             in case smoke_metrics (answer s) of
                  Inl e \<Rightarrow> (s, collector_start, Inl e)
                | Inr _ \<Rightarrow>
                    let s = shutdown_observability env (fst (maybe_traced env s));
                        tc = foldl (\<lambda>tc post. fst (trace_post tc post)) collector_start (posts s)
                    in (s, tc, smoke_traces tc))"

definition smoke_main :: "obs_env \<Rightarrow> nat \<Rightarrow> nat \<Rightarrow> (obs_state \<Rightarrow> nat \<Rightarrow> string option) \<Rightarrow>
    (obs_state \<Rightarrow> (string \<times> string option) list) \<Rightarrow> obs_state \<times> collector \<times> (py_err + unit)" where
  "smoke_main env metrics_port otel_port answer posts =
     (case smoke_body (smoke_env env metrics_port otel_port) answer posts of
        (s, tc, result) \<Rightarrow> (s, collector_close tc, result))"

section \<open>What a passed check shows\<close>

lemma check_lines_ok:
  "check_lines name v ls = Inr () \<longleftrightarrow>
    (\<exists>l x. find (begins (name @ '' '')) ls = Some l \<and> parse_float (last_word l) = Inr x \<and> \<bar>x - v\<bar> \<le> 1 / 1000000)"
  by (induction ls) (auto simp: bindE_Inr_iff not_less)

lemma poll_metrics_ok:
  "poll_metrics answer i n = Inr payload \<Longrightarrow>
    \<exists>j. i \<le> j \<and> j < i + n \<and> answer j = Some payload \<and> occurs REQUESTS_METRIC payload"
proof (induction n arbitrary: i)
  case (Suc n)
  show ?case
  proof (cases "\<exists>p. answer i = Some p \<and> occurs REQUESTS_METRIC p")
    case True
    then have "answer i = Some payload \<and> occurs REQUESTS_METRIC payload" using Suc.prems by auto
    then show ?thesis by (intro exI[of _ i]) simp
  next
    case False
    then have "poll_metrics answer (i + 1) n = Inr payload" using Suc.prems by (auto split: option.splits)
    then obtain j where "i + 1 \<le> j \<and> j < i + 1 + n \<and> answer j = Some payload \<and> occurs REQUESTS_METRIC payload"
      using Suc.IH by blast
    then show ?thesis by (intro exI[of _ j]) simp
  qed
qed simp

lemma poll_metrics_ready:
  "answer (i + j) = Some payload \<Longrightarrow> occurs REQUESTS_METRIC payload \<Longrightarrow> j < n \<Longrightarrow> \<exists>p. poll_metrics answer i n = Inr p"
proof (induction n arbitrary: i j)
  case (Suc n)
  then show ?case
  proof (cases j)
    case (Suc k)
    then have "\<exists>p. poll_metrics answer (i + 1) n = Inr p" using Suc.IH[of "i + 1" k] Suc.prems by simp
    then show ?thesis by (auto split: option.split)
  qed simp
qed simp

definition shows_metric :: "string \<Rightarrow> string \<Rightarrow> real \<Rightarrow> bool" where
  "shows_metric payload name v \<longleftrightarrow>
     (\<exists>l x. find (begins (name @ '' '')) (lines_from False [] payload) = Some l \<and>
        parse_float (last_word l) = Inr x \<and> \<bar>x - v\<bar> \<le> 1 / 1000000)"

lemma assert_metric_ok: "assert_metric_value payload name v = Inr () \<longleftrightarrow> shows_metric payload name v"
  by (simp add: assert_metric_value_def shows_metric_def check_lines_ok)

definition post_ok :: "string \<times> string option \<Rightarrow> bool" where
  "post_ok post \<longleftrightarrow> (\<exists>n. parse_int (case snd post of None \<Rightarrow> ''0'' | Some t \<Rightarrow> t) = Inr n)"

lemma trace_post_requests: "co_requests (fst (trace_post tc post)) = co_requests tc @ (if post_ok post then [fst post] else [])"
  by (auto simp: trace_post_def post_ok_def split: sum.splits prod.splits)

lemma posts_recorded:
  "co_requests (foldl (\<lambda>tc post. fst (trace_post tc post)) tc posts) = co_requests tc @ map fst (filter post_ok posts)"
  by (induction posts arbitrary: tc) (simp_all add: trace_post_requests)

lemma smoke_metrics_ok:
  "smoke_metrics answer = Inr () \<Longrightarrow>
    \<exists>j < 30. \<exists>payload. answer j = Some payload \<and> shows_metric payload REQUESTS_METRIC 321 \<and>
      shows_metric payload ''omegalb_dashboard_avg_latency_ms'' (425/10) \<and> shows_metric payload ''omegalb_dashboard_healthy_targets'' 4"
  by (auto simp: smoke_metrics_def bindE_Inr_iff wait_for_metrics_def assert_metric_ok dest!: poll_metrics_ok)

text \<open>
  However the run ends, the collector is shut down and closed. A run that passes has found both
  exporters available, with one metrics server started and the gauges holding the numbers it
  pushed, has read these numbers back from one of the first thirty polls, and has received a
  well-formed POST for the traces.
\<close>
theorem smoke_passed:
  assumes "smoke_main env metrics_port otel_port answer posts = (s, tc, result)"
  shows "\<not> co_serving tc \<and> \<not> co_open tc \<and>
    (result = Inr () \<longrightarrow>
       ob_metrics s = Some smoke_gauges \<and> ob_servers s = 1 \<and> ob_tracing_available s \<and> ob_shutdowns s = 1 \<and>
       (\<exists>j < 30. \<exists>t payload. answer t j = Some payload \<and> shows_metric payload REQUESTS_METRIC (ga_requests_per_sec smoke_gauges) \<and>
          shows_metric payload ''omegalb_dashboard_avg_latency_ms'' (ga_avg_latency_ms smoke_gauges)) \<and>
       (\<exists>len. (''/v1/traces'', len) \<in> set (posts s) \<and> post_ok (''/v1/traces'', len)))"
proof (intro conjI impI)
  define e where "e = smoke_env env metrics_port otel_port"
  obtain tc0 where body: "smoke_body e answer posts = (s, tc0, result)" and tc: "tc = collector_close tc0"
    using assms by (auto simp: smoke_main_def e_def split: prod.splits)
  show "\<not> co_serving tc" "\<not> co_open tc" by (simp_all add: tc collector_close_def)
  assume passed: "result = Inr ()"
  define s1 where "s1 = init_observability e obs_fresh"
  have s1: "obs_ok s1" "ob_initialized s1"
    using init_observability_ok[of obs_fresh e] by (simp_all add: s1_def obs_fresh_def)
  define s2 where "s2 = push_gauges e smoke_gauges s1"
  have again: "init_observability e s1 = s1" by (rule init_observability_again[OF s1(2)])
  have av: "ob_metrics_available s1" "ob_tracing_available s1" and met: "smoke_metrics (answer s2) = Inr ()"
    and s: "s = shutdown_observability e (fst (maybe_traced e s2))"
    and tr: "smoke_traces (foldl (\<lambda>tc post. fst (trace_post tc post)) collector_start (posts s)) = Inr ()"
    using body passed
    by (auto simp: smoke_body_def s1_def[symmetric] s2_def get_observability_status_def again Let_def
        split: if_splits sum.splits)
  have s2: "s2 = s1\<lparr>ob_metrics := Some smoke_gauges\<rparr>"
    using s1(1) av by (auto simp: s2_def push_gauges_def again obs_ok_def Let_def)
  then have s': "s = s2\<lparr>ob_shutdowns := ob_shutdowns s2 + 1\<rparr>"
    using s s1 av by (simp add: shutdown_observability_def maybe_traced_def init_observability_again obs_ok_def)
  show "ob_metrics s = Some smoke_gauges" "ob_servers s = 1" "ob_tracing_available s"
    using s1(1) av by (simp_all add: s' s2 obs_ok_def)
  have "ob_shutdowns s1 = 0"
    by (simp add: s1_def init_observability_def init_tracing_def init_metrics_def obs_fresh_def Let_def split: sum.split)
  then show "ob_shutdowns s = 1" by (simp add: s' s2)
  show "\<exists>j < 30. \<exists>t payload. answer t j = Some payload \<and> shows_metric payload REQUESTS_METRIC (ga_requests_per_sec smoke_gauges) \<and>
      shows_metric payload ''omegalb_dashboard_avg_latency_ms'' (ga_avg_latency_ms smoke_gauges)"
    using smoke_metrics_ok[OF met] by (auto simp: smoke_gauges_def)
  show "\<exists>len. (''/v1/traces'', len) \<in> set (posts s) \<and> post_ok (''/v1/traces'', len)"
    using tr posts_recorded[of collector_start "posts s"]
    by (force simp: smoke_traces_def collector_start_def split: if_splits)
qed

theorem smoke_passed_witness:
  "\<exists>s tc. smoke_main \<lparr>oe_prometheus = True, oe_port = None, oe_server_starts = True, oe_gauges_created = True, oe_otel = True,
        oe_endpoint = None, oe_provider_built = True\<rparr> 9100 4318
      (\<lambda>s i. if i = 2 then Some (''omegalb_dashboard_requests_per_sec 321.0'' @ CHR 0x0A #
         ''omegalb_dashboard_avg_latency_ms 42.5'' @ CHR 0x0A # ''omegalb_dashboard_healthy_targets 4.0'' @ [CHR 0x0A]) else None)
      (\<lambda>s. [(''/v1/traces'', Some ''170'')]) = (s, tc, Inr ()) \<and> \<not> co_open tc \<and> ob_shutdowns s = 1"
proof -
  define env where "env = \<lparr>oe_prometheus = True, oe_port = None, oe_server_starts = True, oe_gauges_created = True, oe_otel = True,
        oe_endpoint = None, oe_provider_built = True\<rparr>"
  define payload where "payload = ''omegalb_dashboard_requests_per_sec 321.0'' @ CHR 0x0A #
         ''omegalb_dashboard_avg_latency_ms 42.5'' @ CHR 0x0A # ''omegalb_dashboard_healthy_targets 4.0'' @ [CHR 0x0A]"
  define answer :: "obs_state \<Rightarrow> nat \<Rightarrow> string option" where "answer = (\<lambda>s i. if i = 2 then Some payload else None)"
  define posts :: "obs_state \<Rightarrow> (string \<times> string option) list" where "posts = (\<lambda>s. [(''/v1/traces'', Some ''170'')])"
  have ls: "lines_from False [] payload = [''omegalb_dashboard_requests_per_sec 321.0'',
      ''omegalb_dashboard_avg_latency_ms 42.5'', ''omegalb_dashboard_healthy_targets 4.0'']"
    by (simp add: payload_def line_break_def)
  have "occurs REQUESTS_METRIC payload" by (simp add: payload_def REQUESTS_METRIC_def begins_def)
  then have wait: "wait_for_metrics (answer s) = Inr payload" for s
    by (simp add: wait_for_metrics_def numeral_eq_Suc answer_def)
  have met: "smoke_metrics (answer s) = Inr ()" for s
    by (simp add: smoke_metrics_def wait assert_metric_value_def ls REQUESTS_METRIC_def begins_def last_word_def strip_def is_space_def
        parse_float_def strip_sign_def digit_part_def digit_val_def Let_def)
  have port: "parse_int (nat_str 9100) = Inr 9100" using parse_int_nat_str[of 9100] by simp
  have len: "parse_int ''170'' = Inr 170" by (simp add: parse_int_def strip_def is_space_def digit_val_def Let_def)
  define e s1 where "e = smoke_env env 9100 4318" and "s1 = init_observability e obs_fresh"
  have "ob_initialized s1 \<and> ob_metrics_available s1 \<and> ob_tracing_available s1 \<and> ob_metrics s1 \<noteq> None"
    by (simp add: s1_def e_def smoke_env_def env_def init_observability_def init_metrics_def init_tracing_def obs_fresh_def port)
  then have body: "smoke_body e answer posts = (s, tc, r) \<Longrightarrow> r = Inr ()" for s tc r
    by (auto simp: smoke_body_def s1_def[symmetric] init_observability_again get_observability_status_def push_gauges_def met
        smoke_traces_def posts_def trace_post_def len collector_start_def)
  have "\<exists>s tc. smoke_main env 9100 4318 answer posts = (s, tc, Inr ())"
    using body by (cases "smoke_body e answer posts") (auto simp: smoke_main_def e_def)
  then show ?thesis using smoke_passed[of env 9100 4318 answer posts] unfolding env_def answer_def payload_def posts_def by blast
qed

end
