(* ===== verification/Admin_Steps.thy ===== *)
theory Admin_Steps
  imports Admin_Handler
begin

text \<open>
  \<open>handle_admin\<close> of \<open>demo/proxy.py\<close> cut at the points where the coroutine waits: for the request
  body, and for the answers of the backends it tells to fail or to recover. Between these points other tasks
  of the event loop run. Run without interruption the stages are the handler as a whole.
\<close>

section \<open>Stages\<close>

datatype admin_phase =
    AwaitBody int \<comment> \<open>admitted, with the remaining calls in the window\<close>
  | AwaitKill py_val int \<comment> \<open>the backend to be killed is being told\<close>
  | AwaitRevive py_val int
  | Answered admin_reply

definition admin_enter :: "admin_config \<Rightarrow> admin_state \<Rightarrow> admin_request \<Rightarrow> admin_state \<times> admin_phase" where
  \<comment> \<open>the guards, up to reading the body\<close>
  "admin_enter cfg st rq =
     (let ip = client_ip (ar_peer rq)
      in if \<not> is_ip_allowed (ac_nets cfg) ip then (st, Answered Forbidden)
         else case limiter_allow (as_limiter st) (client_key ip) (ar_now rq) of (limiter, ok, remaining) \<Rightarrow>
                let st = st\<lparr>as_limiter := limiter\<rparr>
                in if \<not> ok then (st, Answered AdminRateLimited)
                   else if \<not> token_ok (ac_token cfg) (ar_token_header rq) (ar_auth_header rq) then (st, Answered Unauthorized)
                   else (st, AwaitBody remaining))"

definition start_command :: "admin_config \<Rightarrow> string \<Rightarrow> bool \<Rightarrow> py_val \<Rightarrow> admin_state \<Rightarrow> admin_state \<times> (py_err + bool)" where
  \<comment> \<open>a command up to the request to the backend; true when that is now under way\<close>
  "start_command cfg key up data st =
     (case py_contains data key of
        Inl e \<Rightarrow> (st, Inl e)
      | Inr present \<Rightarrow>
          if \<not> present then (st, Inr False)
          else case bindE (py_item data key) to_int of
                 Inl e \<Rightarrow> (st, Inl e)
               | Inr i \<Rightarrow> (case set_backend_up cfg up True st i of
                             (st, Inl e) \<Rightarrow> (st, Inl e)
                           | (st, Inr _) \<Rightarrow> (st, Inr True)))"

definition admin_spike :: "admin_request \<Rightarrow> py_val \<Rightarrow> int \<Rightarrow> admin_state \<Rightarrow> admin_state \<times> admin_phase" where
  "admin_spike rq data remaining st =
     (case spike_command (ar_file_ok rq) data st of
        (st, Inl e) \<Rightarrow> (st, Answered (BadRequest e))
      | (st, Inr _) \<Rightarrow> (st, Answered (AdminOk remaining)))"

definition admin_revive :: "admin_config \<Rightarrow> admin_request \<Rightarrow> py_val \<Rightarrow> int \<Rightarrow> admin_state \<Rightarrow> admin_state \<times> admin_phase" where
  "admin_revive cfg rq data remaining st =
     (case start_command cfg ''revive_backend'' True data st of
        (st, Inl e) \<Rightarrow> (st, Answered (BadRequest e))
      | (st, Inr under_way) \<Rightarrow>
          if under_way then (st, AwaitRevive data remaining) else admin_spike rq data remaining st)"

definition admin_kill :: "admin_config \<Rightarrow> admin_request \<Rightarrow> py_val \<Rightarrow> int \<Rightarrow> admin_state \<Rightarrow> admin_state \<times> admin_phase" where
  "admin_kill cfg rq data remaining st =
     (case start_command cfg ''kill_backend'' False data st of
        (st, Inl e) \<Rightarrow> (st, Answered (BadRequest e))
      | (st, Inr under_way) \<Rightarrow>
          if under_way then (st, AwaitKill data remaining) else admin_revive cfg rq data remaining st)"

fun admin_resume :: "admin_config \<Rightarrow> admin_request \<Rightarrow> admin_state \<times> admin_phase \<Rightarrow> admin_state \<times> admin_phase" where
  \<comment> \<open>what the coroutine waits for has come: on to the next such point\<close>
  "admin_resume cfg rq (st, AwaitBody remaining) =
     (case ar_json rq of
        Inl e \<Rightarrow> (st, Answered (BadRequest e))
      | Inr data \<Rightarrow> admin_kill cfg rq data remaining st)"
| "admin_resume cfg rq (st, AwaitKill data remaining) =
     (if ar_kill_post_ok rq then admin_revive cfg rq data remaining st else (st, Answered (BadRequest ClientError)))"
| "admin_resume cfg rq (st, AwaitRevive data remaining) =
     (if ar_revive_post_ok rq then admin_spike rq data remaining st else (st, Answered (BadRequest ClientError)))"
| "admin_resume cfg rq (st, Answered r) = (st, Answered r)"

section \<open>The stages and the handler\<close>

lemma set_backend_up_post:
  "set_backend_up cfg up post_ok st i =
     (case set_backend_up cfg up True st i of
        (st', Inl e) \<Rightarrow> (st', Inl e)
      | (st', Inr _) \<Rightarrow> (st', if post_ok then Inr () else Inl ClientError))"
  by (simp add: set_backend_up_def Let_def split: sum.split)

lemma backend_command_stages:
  "backend_command cfg key up post_ok data st =
     (case start_command cfg key up data st of
        (st', Inl e) \<Rightarrow> (st', Inl e)
      | (st', Inr under_way) \<Rightarrow> (st', if under_way \<and> \<not> post_ok then Inl ClientError else Inr ()))"
proof (cases "py_contains data key")
  case (Inr present)
  show ?thesis
  proof (cases "bindE (py_item data key) to_int")
    case (Inr i)
    then show ?thesis
      using \<open>py_contains data key = Inr present\<close> set_backend_up_post[of cfg up post_ok st i]
      by (simp add: backend_command_def start_command_def split: prod.split sum.split)
  qed (simp add: Inr backend_command_def start_command_def)
qed (simp add: backend_command_def start_command_def)

definition reply_of :: "int \<Rightarrow> admin_state \<times> (py_err + unit) \<Rightarrow> admin_state \<times> admin_phase" where
  "reply_of remaining r = (case r of (st, Inl e) \<Rightarrow> (st, Answered (BadRequest e)) | (st, Inr _) \<Rightarrow> (st, Answered (AdminOk remaining)))"

lemma admin_spike_reply: "admin_spike rq data remaining st = reply_of remaining (spike_command (ar_file_ok rq) data st)"
  by (simp add: admin_spike_def reply_of_def)

lemma answered_stays: "snd x = Answered r \<Longrightarrow> (admin_resume cfg rq ^^ n) x = x"
  by (cases x, induction n) simp_all

lemma reply_stays: "(admin_resume cfg rq ^^ n) (reply_of remaining x) = reply_of remaining x"
  by (rule answered_stays[of _ "case snd x of Inl e \<Rightarrow> BadRequest e | Inr _ \<Rightarrow> AdminOk remaining"])
    (simp add: reply_of_def split: prod.split sum.split)

lemma error_stays: "(admin_resume cfg rq ^^ n) (st, Answered r) = (st, Answered r)"
  by (rule answered_stays) simp

lemma admin_revive_run:
  "(admin_resume cfg rq ^^ Suc n) (admin_revive cfg rq data remaining st) =
     reply_of remaining (case backend_command cfg ''revive_backend'' True (ar_revive_post_ok rq) data st of
        (st, Inl e) \<Rightarrow> (st, Inl e) | (st, Inr _) \<Rightarrow> spike_command (ar_file_ok rq) data st)"
proof -
  obtain st1 r where c: "start_command cfg ''revive_backend'' True data st = (st1, r)" by fastforce
  show ?thesis
  proof (cases r)
    case (Inl e)
    then show ?thesis using c
      by (simp add: admin_revive_def backend_command_stages reply_of_def error_stays del: funpow.simps)
  next
    case (Inr under_way)
    show ?thesis
    proof (cases under_way)
      case True
      then show ?thesis using c Inr
        by (simp add: admin_revive_def backend_command_stages admin_spike_reply funpow_Suc_right reply_stays error_stays
            del: funpow.simps) (simp add: reply_of_def)
    next
      case False
      then show ?thesis using c Inr
        by (simp add: admin_revive_def backend_command_stages admin_spike_reply reply_stays del: funpow.simps)
    qed
  qed
qed

lemma admin_kill_run:
  assumes "ar_json rq = Inr data"
  shows "(admin_resume cfg rq ^^ Suc (Suc n)) (admin_kill cfg rq data remaining st) = reply_of remaining (admin_commands cfg rq st)"
proof -
  obtain st1 r where c: "start_command cfg ''kill_backend'' False data st = (st1, r)" by fastforce
  note run = admin_revive_run[of _ cfg rq data remaining st1]
  show ?thesis
  proof (cases r)
    case (Inl e)
    then show ?thesis using c assms
      by (simp add: admin_kill_def admin_commands_def backend_command_stages reply_of_def error_stays del: funpow.simps)
  next
    case (Inr under_way)
    show ?thesis
    proof (cases "under_way \<and> \<not> ar_kill_post_ok rq")
      case True
      then show ?thesis using c Inr assms
        by (simp add: admin_kill_def admin_commands_def backend_command_stages[of _ _ False] funpow_Suc_right error_stays
            reply_of_def del: funpow.simps)
    next
      case False
      then have "(admin_resume cfg rq ^^ Suc (Suc n)) (admin_kill cfg rq data remaining st) =
          (if under_way then (admin_resume cfg rq ^^ Suc n) (admin_revive cfg rq data remaining st1)
           else (admin_resume cfg rq ^^ Suc (Suc n)) (admin_revive cfg rq data remaining st1))"
        using c Inr by (simp add: admin_kill_def funpow_Suc_right[of "Suc n"] del: funpow.simps)
      then show ?thesis
        using run c Inr False assms by (simp add: admin_commands_def backend_command_stages[of _ _ False] del: funpow.simps)
    qed
  qed
qed

text \<open>
  The stages run one after the other with nothing in between are the handler: same state, same
  reply, after at most three waits.
\<close>

lemma stages_are_handler:
  "(admin_resume cfg rq ^^ 3) (admin_enter cfg st rq) =
     (case handle_admin cfg st rq of (st', r) \<Rightarrow> (st', Answered r))"
proof -
  obtain l ok remaining where l: "limiter_allow (as_limiter st) (client_key (client_ip (ar_peer rq))) (ar_now rq) = (l, ok, remaining)"
    by (rule prod_cases3)
  show ?thesis
  proof (cases "admitted cfg st rq")
    case False
    then show ?thesis using l by (auto simp: admitted_def admin_enter_def handle_admin_def Let_def error_stays)
  next
    case True
    then have e: "admin_enter cfg st rq = (st\<lparr>as_limiter := l\<rparr>, AwaitBody remaining)"
      using l by (simp add: admitted_def admin_enter_def Let_def)
    have h: "(case handle_admin cfg st rq of (st', r) \<Rightarrow> (st', Answered r)) = reply_of remaining (admin_commands cfg rq (st\<lparr>as_limiter := l\<rparr>))"
      using True l by (simp add: admitted_def handle_admin_def reply_of_def Let_def split: prod.split sum.split)
    show ?thesis
    proof (cases "ar_json rq")
      case (Inl x)
      then show ?thesis unfolding h e numeral_3_eq_3
        by (simp add: funpow_Suc_right error_stays admin_commands_def reply_of_def del: funpow.simps)
    next
      case (Inr data)
      then show ?thesis unfolding h e numeral_3_eq_3
        using admin_kill_run[where n = 0 and cfg = cfg, OF Inr] by (simp add: funpow_Suc_right[of "Suc (Suc 0)"] del: funpow.simps)
    qed
  qed
qed

section \<open>What a stage keeps\<close>

text \<open>A stage keeps the views of the healthy backends in agreement and touches no counter.\<close>

definition stage_keeps :: "admin_state \<Rightarrow> admin_state \<Rightarrow> bool" where
  "stage_keeps st st' \<longleftrightarrow>
     (health_ok (as_health st) \<longrightarrow>
        health_ok (as_health st') \<and> hs_fails (as_health st') = hs_fails (as_health st) \<and> as_limiter st' = as_limiter st \<and>
        ms_active (hs_metrics (as_health st')) = ms_active (hs_metrics (as_health st)))"

lemma stage_keeps_refl: "stage_keeps st st"
  by (simp add: stage_keeps_def)

lemma stage_keeps_trans: "stage_keeps a b \<Longrightarrow> stage_keeps b c \<Longrightarrow> stage_keeps a c"
  by (simp add: stage_keeps_def)

lemma set_backend_up_active:
  "set_backend_up cfg up ok st i = (st', r) \<Longrightarrow>
     ms_active (hs_metrics (as_health st')) = ms_active (hs_metrics (as_health st))"
  by (auto simp: set_backend_up_def Let_def split: sum.splits)

lemma set_backend_up_keeps: "set_backend_up cfg up ok st i = (st', r) \<Longrightarrow> stage_keeps st st'"
  using set_backend_up_ok[of st cfg up ok i st' r] set_backend_up_active[of cfg up ok st i st' r] by (auto simp: stage_keeps_def)

lemma start_command_keeps: "stage_keeps st (fst (start_command cfg key up data st))"
  by (auto simp: start_command_def stage_keeps_refl dest: set_backend_up_keeps split: sum.split prod.split)

lemma spike_keeps: "stage_keeps st (fst (admin_spike rq data remaining st))"
proof -
  obtain st' r where "spike_command (ar_file_ok rq) data st = (st', r)" by fastforce
  then show ?thesis using spike_command_ok[of "ar_file_ok rq" data st st' r]
    by (cases r) (simp_all add: admin_spike_def stage_keeps_def)
qed

lemma revive_keeps: "stage_keeps st (fst (admin_revive cfg rq data remaining st))"
proof -
  obtain st' r where c: "start_command cfg ''revive_backend'' True data st = (st', r)" by fastforce
  then have "stage_keeps st st'" using start_command_keeps[of st cfg "''revive_backend''" True data] by simp
  then show ?thesis using c spike_keeps[of st' rq data remaining]
    by (auto simp: admin_revive_def intro: stage_keeps_trans split: sum.split)
qed

lemma kill_keeps: "stage_keeps st (fst (admin_kill cfg rq data remaining st))"
proof -
  obtain st' r where c: "start_command cfg ''kill_backend'' False data st = (st', r)" by fastforce
  then have "stage_keeps st st'" using start_command_keeps[of st cfg "''kill_backend''" False data] by simp
  then show ?thesis using c revive_keeps[of st' cfg rq data remaining]
    by (auto simp: admin_kill_def intro: stage_keeps_trans split: sum.split)
qed

lemma admin_resume_keeps: "stage_keeps st (fst (admin_resume cfg rq (st, ph)))"
  by (cases ph) (auto simp: kill_keeps revive_keeps spike_keeps stage_keeps_refl split: sum.split)

lemma admin_enter_keeps:
  "as_health (fst (admin_enter cfg st rq)) = as_health st"
  "snd (admin_enter cfg st rq) \<noteq> AwaitKill data n" "snd (admin_enter cfg st rq) \<noteq> AwaitRevive data n"
  by (simp_all add: admin_enter_def Let_def split: prod.split)

lemma handle_admin_keeps:
  assumes "health_ok (as_health st)" and "handle_admin cfg st rq = (st', r)"
  shows "ms_active (hs_metrics (as_health st')) = ms_active (hs_metrics (as_health st))"
proof -
  obtain a ph where e: "admin_enter cfg st rq = (a, ph)" by fastforce
  have step: "stage_keeps (fst x) (fst (admin_resume cfg rq x))" for x
    using admin_resume_keeps[of "fst x" cfg rq "snd x"] by simp
  have "stage_keeps a (fst ((admin_resume cfg rq ^^ n) (a, ph)))" for n
    by (induction n) (auto intro: stage_keeps_trans step stage_keeps_refl)
  from this[of 3] have "stage_keeps a st'"
    using stages_are_handler[of cfg rq st] assms(2) e by simp
  then show ?thesis using admin_enter_keeps(1)[of cfg st rq] assms(1) e by (simp add: stage_keeps_def)
qed

text \<open>A call that waits has passed the guard.\<close>

lemma admin_enter_admitted: "snd (admin_enter cfg st rq) = AwaitBody n \<Longrightarrow> admitted cfg st rq"
  by (auto simp: admin_enter_def admitted_def Let_def split: prod.splits if_splits)

lemma admin_enter_denied:
  "\<not> admitted cfg st rq \<Longrightarrow> \<exists>r. snd (admin_enter cfg st rq) = Answered r \<and> r \<in> {Forbidden, AdminRateLimited, Unauthorized}"
  by (auto simp: admin_enter_def admitted_def Let_def split: prod.splits)

end
