(* ===== verification/Event_Loop.thy ===== *)
theory Event_Loop
  imports Proxy_Requests Admin_Steps
begin

text \<open>
  The proxy of \<open>demo/proxy.py\<close> with all its tasks: requests, admin calls, the health checker, the
  control loop and the aggregator thread, interleaved at the points where they wait or hold the
  lock. A request or an admin call keeps its place in its list once it has arrived.
\<close>

section \<open>Steps\<close>

record proxy_system =
  sy_proxy :: proxy
  sy_requests :: "(request \<times> phase) list"
  sy_admin :: admin_state \<comment> \<open>its health state is the proxy's\<close>
  sy_admins :: "(admin_request \<times> admin_phase) list"
  sy_probe :: nat \<comment> \<open>the backend the health checker waits for\<close>

definition admin_view :: "proxy_system \<Rightarrow> admin_state" where
  "admin_view s = (sy_admin s)\<lparr>as_health := px_health (sy_proxy s)\<rparr>"

definition put_admin :: "proxy_system \<Rightarrow> admin_state \<Rightarrow> proxy_system" where
  "put_admin s a = s\<lparr>sy_proxy := (sy_proxy s)\<lparr>px_health := as_health a\<rparr>, sy_admin := a\<rparr>"

definition sys_init :: "proxy_config \<Rightarrow> kan \<Rightarrow> real \<Rightarrow> int \<Rightarrow> proxy_system" where
  "sys_init cfg kan now lim_per_min =
     \<lparr>sy_proxy = proxy_init cfg kan now, sy_requests = [],
      sy_admin = \<lparr>as_limiter = limiter_init lim_per_min, as_health = health_init (px_n cfg), as_posts = [], as_spike = None\<rparr>,
      sy_admins = [], sy_probe = 0\<rparr>"

inductive sys_step :: "proxy_config \<Rightarrow> admin_config \<Rightarrow> proxy_system \<Rightarrow> proxy_system \<Rightarrow> bool"
  for cfg :: proxy_config and acfg :: admin_config where
  arrive: "accept (sy_proxy s) rq now = Inr (p, ph) \<Longrightarrow>
    sys_step cfg acfg s (s\<lparr>sy_proxy := p, sy_requests := sy_requests s @ [(rq, ph)]\<rparr>)"
| start: "j < length (sy_requests s) \<Longrightarrow> sy_requests s ! j = (rq, Ready b tried k) \<Longrightarrow>
    begin_attempt cfg (sy_proxy s) b tried k = Inr (p, ph) \<Longrightarrow>
    sys_step cfg acfg s (s\<lparr>sy_proxy := p, sy_requests := (sy_requests s)[j := (rq, ph)]\<rparr>)"
| reply: "j < length (sy_requests s) \<Longrightarrow> sy_requests s ! j = (rq, Sending b tried k) \<Longrightarrow>
    end_attempt cfg rq (sy_proxy s) b tried k out lat now = Inr (p, ph) \<Longrightarrow>
    sys_step cfg acfg s (s\<lparr>sy_proxy := p, sy_requests := (sy_requests s)[j := (rq, ph)]\<rparr>)"
| tick: "sys_step cfg acfg s (s\<lparr>sy_proxy := set_px_metrics (sy_proxy s) (aggregate_tick (px_metrics (sy_proxy s)) now)\<rparr>)"
| probe: "probe_backend (px_health (sy_proxy s)) (sy_probe s, outcome) = Inr h \<Longrightarrow>
    sys_step cfg acfg s (s\<lparr>sy_proxy := (sy_proxy s)\<lparr>px_health := h\<rparr>, sy_probe := (sy_probe s + 1) mod px_n cfg\<rparr>)"
| control: "control_step cfg inp (sy_proxy s) = Inr p \<Longrightarrow> sys_step cfg acfg s (s\<lparr>sy_proxy := p\<rparr>)"
| admin_arrive: "admin_enter acfg (admin_view s) arq = (a, ph) \<Longrightarrow>
    sys_step cfg acfg s (put_admin (s\<lparr>sy_admins := sy_admins s @ [(arq, ph)]\<rparr>) a)"
| admin_go_on: "j < length (sy_admins s) \<Longrightarrow> sy_admins s ! j = (arq, aph) \<Longrightarrow>
    admin_resume acfg arq (admin_view s, aph) = (a, ph) \<Longrightarrow>
    sys_step cfg acfg s (put_admin (s\<lparr>sy_admins := (sy_admins s)[j := (arq, ph)]\<rparr>) a)"

inductive sys_reach :: "proxy_config \<Rightarrow> admin_config \<Rightarrow> proxy_system \<Rightarrow> bool"
  for cfg :: proxy_config and acfg :: admin_config where
  init: "sys_reach cfg acfg (sys_init cfg kan now lim_per_min)"
| step: "sys_reach cfg acfg s \<Longrightarrow> sys_step cfg acfg s s' \<Longrightarrow> sys_reach cfg acfg s'"

inductive_cases sys_stepE: "sys_step cfg acfg s s'"

section \<open>The other tasks leave the in-flight counters alone\<close>

lemma mark_health_active: "mark_health s i h = Inr s' \<Longrightarrow> ms_active (hs_metrics s') = ms_active (hs_metrics s)"
  by (auto simp: mark_health_def bindE_Inr_iff)

lemma probe_failed_active: "probe_failed s i = Inr s' \<Longrightarrow> ms_active (hs_metrics s') = ms_active (hs_metrics s)"
  by (auto simp: probe_failed_def Let_def dest: mark_health_active split: if_splits)

lemma probe_backend_active: "probe_backend s ip = Inr s' \<Longrightarrow> ms_active (hs_metrics s') = ms_active (hs_metrics s)"
  by (auto simp: probe_backend_def Let_def dest: mark_health_active probe_failed_active
      split: prod.splits if_splits sum.splits)

lemma aggregate_tick_active: "ms_active (aggregate_tick m now) = ms_active m" "ms_n (aggregate_tick m now) = ms_n m"
  "ms_health (aggregate_tick m now) = ms_health m"
  by (simp_all add: aggregate_tick_def Let_def)

section \<open>The invariant of the system\<close>

definition waiting :: "nat \<Rightarrow> (request \<times> phase) list \<Rightarrow> int" where
  \<comment> \<open>how many requests are waiting for backend \<open>i\<close>\<close>
  "waiting i rqs = sum_list (map (\<lambda>(rq, ph). busy i ph) rqs)"

definition sys_ok :: "proxy_config \<Rightarrow> proxy_system \<Rightarrow> bool" where
  "sys_ok cfg s \<longleftrightarrow> proxy_ok cfg (sy_proxy s) \<and>
     (\<forall>(rq, ph) \<in> set (sy_requests s). phase_ok cfg rq ph) \<and>
     (\<forall>i < px_n cfg. ms_active (px_metrics (sy_proxy s)) ! i = waiting i (sy_requests s)) \<and>
     sy_probe s < px_n cfg"

lemma waiting_append: "waiting i (rqs @ [(rq, ph)]) = waiting i rqs + busy i ph"
  by (simp add: waiting_def)

lemma waiting_update:
  "j < length rqs \<Longrightarrow> rqs ! j = (rq, ph) \<Longrightarrow> waiting i (rqs[j := (rq, ph')]) = waiting i rqs + busy i ph' - busy i ph"
proof (induction rqs arbitrary: j)
  case (Cons r rqs)
  then show ?case by (cases j) (auto simp: waiting_def)
qed (simp add: waiting_def)

lemma busy_nonneg: "0 \<le> busy i ph"
  by (cases ph) simp_all

lemma waiting_ge: "j < length rqs \<Longrightarrow> rqs ! j = (rq, ph) \<Longrightarrow> busy i ph \<le> waiting i rqs"
proof -
  assume j: "j < length rqs" "rqs ! j = (rq, ph)"
  have "0 \<le> waiting i (rqs[j := (rq, Finished Exhausted)])"
    unfolding waiting_def by (intro sum_list_nonneg) (auto intro: busy_nonneg)
  then show ?thesis using waiting_update[OF j, of i "Finished Exhausted"] by simp
qed

lemma phases_update:
  "\<forall>(rq, ph) \<in> set rqs. phase_ok cfg rq ph \<Longrightarrow> phase_ok cfg rq ph' \<Longrightarrow>
     \<forall>(rq, ph) \<in> set (rqs[j := (rq, ph')]). phase_ok cfg rq ph"
  using set_update_subset_insert[of rqs j "(rq, ph')"] by auto

lemma same_active_ok:
  assumes "sys_ok cfg s" and "proxy_ok cfg p" and "ms_active (px_metrics p) = ms_active (px_metrics (sy_proxy s))"
  shows "sys_ok cfg (s\<lparr>sy_proxy := p\<rparr>)"
  using assms by (simp add: sys_ok_def)

lemma sys_okD:
  assumes "sys_ok cfg s"
  shows "proxy_ok cfg (sy_proxy s)" "\<forall>(rq, ph) \<in> set (sy_requests s). phase_ok cfg rq ph"
    "i < px_n cfg \<Longrightarrow> ms_active (px_metrics (sy_proxy s)) ! i = waiting i (sy_requests s)"
    "j < length (sy_requests s) \<Longrightarrow> sy_requests s ! j = (rq, ph) \<Longrightarrow> phase_ok cfg rq ph"
    "sy_probe s < px_n cfg"
  using assms nth_mem[of j "sy_requests s"] by (auto simp: sys_ok_def)

lemma sys_start_ok:
  assumes ok: "sys_ok cfg s" and j: "j < length (sy_requests s)" "sy_requests s ! j = (rq, Ready b tried k)"
    and start: "begin_attempt cfg (sy_proxy s) b tried k = Inr (p', ph)"
  shows "sys_ok cfg (s\<lparr>sy_proxy := p', sy_requests := (sy_requests s)[j := (rq, ph)]\<rparr>)"
proof -
  note p = sys_okD(1)[OF ok] and ph = sys_okD(4)[OF ok j]
  note d = proxy_okD[OF p] and b = begin_ok[OF p ph]
  have "b < length (ms_active (px_metrics (sy_proxy s)))" using ph d(7) by (simp add: phase_ok_def)
  then have "ms_active (px_metrics p') ! i = waiting i ((sy_requests s)[j := (rq, ph)])" if "i < px_n cfg" for i
    using b start sys_okD(3)[OF ok that] waiting_update[OF j, of i ph] by (auto simp: nth_list_update)
  moreover have "proxy_ok cfg p'" "phase_ok cfg rq ph" using b start by auto
  ultimately show ?thesis using phases_update[OF sys_okD(2)[OF ok], of rq ph j] sys_okD(5)[OF ok] by (simp add: sys_ok_def)
qed

lemma sys_reply_ok:
  assumes ok: "sys_ok cfg s" and j: "j < length (sy_requests s)" "sy_requests s ! j = (rq, Sending b tried k)"
    and reply: "end_attempt cfg rq (sy_proxy s) b tried k out lat now = Inr (p', ph)"
  shows "sys_ok cfg (s\<lparr>sy_proxy := p', sy_requests := (sy_requests s)[j := (rq, ph)]\<rparr>)"
proof -
  let ?p = "sy_proxy s"
  note p = sys_okD(1)[OF ok] and ph = sys_okD(4)[OF ok j]
  note d = proxy_okD[OF p]
  obtain m where m: "p' = set_px_metrics ?p m" "proxy_ok cfg p'" "phase_ok cfg rq ph" "\<forall>i. busy i ph = 0"
    "ms_active m = (ms_active (px_metrics ?p))[b := max 0 (ms_active (px_metrics ?p) ! b - 1)]"
    using end_attempt_ok[OF p ph, of out lat now] reply by auto
  have b: "b < px_n cfg" using ph by (simp add: phase_ok_def)
  have "1 \<le> ms_active (px_metrics ?p) ! b" using waiting_ge[OF j, of b] sys_okD(3)[OF ok b] by simp
  then have "ms_active (px_metrics p') ! i = waiting i ((sy_requests s)[j := (rq, ph)])" if "i < px_n cfg" for i
    using m b d(7) sys_okD(3)[OF ok that] waiting_update[OF j, of i ph] by (auto simp: nth_list_update)
  then show ?thesis using m(2,3) phases_update[OF sys_okD(2)[OF ok]] sys_okD(5)[OF ok] by (simp add: sys_ok_def)
qed

lemma sys_step_ok:
  assumes "sys_step cfg acfg s s'" and ok: "sys_ok cfg s" and cfg: "config_ok cfg"
  shows "sys_ok cfg s'"
proof -
  let ?p = "sy_proxy s"
  have p: "proxy_ok cfg ?p" and phases: "\<forall>(rq, ph) \<in> set (sy_requests s). phase_ok cfg rq ph"
    and act: "\<And>i. i < px_n cfg \<Longrightarrow> ms_active (px_metrics ?p) ! i = waiting i (sy_requests s)"
    using ok by (auto simp: sys_ok_def)
  note d = proxy_okD[OF p]
  show ?thesis
    using assms(1)
  proof cases
    case (arrive rq now p' ph)
    have "proxy_ok cfg p'" "phase_ok cfg rq ph" "px_health p' = px_health ?p" "\<forall>i. busy i ph = 0"
      using accept_ok[OF p cfg, of rq now] arrive(2) by auto
    then show ?thesis using arrive(1) phases act sys_okD(5)[OF ok] by (simp add: sys_ok_def waiting_append)
  next
    case (start j rq b tried k p' ph)
    then show ?thesis using sys_start_ok[OF ok] by blast
  next
    case (reply j rq b tried k out lat now p' ph)
    then show ?thesis using sys_reply_ok[OF ok] by blast
  next
    case (tick now)
    have "proxy_ok cfg (set_px_metrics ?p (aggregate_tick (px_metrics ?p) now))"
      using set_metrics_ok[OF p tick_ok[OF d(2)]] d(4) by (simp add: aggregate_tick_active)
    then show ?thesis using tick same_active_ok[OF ok] by (simp add: aggregate_tick_active)
  next
    case (probe outcome h)
    have i: "sy_probe s < px_n cfg" "0 < px_n cfg" using ok cfg by (simp_all add: sys_ok_def config_ok_def)
    have "health_ok (px_health ?p)" "sy_probe s < length (hs_fails (px_health ?p))" using p i by (simp_all add: proxy_ok_def)
    then have "probed (px_health ?p) (sy_probe s) outcome h"
      using probe_backend_probed[of "px_health ?p" "sy_probe s" outcome] probe(2) by auto
    then have "health_ok h \<and> length (hs_fails h) = px_n cfg" using p by (simp add: probed_def proxy_ok_def)
    then have "sys_ok cfg (s\<lparr>sy_proxy := ?p\<lparr>px_health := h\<rparr>\<rparr>)"
      using same_active_ok[OF ok new_health_ok[OF p]] probe_backend_active[OF probe(2)] by simp
    then show ?thesis using probe(1) i(2) by (simp add: sys_ok_def)
  next
    case (control inp p')
    obtain p'' where "control_step cfg inp ?p = Inr p''" "control_result cfg ?p p''"
      using control_step_spec[OF p cfg] by blast
    then have "control_result cfg ?p p'" using control(2) by simp
    then show ?thesis using control(1) same_active_ok[OF ok] by (simp add: control_result_def)
  next
    case (admin_arrive arq a ph)
    have "as_health a = px_health ?p" using admin_enter_keeps(1)[of acfg "admin_view s" arq] admin_arrive(2) by (simp add: admin_view_def)
    then show ?thesis using admin_arrive(1) ok by (simp add: sys_ok_def put_admin_def)
  next
    case (admin_go_on j arq aph a ph)
    have "stage_keeps (admin_view s) a" using admin_resume_keeps[of "admin_view s" acfg arq aph] admin_go_on(4) by simp
    then have "health_ok (as_health a) \<and> hs_fails (as_health a) = hs_fails (px_health ?p) \<and>
        ms_active (hs_metrics (as_health a)) = ms_active (px_metrics ?p)"
      using p by (simp add: stage_keeps_def admin_view_def proxy_ok_def)
    then have "sys_ok cfg (s\<lparr>sy_proxy := ?p\<lparr>px_health := as_health a\<rparr>\<rparr>)"
      using same_active_ok[OF ok new_health_ok[OF p]] p by (simp add: proxy_ok_def)
    then show ?thesis using admin_go_on(1) by (simp add: sys_ok_def put_admin_def)
  qed
qed

lemma sys_init_ok: "config_ok cfg \<Longrightarrow> sys_ok cfg (sys_init cfg kan now lim_per_min)"
  using proxy_init_ok[of cfg kan now] by (simp add: sys_init_def sys_ok_def waiting_def config_ok_def)
    (simp add: proxy_init_def health_init_def)

definition sys_start :: "proxy_config \<Rightarrow> proxy_system \<Rightarrow> bool" where
  "sys_start cfg s \<longleftrightarrow> config_ok cfg \<and> (\<exists>kan now lim_per_min. s = sys_init cfg kan now lim_per_min)"

interpretation event_loop: invariant_system "sys_start cfg" "sys_step cfg acfg" "\<lambda>s. config_ok cfg \<and> sys_ok cfg s" for cfg acfg
  by unfold_locales (auto simp: sys_start_def intro: sys_init_ok sys_step_ok)

lemma sys_reach_run:
  "sys_reach cfg acfg s \<Longrightarrow> config_ok cfg \<Longrightarrow> \<exists>s0. sys_start cfg s0 \<and> (sys_step cfg acfg)\<^sup>*\<^sup>* s0 s"
  by (induction rule: sys_reach.induct) (auto simp: sys_start_def intro: rtranclp.rtrancl_into_rtrancl)

lemma sys_reach_ok: "sys_reach cfg acfg s \<Longrightarrow> config_ok cfg \<Longrightarrow> sys_ok cfg s"
  using sys_reach_run event_loop.reached_inv by blast

section \<open>Runs\<close>

lemma sys_reach_steps: "(sys_step cfg acfg)\<^sup>*\<^sup>* s s' \<Longrightarrow> sys_reach cfg acfg s \<Longrightarrow> sys_reach cfg acfg s'"
  by (induction rule: rtranclp_induct) (auto intro: sys_reach.step)

text \<open>An admin call with nothing else running: the steps of its stages do what the handler does.\<close>

lemma put_admin_simps [simp]:
  "admin_view (put_admin s a) = a" "sy_admin (put_admin s a) = a" "sy_admins (put_admin s a) = sy_admins s"
  "sy_requests (put_admin s a) = sy_requests s" "sy_probe (put_admin s a) = sy_probe s"
  "sy_proxy (put_admin s a) = (sy_proxy s)\<lparr>px_health := as_health a\<rparr>"
  by (simp_all add: put_admin_def admin_view_def)

lemma put_admin_again: "put_admin ((put_admin s a)\<lparr>sy_admins := xs\<rparr>) b = put_admin (s\<lparr>sy_admins := xs\<rparr>) b"
  by (simp add: put_admin_def)

lemma admin_stages_steps:
  assumes "(admin_resume acfg arq ^^ n) (a, ph) = (a', ph')"
  shows "(sys_step cfg acfg)\<^sup>*\<^sup>* (put_admin (s\<lparr>sy_admins := ads @ [(arq, ph)]\<rparr>) a) (put_admin (s\<lparr>sy_admins := ads @ [(arq, ph')]\<rparr>) a')"
  using assms
proof (induction n arbitrary: a ph)
  case (Suc n)
  obtain b ph2 where b: "admin_resume acfg arq (a, ph) = (b, ph2)" by fastforce
  let ?t = "put_admin (s\<lparr>sy_admins := ads @ [(arq, ph)]\<rparr>) a"
  have "sys_step cfg acfg ?t (put_admin (?t\<lparr>sy_admins := (sy_admins ?t)[length ads := (arq, ph2)]\<rparr>) b)"
    by (rule sys_step.admin_go_on[of _ _ arq ph]) (simp_all add: b)
  then have "sys_step cfg acfg ?t (put_admin (s\<lparr>sy_admins := ads @ [(arq, ph2)]\<rparr>) b)"
    by (simp add: put_admin_again)
  moreover have "(admin_resume acfg arq ^^ n) (b, ph2) = (a', ph')"
    using Suc.prems b by (simp add: funpow_Suc_right del: funpow.simps)
  ultimately show ?case using Suc.IH by (meson converse_rtranclp_into_rtranclp)
qed simp

lemma admin_call_steps:
  assumes "handle_admin acfg (admin_view s) arq = (a, r)"
  shows "(sys_step cfg acfg)\<^sup>*\<^sup>* s (put_admin (s\<lparr>sy_admins := sy_admins s @ [(arq, Answered r)]\<rparr>) a)"
proof -
  obtain b ph where b: "admin_enter acfg (admin_view s) arq = (b, ph)" by fastforce
  have "sys_step cfg acfg s (put_admin (s\<lparr>sy_admins := sy_admins s @ [(arq, ph)]\<rparr>) b)"
    by (rule sys_step.admin_arrive[OF b])
  moreover have "(admin_resume acfg arq ^^ 3) (b, ph) = (a, Answered r)"
    using stages_are_handler[of acfg arq "admin_view s"] b assms by simp
  ultimately show ?thesis using admin_stages_steps by (meson converse_rtranclp_into_rtranclp)
qed

section \<open>Work\<close>

text \<open>How many steps of its own a request or an admin call can still take.\<close>

fun request_work :: "proxy_config \<Rightarrow> request \<times> phase \<Rightarrow> nat" where
  "request_work cfg (rq, Ready b tried k) = 2 * (max_attempts cfg rq - k)"
| "request_work cfg (rq, Sending b tried k) = 2 * (max_attempts cfg rq - k) - 1"
| "request_work cfg (rq, Finished r) = 0"

fun admin_work :: "admin_request \<times> admin_phase \<Rightarrow> nat" where
  "admin_work (rq, AwaitBody n) = 3"
| "admin_work (rq, AwaitKill data n) = 2"
| "admin_work (rq, AwaitRevive data n) = 1"
| "admin_work (rq, Answered r) = 0"

definition pending :: "proxy_config \<Rightarrow> proxy_system \<Rightarrow> nat" where
  "pending cfg s = sum_list (map (request_work cfg) (sy_requests s)) + sum_list (map admin_work (sy_admins s))"

lemma sum_work_update:
  fixes f :: "'a \<Rightarrow> nat"
  assumes "j < length xs"
  shows "sum_list (map f (xs[j := x])) + f (xs ! j) = sum_list (map f xs) + f x"
  using assms by (induction xs arbitrary: j) (auto split: nat.split simp: less_Suc_eq_0_disj)

lemma sum_work_le:
  fixes f :: "'a \<Rightarrow> nat"
  shows "(\<And>x. f x \<le> c) \<Longrightarrow> sum_list (map f xs) \<le> c * length xs"
  by (induction xs) (auto intro: add_mono)

lemma request_work_le: "request_work cfg x \<le> 4"
  using max_attempts_range(2)[of cfg "fst x"] by (cases "(cfg, x)" rule: request_work.cases) simp_all

lemma admin_work_le: "admin_work x \<le> 3"
  by (cases x rule: admin_work.cases) simp_all

lemma pending_le: "pending cfg s \<le> 4 * length (sy_requests s) + 3 * length (sy_admins s)"
  unfolding pending_def by (intro add_mono sum_work_le request_work_le admin_work_le)

lemma begin_work:
  assumes "begin_attempt cfg p b tried k = Inr (p', ph)" and "phase_ok cfg rq (Ready b tried k)"
  shows "request_work cfg (rq, ph) < request_work cfg (rq, Ready b tried k)"
  using assms by (auto simp: begin_attempt_def phase_ok_def bindE_Inr_iff)

lemma end_work:
  assumes "end_attempt cfg rq p b tried k out lat now = Inr (p', ph)" and "phase_ok cfg rq (Sending b tried k)"
  shows "request_work cfg (rq, ph) < request_work cfg (rq, Sending b tried k)"
proof -
  have "(\<exists>r. ph = Finished r) \<or> (\<exists>c t. ph = Ready c t (k + 1))"
    using assms(1) by (auto simp: end_attempt_def continue_with_def bindE_Inr_iff Let_def split: upstream.splits option.splits if_splits)
  then show ?thesis using assms(2) by (auto simp: phase_ok_def)
qed

lemma spike_work: "admin_work (rq, snd (admin_spike rq' data n st)) = 0"
  by (simp add: admin_spike_def split: prod.split sum.split)

lemma revive_work: "admin_work (rq, snd (admin_revive cfg rq' data n st)) \<le> 1"
  using spike_work by (simp add: admin_revive_def split: prod.split sum.split)

lemma kill_work: "admin_work (rq, snd (admin_kill cfg rq' data n st)) \<le> 2"
  using revive_work[of rq cfg rq' data n] le_trans[OF revive_work one_le_numeral]
  by (simp add: admin_kill_def split: prod.split sum.split)

lemma admin_resume_work:
  "admin_work (rq, aph) \<noteq> 0 \<Longrightarrow> admin_work (rq, snd (admin_resume cfg rq' (st, aph))) < admin_work (rq, aph)"
  using kill_work[of rq cfg rq'] revive_work[of rq cfg rq'] spike_work[of rq rq']
  by (cases aph) (auto simp: less_Suc_eq_le numeral_2_eq_2 numeral_3_eq_3 split: sum.split)

lemma admin_idle_resume: "admin_work (rq, aph) = 0 \<Longrightarrow> admin_resume cfg rq' (st, aph) = (st, aph)"
  by (cases aph) simp_all

section \<open>Properties\<close>

text \<open>
  C1. The in-flight counters are exact under concurrency: in every state the proxy can reach, with
  any interleaving of requests, upstream replies, aggregation ticks, health rounds, control
  iterations and admin calls, the counter of a backend is the number of requests waiting for it,
  and the ring, the metrics and the monitor are consistent.
\<close>

theorem in_flight_exact:
  assumes "sys_reach cfg acfg s" and "config_ok cfg"
  shows "proxy_ok cfg (sy_proxy s) \<and>
         (\<forall>i < px_n cfg. ms_active (px_metrics (sy_proxy s)) ! i = waiting i (sy_requests s))"
  using sys_reach_ok[OF assms] by (simp add: sys_ok_def)

lemma demo_reach:
  "\<exists>s rq ph. sys_reach demo_proxy_config acfg s \<and> sy_requests s = [(rq, ph)]"
proof -
  let ?p = "proxy_init demo_proxy_config (kan_new None) 0"
  let ?s = "sys_init demo_proxy_config (kan_new None) 0 60"
  let ?rq = "\<lparr>rq_method = ''GET'', rq_remote = None, rq_path = ''/''\<rparr>"
  obtain p' ph where "accept ?p ?rq 0 = Inr (p', ph)"
    using accept_ok[OF proxy_init_ok[OF demo_config_ok] demo_config_ok] by blast
  then have "sys_step demo_proxy_config acfg ?s (?s\<lparr>sy_proxy := p', sy_requests := sy_requests ?s @ [(?rq, ph)]\<rparr>)"
    by (intro sys_step.arrive) (simp add: sys_init_def)
  then have "sys_reach demo_proxy_config acfg (?s\<lparr>sy_proxy := p', sy_requests := sy_requests ?s @ [(?rq, ph)]\<rparr>)"
    by (rule sys_reach.step[OF sys_reach.init])
  then show ?thesis by (fastforce simp: sys_init_def)
qed

theorem in_flight_exact_witness:
  "\<exists>s rq ph. sys_reach demo_proxy_config (demo_config None) s \<and> sy_requests s = [(rq, ph)] \<and>
     ms_active (px_metrics (sy_proxy s)) ! 0 = busy 0 ph"
proof -
  obtain s rq ph where s: "sys_reach demo_proxy_config (demo_config None) s" "sy_requests s = [(rq, ph)]"
    using demo_reach by blast
  have "0 < px_n demo_proxy_config" by (simp add: demo_proxy_config_def px_n_def)
  then show ?thesis using in_flight_exact[OF s(1) demo_config_ok] s by (auto simp: waiting_def)
qed



lemma sys_progress:
  assumes "sys_ok cfg s" and "config_ok cfg"
  shows "\<exists>p ph. accept (sy_proxy s) rq now = Inr (p, ph)"
    and "\<exists>h. probe_backend (px_health (sy_proxy s)) (sy_probe s, outcome) = Inr h"
    and "\<exists>p. control_step cfg inp (sy_proxy s) = Inr p"
    and "(rq, Ready b tried k) \<in> set (sy_requests s) \<Longrightarrow> \<exists>p ph. begin_attempt cfg (sy_proxy s) b tried k = Inr (p, ph)"
    and "(rq, Sending b tried k) \<in> set (sy_requests s) \<Longrightarrow> \<exists>p ph. end_attempt cfg rq (sy_proxy s) b tried k out lat now' = Inr (p, ph)"
proof -
  note p = sys_okD(1)[OF assms(1)]
  have ph: "(rq, ph) \<in> set (sy_requests s) \<Longrightarrow> phase_ok cfg rq ph" for ph using sys_okD(2)[OF assms(1)] by auto
  show "\<exists>p ph. accept (sy_proxy s) rq now = Inr (p, ph)" using accept_ok[OF p assms(2)] by blast
  show "\<exists>p. control_step cfg inp (sy_proxy s) = Inr p" using control_step_spec[OF p assms(2)] by blast
  show "\<exists>h. probe_backend (px_health (sy_proxy s)) (sy_probe s, outcome) = Inr h"
    using probe_backend_probed[of "px_health (sy_proxy s)" "sy_probe s" outcome] p sys_okD(5)[OF assms(1)]
    by (auto simp: proxy_ok_def)
  show "\<exists>p ph. begin_attempt cfg (sy_proxy s) b tried k = Inr (p, ph)" if "(rq, Ready b tried k) \<in> set (sy_requests s)"
    using begin_ok[OF p ph[OF that]] by blast
  show "\<exists>p ph. end_attempt cfg rq (sy_proxy s) b tried k out lat now' = Inr (p, ph)" if "(rq, Sending b tried k) \<in> set (sy_requests s)"
    using end_attempt_ok[OF p ph[OF that]] by blast
qed



lemma quiet_step_work:
  assumes ok: "sys_ok cfg s" and step: "sys_step cfg acfg s s'"
    and quiet: "length (sy_requests s') = length (sy_requests s)" "length (sy_admins s') = length (sy_admins s)"
  shows "pending cfg s' < pending cfg s \<or> (sy_requests s' = sy_requests s \<and> sy_admins s' = sy_admins s)"
  using step
proof cases
  case (start j rq b tried k p ph)
  have "request_work cfg (rq, ph) < request_work cfg (rq, Ready b tried k)"
    by (rule begin_work[OF start(4) sys_okD(4)[OF ok start(2,3)]])
  then show ?thesis using start(1,3) sum_work_update[OF start(2), of "request_work cfg" "(rq, ph)"] by (simp add: pending_def)
next
  case (reply j rq b tried k out lat now p ph)
  have "request_work cfg (rq, ph) < request_work cfg (rq, Sending b tried k)"
    by (rule end_work[OF reply(4) sys_okD(4)[OF ok reply(2,3)]])
  then have "sum_list (map (request_work cfg) ((sy_requests s)[j := (rq, ph)])) < sum_list (map (request_work cfg) (sy_requests s))"
    using sum_work_update[OF reply(2), of "request_work cfg" "(rq, ph)"] unfolding reply(3) by linarith
  then show ?thesis using reply(1) by (simp add: pending_def)
next
  case (admin_go_on j arq aph a ph)
  show ?thesis
  proof (cases "admin_work (arq, aph) = 0")
    case True
    then have "ph = aph" using admin_go_on(4) admin_idle_resume by simp
    then have "sy_admins s' = sy_admins s" using admin_go_on(1,3) list_update_id[of "sy_admins s" j] by simp
    then show ?thesis using admin_go_on(1) by simp
  next
    case False
    then have "admin_work (arq, ph) < admin_work (arq, aph)"
      using admin_resume_work[of arq aph acfg arq "admin_view s"] admin_go_on(4) by simp
    then show ?thesis using admin_go_on(1,3) sum_work_update[OF admin_go_on(2), of admin_work "(arq, ph)"] by (simp add: pending_def)
  qed
qed (use quiet in simp_all)

lemma waiting_0: "(\<And>rq ph. (rq, ph) \<in> set rqs \<Longrightarrow> busy i ph = 0) \<Longrightarrow> waiting i rqs = 0"
proof (induction rqs)
  case (Cons x rqs)
  obtain rq ph where x: "x = (rq, ph)" by fastforce
  have "busy i ph = 0" "waiting i rqs = 0" using Cons.prems[of rq ph] Cons.prems x by (auto intro: Cons.IH)
  then show ?case by (simp add: waiting_def x)
qed (simp add: waiting_def)

lemma pending_0:
  assumes "sys_ok cfg s" and "pending cfg s = 0"
  shows "(\<forall>(rq, ph) \<in> set (sy_requests s). \<exists>r. ph = Finished r) \<and> (\<forall>(rq, ph) \<in> set (sy_admins s). \<exists>r. ph = Answered r) \<and>
         (\<forall>i < px_n cfg. ms_active (px_metrics (sy_proxy s)) ! i = 0)"
proof -
  have rq: "\<exists>r. ph = Finished r" if "(rq, ph) \<in> set (sy_requests s)" for rq ph
    using assms that sys_okD(2)[OF assms(1)] by (cases ph) (fastforce simp: pending_def phase_ok_def)+
  moreover have "\<exists>r. ph = Answered r" if "(rq, ph) \<in> set (sy_admins s)" for rq ph
    using assms(2) that by (cases ph) (fastforce simp: pending_def)+
  moreover have "waiting i (sy_requests s) = 0" for i
    by (rule waiting_0) (use rq in fastforce)
  ultimately show ?thesis using sys_okD(3)[OF assms(1)] by auto
qed

lemma busy_system_moves:
  assumes ok: "sys_ok cfg s" and cfg: "config_ok cfg" and "pending cfg s \<noteq> 0"
  shows "\<exists>s'. sys_step cfg acfg s s' \<and> length (sy_requests s') = length (sy_requests s) \<and>
           length (sy_admins s') = length (sy_admins s) \<and> pending cfg s' < pending cfg s"
proof (cases "\<exists>x \<in> set (sy_requests s). request_work cfg x \<noteq> 0")
  case True
  then obtain j rq ph where j: "j < length (sy_requests s)" "sy_requests s ! j = (rq, ph)" "request_work cfg (rq, ph) \<noteq> 0"
    by (metis in_set_conv_nth surj_pair)
  have mem: "(rq, ph) \<in> set (sy_requests s)" using j nth_mem by fastforce
  obtain p ph' where step: "sys_step cfg acfg s (s\<lparr>sy_proxy := p, sy_requests := (sy_requests s)[j := (rq, ph')]\<rparr>)"
    and less: "request_work cfg (rq, ph') < request_work cfg (rq, ph)"
  proof (cases ph)
    case (Ready b tried k)
    obtain p ph' where b: "begin_attempt cfg (sy_proxy s) b tried k = Inr (p, ph')"
      using sys_progress(4)[OF ok cfg] mem Ready by blast
    then show ?thesis
      using that[OF sys_step.start[OF j(1) j(2)[unfolded Ready] b]] begin_work[OF b sys_okD(4)[OF ok j(1) j(2)[unfolded Ready]]] Ready
      by blast
  next
    case (Sending b tried k)
    obtain p ph' where e: "end_attempt cfg rq (sy_proxy s) b tried k OtherError 0 0 = Inr (p, ph')"
      using sys_progress(5)[OF ok cfg] mem Sending by blast
    then show ?thesis
      using that[OF sys_step.reply[OF j(1) j(2)[unfolded Sending] e]] end_work[OF e sys_okD(4)[OF ok j(1) j(2)[unfolded Sending]]] Sending
      by blast
  qed (use j(3) in simp)
  have "pending cfg (s\<lparr>sy_proxy := p, sy_requests := (sy_requests s)[j := (rq, ph')]\<rparr>) < pending cfg s"
    using sum_work_update[OF j(1), of "request_work cfg" "(rq, ph')"] less unfolding j(2) pending_def by simp
  then show ?thesis using step by (intro exI[of _ "s\<lparr>sy_proxy := p, sy_requests := (sy_requests s)[j := (rq, ph')]\<rparr>"]) simp
next
  case False
  then have "sum_list (map (request_work cfg) (sy_requests s)) = 0" by simp
  then have "\<exists>x \<in> set (sy_admins s). admin_work x \<noteq> 0" using assms(3) by (auto simp: pending_def)
  then obtain j arq aph where j: "j < length (sy_admins s)" "sy_admins s ! j = (arq, aph)" "admin_work (arq, aph) \<noteq> 0"
    by (metis in_set_conv_nth surj_pair)
  obtain a ph where a: "admin_resume acfg arq (admin_view s, aph) = (a, ph)" by fastforce
  have "admin_work (arq, ph) < admin_work (arq, aph)"
    using admin_resume_work[OF j(3), of acfg arq "admin_view s"] a by simp
  then have "pending cfg (put_admin (s\<lparr>sy_admins := (sy_admins s)[j := (arq, ph)]\<rparr>) a) < pending cfg s"
    using sum_work_update[OF j(1), of admin_work "(arq, ph)"] unfolding j(2) pending_def by simp
  then show ?thesis using sys_step.admin_go_on[OF j(1,2) a, of cfg]
    by (intro exI[of _ "put_admin (s\<lparr>sy_admins := (sy_admins s)[j := (arq, ph)]\<rparr>) a"]) simp
qed

text \<open>
  C3. Draining ends, and ends idle: once nothing new arrives, every step of a request or an admin call
  uses up some of the pending work, which is at most four steps per request and three per admin call, and
  whatever the background tasks do in between adds none; while some is left a step is possible; and when none
  is left every request and every call is answered and all in-flight counters are zero.
\<close>

theorem drain_ends_idle:
  assumes "sys_reach cfg acfg s" and "config_ok cfg"
  shows "pending cfg s \<le> 4 * length (sy_requests s) + 3 * length (sy_admins s) \<and>
         (\<forall>s'. sys_step cfg acfg s s' \<and> length (sy_requests s') = length (sy_requests s) \<and>
               length (sy_admins s') = length (sy_admins s) \<longrightarrow>
               pending cfg s' < pending cfg s \<or> (sy_requests s' = sy_requests s \<and> sy_admins s' = sy_admins s)) \<and>
         (if pending cfg s = 0
          then (\<forall>(rq, ph) \<in> set (sy_requests s). \<exists>r. ph = Finished r) \<and>
               (\<forall>(rq, ph) \<in> set (sy_admins s). \<exists>r. ph = Answered r) \<and>
               (\<forall>i < px_n cfg. ms_active (px_metrics (sy_proxy s)) ! i = 0)
          else \<exists>s'. sys_step cfg acfg s s' \<and> length (sy_requests s') = length (sy_requests s) \<and>
               length (sy_admins s') = length (sy_admins s) \<and> pending cfg s' < pending cfg s)"
proof (intro conjI)
  note ok = sys_reach_ok[OF assms]
  show "pending cfg s \<le> 4 * length (sy_requests s) + 3 * length (sy_admins s)" by (rule pending_le)
  show "\<forall>s'. sys_step cfg acfg s s' \<and> length (sy_requests s') = length (sy_requests s) \<and>
      length (sy_admins s') = length (sy_admins s) \<longrightarrow>
      pending cfg s' < pending cfg s \<or> (sy_requests s' = sy_requests s \<and> sy_admins s' = sy_admins s)"
    using quiet_step_work[OF ok] by blast
  show "if pending cfg s = 0
      then (\<forall>(rq, ph) \<in> set (sy_requests s). \<exists>r. ph = Finished r) \<and>
           (\<forall>(rq, ph) \<in> set (sy_admins s). \<exists>r. ph = Answered r) \<and>
           (\<forall>i < px_n cfg. ms_active (px_metrics (sy_proxy s)) ! i = 0)
      else \<exists>s'. sys_step cfg acfg s s' \<and> length (sy_requests s') = length (sy_requests s) \<and>
           length (sy_admins s') = length (sy_admins s) \<and> pending cfg s' < pending cfg s"
    using pending_0[OF ok] busy_system_moves[OF ok assms(2)] by simp
qed

theorem drain_ends_idle_witness:
  "\<exists>s rq ph. sys_reach demo_proxy_config (demo_config None) s \<and> sy_requests s = [(rq, ph)] \<and>
     pending demo_proxy_config s \<le> 4 + 3 * length (sy_admins s)"
proof -
  obtain s rq ph where s: "sys_reach demo_proxy_config (demo_config None) s" "sy_requests s = [(rq, ph)]"
    using demo_reach by blast
  then show ?thesis using conjunct1[OF drain_ends_idle[OF s(1) demo_config_ok]] by auto
qed

end
