(* ===== verification/Dispatch.thy ===== *)
theory Dispatch
  imports Event_Loop Demo_Backend
begin

text \<open>
  Which handler a request reaches: the route tables of \<open>demo/proxy.py\<close> and \<open>demo/backends.py\<close>, the
  request as it is forwarded, and the two applications put together, from the client's request
  to the state of the backend. The router and the JSON parser of the HTTP library are parameters.
\<close>

section \<open>Route tables\<close>

datatype methods = AnyMethod | OneOf "string list"

datatype pattern = Exact string | AnyPath \<comment> \<open>\<open>/{path_info:.*}\<close>\<close>

type_synonym 'h routes = "(methods \<times> pattern \<times> 'h) list"

datatype proxy_handler = StatusPage | AdminEndpoint | Forward

definition proxy_routes :: "proxy_handler routes" where
  "proxy_routes =
     [(AnyMethod, Exact ''/_omega/status'', StatusPage),
      (OneOf [''POST''], Exact ''/_omega/admin'', AdminEndpoint),
      (AnyMethod, AnyPath, Forward)]"

datatype backend_handler = HealthPage | StatsPage | BackendAdmin | Serve

definition backend_routes :: "backend_handler routes" where
  \<comment> \<open>\<open>add_get\<close> registers \<open>HEAD\<close> as well\<close>
  "backend_routes =
     [(OneOf [''GET'', ''HEAD''], Exact ''/_health'', HealthPage),
      (OneOf [''GET'', ''HEAD''], Exact ''/_stats'', StatsPage),
      (OneOf [''POST''], Exact ''/_admin'', BackendAdmin),
      (AnyMethod, AnyPath, Serve)]"

fun route_matches :: "string \<Rightarrow> string \<Rightarrow> methods \<times> pattern \<times> 'h \<Rightarrow> bool" where
  "route_matches verb path (ms, pat, h) =
     ((case ms of AnyMethod \<Rightarrow> True | OneOf vs \<Rightarrow> verb \<in> set vs) \<and>
      (case pat of Exact p \<Rightarrow> path = p | AnyPath \<Rightarrow> take 1 path = ''/''))"

type_synonym 'h router = "'h routes \<Rightarrow> string \<Rightarrow> string \<Rightarrow> 'h option"

definition routes_in_order :: "'h router \<Rightarrow> 'h routes \<Rightarrow> bool" where
  \<comment> \<open>the documented behaviour of the router: the first registered route that matches\<close>
  "routes_in_order router table \<longleftrightarrow>
     (\<forall>verb path. router table verb path =
        map_option (\<lambda>(_, _, h). h) (List.find (route_matches verb path) table))"

section \<open>The forwarded request\<close>

record http_request =
  hq_method :: string
  hq_path :: string
  hq_query :: string
  hq_headers :: "(string \<times> string) list" \<comment> \<open>in the order received, names may repeat\<close>
  hq_body :: string
  hq_remote :: "string option"

record outgoing =
  og_scheme :: string
  og_addr :: "string \<times> int"
  og_method :: string
  og_path :: string
  og_query :: string
  og_headers :: "(string \<times> string) list"
  og_body :: "string option"

definition keep_headers :: "string list \<Rightarrow> (string \<times> string) list \<Rightarrow> (string \<times> string) list" where
  \<comment> \<open>a dict built from the header items whose lower-cased name is not in the list\<close>
  "keep_headers dropped hs = dict_update [] (filter (\<lambda>(k, v). map lower_char k \<notin> set dropped) hs)"

definition forward_headers :: "(string \<times> string) list \<Rightarrow> (string \<times> string) list" where
  "forward_headers hs = keep_headers [''host'', ''content-length''] hs"

definition outgoing_request :: "proxy_config \<Rightarrow> http_request \<Rightarrow> nat \<Rightarrow> py_err + outgoing" where
  \<comment> \<open>the URL is the backend's address with the request's path and query\<close>
  "outgoing_request cfg hq backend_id =
     bindE (py_get (pc_backends cfg) (int backend_id)) (\<lambda>addr.
       Inr \<lparr>og_scheme = ''http'', og_addr = addr, og_method = hq_method hq, og_path = hq_path hq, og_query = hq_query hq,
            og_headers = forward_headers (hq_headers hq),
            og_body = (if hq_body hq = [] then None else Some (hq_body hq))\<rparr>)"

definition resp_headers :: "nat \<Rightarrow> string \<Rightarrow> nat \<Rightarrow> nat \<Rightarrow> (string \<times> string) list" where
  \<comment> \<open>the headers the proxy adds; the text of the latency is an argument\<close>
  "resp_headers backend_id latency_text vnodes attempt =
     [(''X-Omega-Backend'', nat_str backend_id), (''X-Omega-Latency-Ms'', latency_text),
      (''X-Omega-Ring-Pos'', nat_str vnodes @ ''v''), (''X-Omega-Attempts'', nat_str (attempt + 1))]"

definition safe_headers :: "(string \<times> string) list \<Rightarrow> (string \<times> string) list \<Rightarrow> (string \<times> string) list" where
  "safe_headers upstream_headers added =
     dict_update (keep_headers [''content-encoding'', ''transfer-encoding'', ''content-length'', ''connection''] upstream_headers) added"

section \<open>Both applications\<close>

record service_draws =
  sd_blow :: "real \<Rightarrow> real"
  sd_noise :: "real \<Rightarrow> real"
  sd_draw :: real

definition backend_receive :: "backend_handler router \<Rightarrow> (string \<Rightarrow> py_err + py_val) \<Rightarrow> service_draws \<Rightarrow> outgoing \<Rightarrow> backend \<Rightarrow>
    backend \<times> nat" where
  \<comment> \<open>the handler a backend runs and the status of its reply\<close>
  "backend_receive router json d og s =
     (case router backend_routes (og_method og) (og_path og) of
        None \<Rightarrow> (s, 404)
      | Some HealthPage \<Rightarrow> (s, backend_health s)
      | Some StatsPage \<Rightarrow> (s, 200)
      | Some BackendAdmin \<Rightarrow>
          (case backend_admin (json (case og_body og of None \<Rightarrow> [] | Some b \<Rightarrow> b)) s of
             (s, Inl e) \<Rightarrow> (s, 400) | (s, Inr _) \<Rightarrow> (s, 200))
      | Some Serve \<Rightarrow>
          (case backend_arrive (sd_blow d) (sd_noise d) s of (s, lat) \<Rightarrow>
             case backend_finish (sd_draw d) lat s of (s, r) \<Rightarrow>
               (s, case r of ServedOk _ _ \<Rightarrow> 200 | Unavailable _ \<Rightarrow> 503)))"

definition header_get :: "(string \<times> string) list \<Rightarrow> string \<Rightarrow> string" where
  \<comment> \<open>\<open>request.headers.get(name, "")\<close>: names are compared without case, the first one counts\<close>
  "header_get hs name =
     (case List.find (\<lambda>(k, v). map lower_char k = map lower_char name) hs of None \<Rightarrow> [] | Some (k, v) \<Rightarrow> v)"

record site =
  si_proxy :: proxy
  si_admin :: admin_state
  si_backends :: "backend list"

record exchange_inputs =
  xi_now :: real
  xi_admin_now :: int
  xi_peername :: "string option"
  xi_kill_post_ok :: bool
  xi_revive_post_ok :: bool
  xi_file_ok :: bool
  xi_draws :: "nat \<Rightarrow> service_draws" \<comment> \<open>by attempt, like the next three\<close>
  xi_len :: "nat \<Rightarrow> nat"
  xi_latency :: "nat \<Rightarrow> real"
  xi_end :: "nat \<Rightarrow> real"

datatype site_reply =
    NoRoute
  | StatusShown status_page
  | AdminAnswered admin_reply
  | Proxied phase

definition proxy_request :: "http_request \<Rightarrow> request" where
  "proxy_request hq = \<lparr>rq_method = hq_method hq, rq_remote = hq_remote hq, rq_path = hq_path hq\<rparr>"

definition admin_call :: "(string \<Rightarrow> py_err + py_val) \<Rightarrow> exchange_inputs \<Rightarrow> http_request \<Rightarrow> admin_request" where
  "admin_call json x hq =
     \<lparr>ar_peer = \<lparr>pi_remote = hq_remote hq, pi_peername = xi_peername x\<rparr>,
      ar_token_header = header_get (hq_headers hq) ''X-Omega-Admin-Token'',
      ar_auth_header = header_get (hq_headers hq) ''Authorization'',
      ar_now = xi_admin_now x, ar_json = json (hq_body hq), ar_kill_post_ok = xi_kill_post_ok x,
      ar_revive_post_ok = xi_revive_post_ok x, ar_file_ok = xi_file_ok x\<rparr>"

fun relay :: "backend_handler router \<Rightarrow> (string \<Rightarrow> py_err + py_val) \<Rightarrow> proxy_config \<Rightarrow> exchange_inputs \<Rightarrow> http_request \<Rightarrow>
    nat \<Rightarrow> proxy \<times> phase \<times> backend list \<Rightarrow> py_err + proxy \<times> phase \<times> backend list" where
  \<comment> \<open>the retry loop against the backends themselves; the number bounds the attempts\<close>
  "relay router json cfg x hq (Suc n) (p, Ready b tried k, bks) =
     bindE (begin_attempt cfg p b tried k) (\<lambda>(p, _).
     bindE (outgoing_request cfg hq b) (\<lambda>og.
       case backend_receive router json (xi_draws x k) og (bks ! b) of (bk, status) \<Rightarrow>
         bindE (end_attempt cfg (proxy_request hq) p b tried k (Reply status (xi_len x k)) (xi_latency x k) (xi_end x k)) (\<lambda>(p, ph).
           relay router json cfg x hq n (p, ph, bks[b := bk]))))"
| "relay router json cfg x hq _ st = Inr st"

definition serve_request :: "proxy_handler router \<Rightarrow> backend_handler router \<Rightarrow> (string \<Rightarrow> py_err + py_val) \<Rightarrow> proxy_config \<Rightarrow>
    admin_config \<Rightarrow> exchange_inputs \<Rightarrow> http_request \<Rightarrow> site \<Rightarrow> py_err + site \<times> site_reply" where
  \<comment> \<open>a request with nothing else running; the calls \<open>handle_admin\<close> makes to backends stay in \<open>as_posts\<close>\<close>
  "serve_request prouter brouter json cfg acfg x hq s =
     (case prouter proxy_routes (hq_method hq) (hq_path hq) of
        None \<Rightarrow> Inr (s, NoRoute)
      | Some StatusPage \<Rightarrow> Inr (s, StatusShown (handle_status (si_proxy s) (xi_now x)))
      | Some AdminEndpoint \<Rightarrow>
          (case handle_admin acfg ((si_admin s)\<lparr>as_health := px_health (si_proxy s)\<rparr>) (admin_call json x hq) of
             (a, r) \<Rightarrow> Inr (s\<lparr>si_proxy := (si_proxy s)\<lparr>px_health := as_health a\<rparr>, si_admin := a\<rparr>, AdminAnswered r))
      | Some Forward \<Rightarrow>
          bindE (accept (si_proxy s) (proxy_request hq) (xi_now x)) (\<lambda>(p, ph).
          bindE (relay brouter json cfg x hq 2 (p, ph, si_backends s)) (\<lambda>(p, ph, bks).
            Inr (s\<lparr>si_proxy := p, si_backends := bks\<rparr>, Proxied ph))))"

section \<open>Which handler runs\<close>

lemma proxy_dispatch:
  assumes "routes_in_order router proxy_routes"
  shows "router proxy_routes verb path =
           (if path = ''/_omega/status'' then Some StatusPage
            else if verb = ''POST'' \<and> path = ''/_omega/admin'' then Some AdminEndpoint
            else if take 1 path = ''/'' then Some Forward else None)"
  using assms by (simp add: routes_in_order_def proxy_routes_def)

lemma backend_dispatch:
  assumes "routes_in_order router backend_routes"
  shows "router backend_routes verb path =
           (if verb \<in> {''GET'', ''HEAD''} \<and> path = ''/_health'' then Some HealthPage
            else if verb \<in> {''GET'', ''HEAD''} \<and> path = ''/_stats'' then Some StatsPage
            else if verb = ''POST'' \<and> path = ''/_admin'' then Some BackendAdmin
            else if take 1 path = ''/'' then Some Serve else None)"
  using assms by (simp add: routes_in_order_def backend_routes_def)

section \<open>Headers\<close>

lemma map_of_keep_headers:
  "map_of (keep_headers dropped hs) k = (if map lower_char k \<in> set dropped then None else map_of (rev hs) k)"
proof -
  have "map_of (rev (filter (\<lambda>(k, v). map lower_char k \<notin> set dropped) hs)) k =
      (if map lower_char k \<in> set dropped then None else map_of (rev hs) k)"
    by (induction hs rule: rev_induct) auto
  then show ?thesis by (simp add: keep_headers_def map_of_dict_update option.case_eq_if)
qed

lemma safe_headers_get:
  "map_of (safe_headers hs added) k =
     (case map_of (rev added) k of
        Some v \<Rightarrow> Some v
      | None \<Rightarrow> if map lower_char k \<in> {''content-encoding'', ''transfer-encoding'', ''content-length'', ''connection''} then None
                else map_of (rev hs) k)"
  by (simp add: safe_headers_def map_of_dict_update map_of_keep_headers split: option.split)

lemma distinct_dict_put: "distinct (map fst kvs) \<Longrightarrow> distinct (map fst (dict_put kvs k v))"
proof (induction kvs k v rule: dict_put.induct)
  case (2 k u kvs key v)
  then show ?case using fst_dict_put[of kvs key v] by (auto simp del: set_map)
qed simp

lemma distinct_dict_update: "distinct (map fst kvs) \<Longrightarrow> distinct (map fst (dict_update kvs new))"
  by (induction new arbitrary: kvs) (auto simp: dict_update_def distinct_dict_put split: prod.splits)

text \<open>
  A header a backend sends more than once, such as the cookies it sets, reaches the client only
  with its last value: the headers pass through a dict.
\<close>

lemma repeated_header_lost:
  assumes "map_of (rev (resp_headers b lat v k)) name = None"
    and "map lower_char name \<notin> {''content-encoding'', ''transfer-encoding'', ''content-length'', ''connection''}"
  shows "{val. (name, val) \<in> set (safe_headers (hs @ [(name, v1), (name, v2)]) (resp_headers b lat v k))} = {v2}"
proof -
  have "map_of (safe_headers (hs @ [(name, v1), (name, v2)]) (resp_headers b lat v k)) name = Some v2"
    using assms by (simp add: safe_headers_get)
  moreover have "distinct (map fst (safe_headers (hs @ [(name, v1), (name, v2)]) (resp_headers b lat v k)))"
    unfolding safe_headers_def keep_headers_def by (intro distinct_dict_update) simp
  ultimately show ?thesis by (auto dest: eq_key_imp_eq_value map_of_SomeD)
qed

section \<open>Requests end to end\<close>

lemma outgoing_ok: "b < px_n cfg \<Longrightarrow> outgoing_request cfg hq b =
    Inr \<lparr>og_scheme = ''http'', og_addr = pc_backends cfg ! b, og_method = hq_method hq, og_path = hq_path hq, og_query = hq_query hq,
         og_headers = forward_headers (hq_headers hq),
         og_body = (if hq_body hq = [] then None else Some (hq_body hq))\<rparr>"
  by (simp add: outgoing_request_def px_n_def)

lemma relay_attempt:
  assumes "proxy_ok cfg p" and ph: "phase_ok cfg (proxy_request hq) (Ready b tried k)"
    and og: "outgoing_request cfg hq b = Inr og" and bk: "backend_receive router json (xi_draws x k) og (bks ! b) = (bk, status)"
  shows "\<exists>p' ph'. relay router json cfg x hq (Suc n) (p, Ready b tried k, bks) = relay router json cfg x hq n (p', ph', bks[b := bk]) \<and>
           proxy_ok cfg p' \<and> phase_ok cfg (proxy_request hq) ph' \<and> ms_active (px_metrics p') = ms_active (px_metrics p) \<and>
           (\<forall>c tr j. ph' = Ready c tr j \<longrightarrow> j = k + 1) \<and> (\<forall>c tr j. ph' \<noteq> Sending c tr j) \<and>
           (status < 500 \<longrightarrow> ph' = Finished (Relayed status b (k + 1) (vnode_counts (px_ring p) ! b)))"
proof -
  let ?out = "Reply status (xi_len x k)"
  obtain p1 p2 ph' where a: "begin_attempt cfg p b tried k = Inr (p1, Sending b tried k)"
    "end_attempt cfg (proxy_request hq) p1 b tried k ?out (xi_latency x k) (xi_end x k) = Inr (p2, ph')" "proxy_ok cfg p2"
    "ms_active (px_metrics p2) = ms_active (px_metrics p)"
    and ph': "ph' = (if failing ?out \<and> k = 0
                  then (case next_healthy cfg p2 tried of
                          Some alt \<Rightarrow> continue_with cfg (proxy_request hq) alt tried k
                        | None \<Rightarrow> Finished (Relayed status b (k + 1) (vnode_counts (px_ring p) ! b)))
                  else Finished (Relayed status b (k + 1) (vnode_counts (px_ring p) ! b)))"
    using one_attempt[OF assms(1) ph, of ?out "xi_latency x k" "xi_end x k", unfolded upstream.case] by blast
  note b1 = begin_ok[OF assms(1) ph]
  have "phase_ok cfg (proxy_request hq) ph'"
    using end_attempt_ok[OF conjunct1[OF conjunct2[OF b1]] conjunct2[OF conjunct2[OF b1]], of ?out "xi_latency x k" "xi_end x k"]
      a(1,2) b1 by auto
  moreover have "\<forall>c tr j. ph' = Ready c tr j \<longrightarrow> j = k + 1" "\<forall>c tr j. ph' \<noteq> Sending c tr j"
    using ph' by (auto simp: continue_with_def split: if_splits option.splits)
  moreover have "status < 500 \<longrightarrow> ph' = Finished (Relayed status b (k + 1) (vnode_counts (px_ring p) ! b))"
    using ph' by (simp add: failing_def)
  moreover have "relay router json cfg x hq (Suc n) (p, Ready b tried k, bks) = relay router json cfg x hq n (p2, ph', bks[b := bk])"
    using a(1,2) og bk by simp
  ultimately show ?thesis using a(3,4) by blast
qed

lemma relay_ends:
  assumes "proxy_ok cfg p" and "phase_ok cfg (proxy_request hq) ph" and "\<And>b tr k. ph \<noteq> Sending b tr k"
    and "\<And>b tr k. ph = Ready b tr k \<Longrightarrow> max_attempts cfg (proxy_request hq) \<le> k + n"
  shows "\<exists>p' r bks'. relay router json cfg x hq n (p, ph, bks) = Inr (p', Finished r, bks') \<and> proxy_ok cfg p' \<and>
           length bks' = length bks \<and> ms_active (px_metrics p') = ms_active (px_metrics p)"
  using assms
proof (induction n arbitrary: p ph bks)
  case 0
  then show ?case by (cases ph) (auto simp: phase_ok_def)
next
  case (Suc n)
  show ?case
  proof (cases ph)
    case (Ready b tried k)
    then have b: "b < px_n cfg" using Suc.prems(2) by (simp add: phase_ok_def)
    obtain og where og: "outgoing_request cfg hq b = Inr og" using outgoing_ok[OF b] by blast
    obtain bk status where bk: "backend_receive router json (xi_draws x k) og (bks ! b) = (bk, status)" by fastforce
    obtain p' ph' where r: "relay router json cfg x hq (Suc n) (p, Ready b tried k, bks) = relay router json cfg x hq n (p', ph', bks[b := bk])"
      "proxy_ok cfg p'" "phase_ok cfg (proxy_request hq) ph'" "ms_active (px_metrics p') = ms_active (px_metrics p)"
      "\<forall>c tr j. ph' = Ready c tr j \<longrightarrow> j = k + 1" "\<forall>c tr j. ph' \<noteq> Sending c tr j"
      using relay_attempt[where status = status, OF Suc.prems(1) Suc.prems(2)[unfolded Ready] og bk] by blast
    have "max_attempts cfg (proxy_request hq) \<le> j + n" if "ph' = Ready c tr j" for c tr j
      using Suc.prems(4)[OF Ready] r(5) that by simp
    then show ?thesis using Suc.IH[OF r(2,3), of "bks[b := bk]"] r(1,4,6) Ready by simp
  next
    case (Finished res)
    then show ?thesis using Suc.prems(1) by simp
  qed (use Suc.prems(3) in blast)
qed

text \<open>An exchange is a run of the event loop: what it does to the proxy is a sequence of its steps.\<close>

lemma relay_Suc:
  assumes "relay router json cfg x hq (Suc n) (p, Ready b tried k, bks) = Inr res"
  shows "\<exists>p1 status p2 ph2 bks2. begin_attempt cfg p b tried k = Inr (p1, Sending b tried k) \<and>
           end_attempt cfg (proxy_request hq) p1 b tried k (Reply status (xi_len x k)) (xi_latency x k) (xi_end x k) = Inr (p2, ph2) \<and>
           relay router json cfg x hq n (p2, ph2, bks2) = Inr res"
  using assms by (auto simp: bindE_Inr_iff begin_attempt_def split: prod.splits) (metis surj_pair)

lemma relay_steps:
  assumes "relay router json cfg x hq n (p, ph, bks) = Inr (p', ph', bks')"
    and "sy_proxy s = p" and "j < length (sy_requests s)" and "sy_requests s ! j = (proxy_request hq, ph)"
  shows "(sys_step cfg acfg)\<^sup>*\<^sup>* s (s\<lparr>sy_proxy := p', sy_requests := (sy_requests s)[j := (proxy_request hq, ph')]\<rparr>)"
  using assms
proof (induction n arbitrary: p ph bks s)
  case 0
  then have "s\<lparr>sy_proxy := p', sy_requests := (sy_requests s)[j := (proxy_request hq, ph')]\<rparr> = s"
    by (cases s) (auto simp: list_update_same_conv)
  then show ?case by simp
next
  case (Suc n)
  let ?rq = "proxy_request hq"
  show ?case
  proof (cases ph)
    case (Ready b tried k)
    obtain p1 status p2 ph2 bks2 where a: "begin_attempt cfg p b tried k = Inr (p1, Sending b tried k)"
      "end_attempt cfg ?rq p1 b tried k (Reply status (xi_len x k)) (xi_latency x k) (xi_end x k) = Inr (p2, ph2)"
      "relay router json cfg x hq n (p2, ph2, bks2) = Inr (p', ph', bks')"
      using relay_Suc[OF Suc.prems(1)[unfolded Ready]] by blast
    let ?s1 = "s\<lparr>sy_proxy := p1, sy_requests := (sy_requests s)[j := (?rq, Sending b tried k)]\<rparr>"
    let ?s2 = "s\<lparr>sy_proxy := p2, sy_requests := (sy_requests s)[j := (?rq, ph2)]\<rparr>"
    have 1: "sys_step cfg acfg s ?s1"
      using sys_step.start[of j s ?rq b tried k cfg p1 "Sending b tried k" acfg] Suc.prems(2-4) a(1) Ready by simp
    have 2: "sys_step cfg acfg ?s1 ?s2"
      using sys_step.reply[of j ?s1 ?rq b tried k cfg "Reply status (xi_len x k)" "xi_latency x k" "xi_end x k" p2 ph2 acfg]
        Suc.prems(3) a(2) by simp
    have 3: "(sys_step cfg acfg)\<^sup>*\<^sup>* ?s2 (s\<lparr>sy_proxy := p', sy_requests := (sy_requests s)[j := (?rq, ph')]\<rparr>)"
      using Suc.IH[OF a(3), of ?s2] Suc.prems(3) by simp
    show ?thesis by (rule converse_rtranclp_into_rtranclp[OF 1 converse_rtranclp_into_rtranclp[OF 2 3]])
  next
    case (Sending b tried k)
    then have "s\<lparr>sy_proxy := p', sy_requests := (sy_requests s)[j := (?rq, ph')]\<rparr> = s"
      using Suc.prems by (cases s) (auto simp: list_update_same_conv)
    then show ?thesis by simp
  next
    case (Finished r)
    then have "s\<lparr>sy_proxy := p', sy_requests := (sy_requests s)[j := (?rq, ph')]\<rparr> = s"
      using Suc.prems by (cases s) (auto simp: list_update_same_conv)
    then show ?thesis by simp
  qed
qed

definition site_system :: "site \<Rightarrow> (request \<times> phase) list \<Rightarrow> (admin_request \<times> admin_phase) list \<Rightarrow> nat \<Rightarrow> proxy_system" where
  \<comment> \<open>the event loop's view of a site, with what has arrived there\<close>
  "site_system s rqs ads i =
     \<lparr>sy_proxy = si_proxy s, sy_requests = rqs, sy_admin = si_admin s, sy_admins = ads, sy_probe = i\<rparr>"

lemma serve_request_steps:
  assumes "serve_request prouter brouter json cfg acfg x hq s = Inr (s', r)"
  shows "\<exists>new newa. (sys_step cfg acfg)\<^sup>*\<^sup>* (site_system s rqs ads i) (site_system s' (rqs @ new) (ads @ newa) i)"
proof (cases "prouter proxy_routes (hq_method hq) (hq_path hq)")
  case None
  then show ?thesis using assms by (auto simp: serve_request_def intro!: exI[of _ "[]"])
next
  case (Some h)
  let ?sys = "site_system s rqs ads i"
  show ?thesis
  proof (cases h)
    case StatusPage
    then show ?thesis using assms Some by (auto simp: serve_request_def intro!: exI[of _ "[]"])
  next
    case AdminEndpoint
    obtain a ar where a: "handle_admin acfg ((si_admin s)\<lparr>as_health := px_health (si_proxy s)\<rparr>) (admin_call json x hq) = (a, ar)" by fastforce
    then have "(sys_step cfg acfg)\<^sup>*\<^sup>* ?sys (put_admin (?sys\<lparr>sy_admins := sy_admins ?sys @ [(admin_call json x hq, Answered ar)]\<rparr>) a)"
      by (intro admin_call_steps) (simp add: admin_view_def site_system_def)
    moreover have "s' = s\<lparr>si_proxy := (si_proxy s)\<lparr>px_health := as_health a\<rparr>, si_admin := a\<rparr>"
      using assms Some AdminEndpoint a by (simp add: serve_request_def)
    ultimately show ?thesis
      by (intro exI[of _ "[]"] exI[of _ "[(admin_call json x hq, Answered ar)]"]) (simp add: site_system_def put_admin_def)
  next
    case Forward
    let ?rq = "proxy_request hq"
    obtain p ph p' ph' bks' where a: "accept (si_proxy s) ?rq (xi_now x) = Inr (p, ph)"
      "relay brouter json cfg x hq 2 (p, ph, si_backends s) = Inr (p', ph', bks')" "s' = s\<lparr>si_proxy := p', si_backends := bks'\<rparr>"
      using assms Some Forward by (auto simp: serve_request_def bindE_Inr_iff)
    let ?t = "?sys\<lparr>sy_proxy := p, sy_requests := rqs @ [(?rq, ph)]\<rparr>"
    have "sys_step cfg acfg ?sys ?t" using sys_step.arrive[of ?sys ?rq "xi_now x" p ph cfg acfg] a(1) by (simp add: site_system_def)
    moreover have "(sys_step cfg acfg)\<^sup>*\<^sup>* ?t (?t\<lparr>sy_proxy := p', sy_requests := (sy_requests ?t)[length rqs := (?rq, ph')]\<rparr>)"
      using relay_steps[OF a(2), of ?t "length rqs" acfg] by simp
    ultimately have "(sys_step cfg acfg)\<^sup>*\<^sup>* ?sys (?t\<lparr>sy_proxy := p', sy_requests := (sy_requests ?t)[length rqs := (?rq, ph')]\<rparr>)"
      by (rule converse_rtranclp_into_rtranclp)
    then show ?thesis using a(3) by (intro exI[of _ "[(?rq, ph')]"] exI[of _ "[]"]) (simp add: site_system_def)
  qed
qed

section \<open>Properties\<close>

lemma serve_request_ok:
  assumes "proxy_ok cfg (si_proxy s)" and "config_ok cfg"
    and "prouter proxy_routes (hq_method hq) (hq_path hq) = Some h"
  shows "\<exists>s' r. serve_request prouter brouter json cfg acfg x hq s = Inr (s', r) \<and> proxy_ok cfg (si_proxy s') \<and>
           length (si_backends s') = length (si_backends s) \<and>
           ms_active (px_metrics (si_proxy s')) = ms_active (px_metrics (si_proxy s)) \<and>
           (case h of StatusPage \<Rightarrow> \<exists>pg. r = StatusShown pg | AdminEndpoint \<Rightarrow> \<exists>a. r = AdminAnswered a
              | Forward \<Rightarrow> \<exists>resp. r = Proxied (Finished resp))"
proof (cases h)
  case StatusPage
  then show ?thesis using assms by (simp add: serve_request_def)
next
  case AdminEndpoint
  obtain a ar where a: "handle_admin acfg ((si_admin s)\<lparr>as_health := px_health (si_proxy s)\<rparr>) (admin_call json x hq) = (a, ar)" by fastforce
  have "health_ok (as_health a) \<and> hs_fails (as_health a) = hs_fails (px_health (si_proxy s))"
    using handle_admin_ok[OF _ a] assms(1) by (simp add: proxy_ok_def)
  then have "proxy_ok cfg ((si_proxy s)\<lparr>px_health := as_health a\<rparr>)"
    using new_health_ok[OF assms(1)] assms(1) by (simp add: proxy_ok_def)
  moreover have "health_ok (px_health (si_proxy s))" using assms(1) by (simp add: proxy_ok_def)
  ultimately show ?thesis using a assms(3) AdminEndpoint handle_admin_keeps[OF _ a] by (simp add: serve_request_def)
next
  case Forward
  let ?rq = "proxy_request hq"
  obtain p ph where a: "accept (si_proxy s) ?rq (xi_now x) = Inr (p, ph)" "proxy_ok cfg p" "phase_ok cfg ?rq ph"
    "px_health p = px_health (si_proxy s)" "\<forall>i. busy i ph = 0"
    using accept_ok[OF assms(1,2)] by blast
  have sending: "ph \<noteq> Sending b tr k" for b tr k using a(5)[rule_format, of b] by auto
  have attempts: "max_attempts cfg ?rq \<le> k + 2" for k using max_attempts_range(2)[of cfg ?rq] by simp
  obtain p' r bks' where "relay brouter json cfg x hq 2 (p, ph, si_backends s) = Inr (p', Finished r, bks')" "proxy_ok cfg p'"
    "length bks' = length (si_backends s)" "ms_active (px_metrics p') = ms_active (px_metrics p)"
    using relay_ends[OF a(2,3) sending attempts] by blast
  then show ?thesis using a(1,4) assms(3) Forward by (simp add: serve_request_def)
qed


definition first_match :: "'h router" where
  \<comment> \<open>a router that goes through its table in order\<close>
  "first_match table verb path = map_option (\<lambda>(_, _, h). h) (List.find (route_matches verb path) table)"

lemma first_match_in_order: "routes_in_order first_match table"
  by (simp add: routes_in_order_def first_match_def)

definition demo_draws :: service_draws where
  "demo_draws = \<lparr>sd_blow = (\<lambda>_. 0), sd_noise = (\<lambda>_. 0), sd_draw = 1/2\<rparr>"

definition demo_exchange :: exchange_inputs where
  "demo_exchange = \<lparr>xi_now = 0, xi_admin_now = 0, xi_peername = None, xi_kill_post_ok = True, xi_revive_post_ok = True,
     xi_file_ok = True, xi_draws = (\<lambda>_. demo_draws), xi_len = (\<lambda>_. 2), xi_latency = (\<lambda>_. 1), xi_end = (\<lambda>_. 1)\<rparr>"

definition demo_site :: site where
  "demo_site = \<lparr>si_proxy = demo_proxy, si_admin = \<lparr>as_limiter = limiter_init 60, as_health = health_init (px_n demo_proxy_config),
       as_posts = [], as_spike = None\<rparr>,
     si_backends = [backend_new (PROFILES ! 0) 0, backend_new (PROFILES ! 1) 0]\<rparr>"

definition demo_http :: "string \<Rightarrow> string \<Rightarrow> string \<Rightarrow> http_request" where
  "demo_http verb path body = \<lparr>hq_method = verb, hq_path = path, hq_query = [], hq_headers = [], hq_body = body,
     hq_remote = Some ''192.0.2.7''\<rparr>"


text \<open>
  The admin endpoint itself is guarded from end to end: a denied request changes neither the
  health of a backend nor the backends.
\<close>

lemma endpoint_guarded:
  assumes "routes_in_order prouter proxy_routes" and "hq_method hq = ''POST''" and "hq_path hq = ''/_omega/admin''"
    and "\<not> admitted acfg ((si_admin s)\<lparr>as_health := px_health (si_proxy s)\<rparr>) (admin_call json x hq)"
  shows "\<exists>s' r. serve_request prouter brouter json cfg acfg x hq s = Inr (s', AdminAnswered r) \<and>
           r \<in> {Forbidden, AdminRateLimited, Unauthorized} \<and>
           px_health (si_proxy s') = px_health (si_proxy s) \<and> si_backends s' = si_backends s"
  using handle_admin_denied[OF assms(4)] assms(2,3)
  by (auto simp: serve_request_def proxy_dispatch[OF assms(1)])

definition fault_body :: py_val where
  \<comment> \<open>the body \<open>handle_admin\<close> posts to a backend it kills\<close>
  "fault_body = PDict [(''overload'', PBool True), (''error_pct'', PInt 90)]"

lemma fault_applied:
  "backend_admin (Inr fault_body) s = (s\<lparr>bk_error_pct := 90, bk_overload := True\<rparr>, Inr ())"
  by (simp add: backend_admin_def fault_body_def andthen_def set_field_def)

lemma fault_received:
  assumes "routes_in_order router backend_routes" and "og_method og = ''POST''" and "og_path og = ''/_admin''"
    and "og_body og = Some body" and "json body = Inr fault_body"
  shows "backend_receive router json d og s = (s\<lparr>bk_error_pct := 90, bk_overload := True\<rparr>, 200)"
  using assms(2-5) by (simp add: backend_receive_def backend_dispatch[OF assms(1)] fault_applied)

text \<open>
  C10. The guard of the admin endpoint can be walked around: a POST to \<open>/_admin\<close> is no request of the
  endpoint for the proxy, which relays it like any other to the backend the ring names, whose own admin
  handler is unguarded. Whatever the allowlist, the token and the state of the limiter, the sender is
  answered 200 and that backend is in the faulty state of a killed one, no trace of it being left in
  the admin state.
\<close>

theorem forwarded_admin_bypasses_guard:
  assumes "routes_in_order prouter proxy_routes" and "routes_in_order brouter backend_routes"
    and "proxy_ok cfg (si_proxy s)" and "config_ok cfg"
    and "\<forall>b < px_n cfg. snd (tb_consume (px_buckets (si_proxy s) ! b) (xi_now x))"
    and "hq_method hq = ''POST''" and "hq_path hq = ''/_admin''" and "hq_body hq \<noteq> []" and "json (hq_body hq) = Inr fault_body"
  shows "\<exists>s' b v. serve_request prouter brouter json cfg acfg x hq s = Inr (s', Proxied (Finished (Relayed 200 b 1 v))) \<and>
           b < px_n cfg \<and> si_admin s' = si_admin s \<and>
           si_backends s' = (si_backends s)[b := (si_backends s ! b)\<lparr>bk_error_pct := 90, bk_overload := True\<rparr>]"
proof -
  let ?rq = "proxy_request hq" and ?b = "route (px_ring (si_proxy s)) (routing_key (proxy_request hq) (px_req_count (si_proxy s) + 1))"
  obtain p ph where a: "accept (si_proxy s) ?rq (xi_now x) = Inr (p, ph)" "proxy_ok cfg p" "phase_ok cfg ?rq ph"
    using accept_ok[OF assms(3,4)] by blast
  note d = proxy_okD[OF assms(3)]
  have b: "?b < px_n cfg" using route_range[OF d(1)] d(3) assms(4) by (simp add: config_ok_def)
  then have ph: "ph = Ready ?b [?b] 0"
    using a(1) d(8) assms(5) by (auto simp: accept_def Let_def split: prod.splits)
  obtain og where og: "outgoing_request cfg hq ?b = Inr og" "og_method og = ''POST''" "og_path og = ''/_admin''"
    "og_body og = Some (hq_body hq)"
    using outgoing_ok[OF b, of hq] assms(6-8) by auto
  have bk: "backend_receive brouter json (xi_draws x 0) og (si_backends s ! ?b) =
      ((si_backends s ! ?b)\<lparr>bk_error_pct := 90, bk_overload := True\<rparr>, 200)"
    by (rule fault_received[where json = json and body = "hq_body hq", OF assms(2) og(2-4) assms(9)])
  obtain p' v where "relay brouter json cfg x hq 2 (p, ph, si_backends s) = relay brouter json cfg x hq 1 (p', Finished (Relayed 200 ?b 1 v),
      (si_backends s)[?b := (si_backends s ! ?b)\<lparr>bk_error_pct := 90, bk_overload := True\<rparr>])"
    using relay_attempt[where status = 200 and n = 1, OF a(2) a(3)[unfolded ph] og(1) bk] ph by (auto simp: numeral_2_eq_2)
  then show ?thesis
    using a(1) b assms(6,7) by (auto simp: serve_request_def proxy_dispatch[OF assms(1)])
qed

theorem forwarded_admin_bypasses_guard_witness:
  "\<exists>s' b v. serve_request first_match first_match (\<lambda>_. Inr fault_body) demo_proxy_config (demo_config (Some ''secret'')) demo_exchange
     (demo_http ''POST'' ''/_admin'' ''{}'') demo_site = Inr (s', Proxied (Finished (Relayed 200 b 1 v))) \<and>
     bk_overload (si_backends s' ! b)"
proof -
  have n: "px_n demo_proxy_config = 2" "length (si_backends demo_site) = 2"
    by (simp_all add: demo_proxy_ok demo_site_def)
  have "\<forall>b < px_n demo_proxy_config. snd (tb_consume (px_buckets demo_proxy ! b) 0)"
    by (simp add: demo_proxy_def proxy_init_def tb_consume_def tb_init_def Let_def) (simp add: demo_proxy_config_def)
  then have "\<forall>b < px_n demo_proxy_config. snd (tb_consume (px_buckets (si_proxy demo_site) ! b) (xi_now demo_exchange))"
    by (simp add: demo_site_def demo_exchange_def)
  note bucket = this
  let ?hq = "demo_http ''POST'' ''/_admin'' ''{}''"
  have h: "hq_method ?hq = ''POST''" "hq_path ?hq = ''/_admin''" "hq_body ?hq \<noteq> []" by (simp_all add: demo_http_def)
  have p: "proxy_ok demo_proxy_config (si_proxy demo_site)" using demo_proxy_ok(1) by (simp add: demo_site_def)
  obtain s' b v where r: "serve_request first_match first_match (\<lambda>_. Inr fault_body) demo_proxy_config (demo_config (Some ''secret''))
      demo_exchange ?hq demo_site = Inr (s', Proxied (Finished (Relayed 200 b 1 v)))" "b < px_n demo_proxy_config"
    "si_backends s' = (si_backends demo_site)[b := (si_backends demo_site ! b)\<lparr>bk_error_pct := 90, bk_overload := True\<rparr>]"
    using forwarded_admin_bypasses_guard[where json = "\<lambda>_. Inr fault_body" and acfg = "demo_config (Some ''secret'')",
        OF first_match_in_order first_match_in_order p demo_config_ok bucket h] by blast
  then have "bk_overload (si_backends s' ! b)" using n by simp
  then show ?thesis using r(1) by blast
qed

end
