(* ===== verification/Proxy_Life.thy ===== *)
theory Proxy_Life
  imports Config_Loader Dispatch
begin

text \<open>
  The life of the proxy process, \<open>start\<close>, \<open>close\<close>, \<open>run_proxy\<close> and \<open>main\<close> of \<open>demo/proxy.py\<close>: which
  sessions, tasks and sockets exist at each point between start-up and the end, while signals and requests
  come at any time. Whether the certificate loads and the port is free are arguments. What
  the HTTP library promises of \<open>runner.cleanup\<close> is used: it stops listening at once and returns
  when no handler is running.
\<close>

section \<open>State\<close>

datatype life_stage =
    Fresh \<comment> \<open>the signal handlers are installed\<close>
  | Started \<comment> \<open>\<open>proxy.start\<close> has returned\<close>
  | Set_up \<comment> \<open>\<open>runner.setup\<close> has returned\<close>
  | Serving \<comment> \<open>waiting for the stop event\<close>
  | Draining \<comment> \<open>in \<open>runner.cleanup\<close>\<close>
  | Drained
  | Stopped
  | Crashed py_err \<comment> \<open>an exception has left \<open>main\<close>\<close>

record life =
  lf_stage :: life_stage
  lf_session :: bool \<comment> \<open>the client session and its connector, for requests to backends\<close>
  lf_health_session :: bool
  lf_health_task :: bool
  lf_control_task :: bool
  lf_secure :: bool
  lf_listening :: bool
  lf_stop :: bool \<comment> \<open>the stop event\<close>
  lf_handlers :: nat \<comment> \<open>handlers running\<close>

definition life_init :: life where
  "life_init = \<lparr>lf_stage = Fresh, lf_session = False, lf_health_session = False, lf_health_task = False,
     lf_control_task = False, lf_secure = False, lf_listening = False, lf_stop = False, lf_handlers = 0\<rparr>"

section \<open>Operations\<close>

definition health_start :: "life \<Rightarrow> life" where
  \<comment> \<open>\<open>HealthChecker.start\<close>\<close>
  "health_start l = l\<lparr>lf_health_session := True, lf_health_task := True\<rparr>"

definition proxy_start :: "life \<Rightarrow> life" where
  "proxy_start l = (health_start (l\<lparr>lf_session := True\<rparr>))\<lparr>lf_control_task := True\<rparr>"

definition proxy_close :: "life \<Rightarrow> life" where
  "proxy_close l = l\<lparr>lf_session := False\<rparr>"

definition open_site :: "settings \<Rightarrow> bool \<Rightarrow> bool \<Rightarrow> life \<Rightarrow> life" where
  \<comment> \<open>from the TLS context to the end of \<open>run_proxy\<close>\<close>
  "open_site st cert_ok port_free l =
     (if uses_tls st \<and> \<not> cert_ok then l\<lparr>lf_stage := Crashed OSError\<rparr>
      else if \<not> port_free then l\<lparr>lf_stage := Crashed OSError\<rparr>
      else l\<lparr>lf_secure := uses_tls st, lf_listening := True, lf_stage := Serving\<rparr>)"

definition protocol :: "settings \<Rightarrow> string" where
  "protocol st = (if uses_tls st then ''https'' else ''http'')"

inductive life_step :: "settings \<Rightarrow> life \<Rightarrow> life \<Rightarrow> bool" for st :: settings where
  boot: "lf_stage l = Fresh \<Longrightarrow> life_step st l ((proxy_start l)\<lparr>lf_stage := Started\<rparr>)"
| set_up: "lf_stage l = Started \<Longrightarrow> life_step st l (l\<lparr>lf_stage := Set_up\<rparr>)"
| site: "lf_stage l = Set_up \<Longrightarrow> life_step st l (open_site st cert_ok port_free l)"
| signal: "life_step st l (l\<lparr>lf_stop := True\<rparr>)"
| request: "lf_listening l \<Longrightarrow> life_step st l (l\<lparr>lf_handlers := lf_handlers l + 1\<rparr>)"
| answered: "lf_handlers l = Suc n \<Longrightarrow> life_step st l (l\<lparr>lf_handlers := n\<rparr>)"
| woken: "lf_stage l = Serving \<Longrightarrow> lf_stop l \<Longrightarrow> life_step st l (l\<lparr>lf_listening := False, lf_stage := Draining\<rparr>)"
| cleaned: "lf_stage l = Draining \<Longrightarrow> lf_handlers l = 0 \<Longrightarrow> life_step st l (l\<lparr>lf_stage := Drained\<rparr>)"
| closed: "lf_stage l = Drained \<Longrightarrow> life_step st l ((proxy_close l)\<lparr>lf_stage := Stopped\<rparr>)"

section \<open>The invariant\<close>

definition life_up :: "life \<Rightarrow> bool" where
  "life_up l \<longleftrightarrow> lf_session l \<and> lf_health_session l \<and> lf_health_task l \<and> lf_control_task l"

definition life_ok :: "settings \<Rightarrow> life \<Rightarrow> bool" where
  "life_ok st l \<longleftrightarrow>
     (case lf_stage l of
        Fresh \<Rightarrow> \<not> lf_listening l \<and> lf_handlers l = 0
      | Started \<Rightarrow> life_up l \<and> \<not> lf_listening l \<and> lf_handlers l = 0
      | Set_up \<Rightarrow> life_up l \<and> \<not> lf_listening l \<and> lf_handlers l = 0
      | Serving \<Rightarrow> life_up l \<and> lf_listening l \<and> (lf_secure l \<longleftrightarrow> uses_tls st)
      | Draining \<Rightarrow> life_up l \<and> \<not> lf_listening l \<and> (lf_secure l \<longleftrightarrow> uses_tls st) \<and> lf_stop l
      | Drained \<Rightarrow> life_up l \<and> \<not> lf_listening l \<and> lf_handlers l = 0 \<and> lf_stop l
      | Stopped \<Rightarrow> \<not> lf_session l \<and> lf_health_session l \<and> \<not> lf_listening l \<and> lf_handlers l = 0 \<and> lf_stop l
      | Crashed e \<Rightarrow> \<not> lf_listening l \<and> lf_handlers l = 0)"

lemmas life_ops = proxy_start_def health_start_def proxy_close_def life_up_def

lemma life_step_ok:
  assumes "life_ok st l" and "life_step st l l'"
  shows "life_ok st l'"
  using assms(2)
proof cases
  case (site cert_ok port_free)
  then show ?thesis using assms(1) by (simp add: life_ok_def open_site_def life_up_def)
next
  case request
  then show ?thesis using assms(1) by (cases "lf_stage l") (simp_all add: life_ok_def life_up_def)
next
  case (answered n)
  then show ?thesis using assms(1) by (cases "lf_stage l") (simp_all add: life_ok_def life_up_def)
next
  case signal
  then show ?thesis using assms(1) by (cases "lf_stage l") (simp_all add: life_ok_def life_up_def)
qed (use assms(1) in \<open>simp_all add: life_ok_def life_ops\<close>)

interpretation process: invariant_system "\<lambda>l. l = life_init" "life_step st" "life_ok st" for st
proof unfold_locales
  show "life_ok st l" if "l = life_init" for l using that by (simp add: life_ok_def life_init_def)
qed (rule life_step_ok)

section \<open>Properties\<close>

text \<open>
  C11. No handler ever meets a closed client session: in every reachable state of the process, while the
  proxy listens or a handler runs, the session to the backends is open and both background tasks have
  been started; once the process has stopped no handler runs and the session is closed. It listens with
  TLS exactly when a certificate and a key are configured. The session of the health checker is
  never closed.
\<close>

theorem session_outlives_handlers:
  assumes "(life_step st)\<^sup>*\<^sup>* life_init l"
  shows "(lf_listening l \<or> 0 < lf_handlers l \<longrightarrow> lf_session l \<and> lf_health_task l \<and> lf_control_task l \<and> (lf_secure l \<longleftrightarrow> uses_tls st)) \<and>
         (lf_stage l = Stopped \<longrightarrow> lf_handlers l = 0 \<and> \<not> lf_session l \<and> lf_stop l \<and> lf_health_session l)"
  using process.reached_inv[OF refl assms] by (cases "lf_stage l") (simp_all add: life_ok_def life_up_def)

lemma handlers_finish: "(life_step st)\<^sup>*\<^sup>* l (l\<lparr>lf_handlers := 0\<rparr>)"
proof (induction "lf_handlers l" arbitrary: l)
  case 0
  then have "l\<lparr>lf_handlers := 0\<rparr> = l" by simp
  then show ?case by simp
next
  case (Suc n)
  have "life_step st l (l\<lparr>lf_handlers := n\<rparr>)" by (rule life_step.answered[OF Suc.hyps(2)[symmetric]])
  moreover have "(life_step st)\<^sup>*\<^sup>* (l\<lparr>lf_handlers := n\<rparr>) (l\<lparr>lf_handlers := 0\<rparr>)"
    using Suc.hyps(1)[of "l\<lparr>lf_handlers := n\<rparr>"] by simp
  ultimately show ?case by (rule converse_rtranclp_into_rtranclp)
qed

definition can_stop :: "settings \<Rightarrow> life \<Rightarrow> bool" where
  "can_stop st l \<longleftrightarrow> (\<exists>l'. (life_step st)\<^sup>*\<^sup>* l l' \<and> lf_stage l' = Stopped)"

lemma can_stop_step: "life_step st l l' \<Longrightarrow> can_stop st l' \<Longrightarrow> can_stop st l"
  unfolding can_stop_def by (meson converse_rtranclp_into_rtranclp)

lemma stopped_stops: "lf_stage l = Stopped \<Longrightarrow> can_stop st l"
  unfolding can_stop_def by blast

lemma drained_stops: "lf_stage l = Drained \<Longrightarrow> can_stop st l"
  by (rule can_stop_step[OF life_step.closed stopped_stops]) simp_all

lemma draining_stops:
  assumes "lf_stage l = Draining"
  shows "can_stop st l"
proof -
  have "can_stop st (l\<lparr>lf_handlers := 0\<rparr>)"
    by (rule can_stop_step[OF life_step.cleaned drained_stops]) (simp_all add: assms)
  then show ?thesis using handlers_finish[of st l] unfolding can_stop_def by (meson rtranclp_trans)
qed

lemma serving_stops: "lf_stage l = Serving \<Longrightarrow> lf_stop l \<Longrightarrow> can_stop st l"
  by (rule can_stop_step[OF life_step.woken draining_stops]) simp_all

lemma set_up_stops: "lf_stage l = Set_up \<Longrightarrow> lf_stop l \<Longrightarrow> can_stop st l"
  by (rule can_stop_step[OF life_step.site[of _ _ True True] serving_stops]) (simp_all add: open_site_def)

lemma started_stops: "lf_stage l = Started \<Longrightarrow> lf_stop l \<Longrightarrow> can_stop st l"
  by (rule can_stop_step[OF life_step.set_up set_up_stops]) simp_all

lemma fresh_stops: "lf_stage l = Fresh \<Longrightarrow> lf_stop l \<Longrightarrow> can_stop st l"
  by (rule can_stop_step[OF life_step.boot started_stops]) (simp_all add: life_ops)

text \<open>
  A signal is never lost: wherever it comes, be it before the proxy listens or with requests under way, the
  process can go on to its regular end, unless an exception ended it.
\<close>

theorem signal_never_lost:
  assumes "lf_stop l" and "\<forall>e. lf_stage l \<noteq> Crashed e"
  shows "can_stop st l"
  using assms fresh_stops started_stops set_up_stops serving_stops draining_stops drained_stops stopped_stops
  by (cases "lf_stage l") simp_all

theorem signal_never_lost_witness: "\<forall>st. can_stop st (life_init\<lparr>lf_stop := True\<rparr>)"
  by (intro allI signal_never_lost) (simp_all add: life_init_def)

theorem session_outlives_handlers_witness:
  "\<forall>st. \<exists>l. (life_step st)\<^sup>*\<^sup>* life_init l \<and> lf_stage l = Stopped \<and> lf_handlers l = 0 \<and> lf_health_session l"
proof
  fix st
  have "can_stop st (life_init\<lparr>lf_stop := True\<rparr>)" by (rule fresh_stops) (simp_all add: life_init_def)
  then have "can_stop st life_init" by (rule can_stop_step[OF life_step.signal])
  then obtain l where l: "(life_step st)\<^sup>*\<^sup>* life_init l" "lf_stage l = Stopped" unfolding can_stop_def by blast
  then show "\<exists>l. (life_step st)\<^sup>*\<^sup>* life_init l \<and> lf_stage l = Stopped \<and> lf_handlers l = 0 \<and> lf_health_session l"
    using session_outlives_handlers[OF l(1)] by blast
qed

text \<open>
  Requests to backends are never encrypted: whatever \<open>tls.upstream_tls\<close> says, the URL of a forwarded
  request begins with \<open>http\<close>.
\<close>

lemma upstream_tls_ignored:
  assumes "truthy (st_tls_upstream st)" and "outgoing_request (proxy_config_of st) hq b = Inr og"
  shows "og_scheme og = ''http''"
  using assms by (auto simp: outgoing_request_def bindE_Inr_iff)

end
