(* ===== verification/Bench_Harness.thy ===== *)
theory Bench_Harness
  imports Ppo_Core
begin

text \<open>
  The benchmark harness \<open>bench/benchmark.py\<close>: the routing policies it compares and the run that
  measures one of them on the trainer's environment. The trained actor and the random draws are
  arguments; the printed table is left out.
\<close>

section \<open>Policies\<close>

type_synonym 'p policy = "'p \<Rightarrow> real list \<Rightarrow> nat \<Rightarrow> 'p \<times> real list"

definition one_hot :: "nat \<Rightarrow> nat \<Rightarrow> real list" where
  "one_hot n k = (replicate n 0)[k := 1]"

definition policy_round_robin :: "nat policy" where
  \<comment> \<open>the state is \<open>rr_state["idx"]\<close>, initially zero\<close>
  "policy_round_robin idx state n = (let idx = (idx + 1) mod n in (idx, one_hot n idx))"

definition policy_least_connections :: "unit policy" where
  "policy_least_connections u state n =
     (let conns = map (\<lambda>i. state ! (i * 8 + 1)) [0..<n] in (u, one_hot n (np_argmin conns)))"

definition policy_uniform :: "unit policy" where
  "policy_uniform u state n = (u, replicate n (1 / real n))"

definition policy_omega_lb :: "(real list \<Rightarrow> real list) \<Rightarrow> bool \<Rightarrow> unit policy" where
  "policy_omega_lb actor use_cbf u state n =
     (let w = actor state
      in (u, if use_cbf then hd (cbf_project (5/10) (80/100) (5/100) 200 [w] [map (\<lambda>i. state ! (i * 8)) [0..<n]])
             else w))"

section \<open>A run\<close>

record bench_draws =
  bd_noise :: real \<comment> \<open>of the environment\<close>
  bd_gauss :: real \<comment> \<open>\<open>random.gauss(0, 2)\<close>\<close>
  bd_reset :: "real list"

record 'p bench_run =
  br_env :: lb_env
  br_state :: "real list"
  br_policy :: 'p
  br_latencies :: "real list"
  br_violations :: nat
  br_loads :: "real list list"

record bench_result =
  be_throughput_rps :: real
  be_p50_ms :: real
  be_p99_ms :: real
  be_p999_ms :: real
  be_balance_factor :: real
  be_violations_pct :: real
  be_steps :: nat

definition clip_normalise :: "real list \<Rightarrow> real list" where
  "clip_normalise w =
     (let w = map (\<lambda>x. max x 0) w; s = sum_list w in if s > 0 then map (\<lambda>x. x / s) w else w)"

definition bench_step :: "'p policy \<Rightarrow> ppo_config \<Rightarrow> 'p bench_run \<Rightarrow> bench_draws \<Rightarrow> 'p bench_run" where
  "bench_step policy cfg r d =
     (case policy (br_policy r) (br_state r) (pp_num_backends cfg) of (ps, w) \<Rightarrow>
      case lb_step cfg (br_env r) (clip_normalise w) (bd_noise d) of (env, next_state, reward, finished) \<Rightarrow>
        let load_fracs = map2 (/) (le_loads env) (le_capacities env);
            p99_ms = np_max load_fracs * 200 + bd_gauss d;
            r = r\<lparr>br_policy := ps, br_env := env, br_state := next_state,
                  br_loads := br_loads r @ [load_fracs], br_latencies := br_latencies r @ [max 0 p99_ms],
                  br_violations := br_violations r + (if \<exists>x \<in> set load_fracs. x > 1 then 1 else 0)\<rparr>
        in if finished then (case lb_reset env (bd_reset d) of (env, state) \<Rightarrow> r\<lparr>br_env := env, br_state := state\<rparr>)
           else r)"

definition bench_start :: "ppo_config \<Rightarrow> 'p \<Rightarrow> real list \<Rightarrow> 'p bench_run" where
  "bench_start cfg ps us =
     (case lb_reset (lb_init cfg) us of (env, state) \<Rightarrow>
        \<lparr>br_env = env, br_state = state, br_policy = ps, br_latencies = [], br_violations = 0, br_loads = []\<rparr>)"

definition bench_report :: "nat \<Rightarrow> 'p bench_run \<Rightarrow> bench_result" where
  "bench_report steps r =
     (let lat = sort (br_latencies r); n = length lat
      in \<lparr>be_throughput_rps = real steps / (real steps * (5/10) / 1000),
          be_p50_ms = lat ! nat (py_int (real n * (50/100))), be_p99_ms = lat ! nat (py_int (real n * (99/100))),
          be_p999_ms = (if n \<ge> 1000 then lat ! nat (py_int (real n * (999/1000))) else last lat),
          be_balance_factor = vmean (map (\<lambda>l. np_max l / (vmean l + 1 / 10 ^ 9)) (br_loads r)),
          be_violations_pct = 100 * real (br_violations r) / real steps, be_steps = steps\<rparr>)"

definition run_benchmark :: "'p policy \<Rightarrow> ppo_config \<Rightarrow> 'p \<Rightarrow> real list \<Rightarrow> bench_draws list \<Rightarrow> bench_result" where
  \<comment> \<open>one element of the draws per step\<close>
  "run_benchmark policy cfg ps us ds =
     bench_report (length ds) (foldl (bench_step policy cfg) (bench_start cfg ps us) ds)"

section \<open>Policies return probability vectors\<close>

definition fair_policy :: "'p policy \<Rightarrow> nat \<Rightarrow> bool" where
  \<comment> \<open>the contract of a policy: weights for every backend\<close>
  "fair_policy policy n \<longleftrightarrow>
     (\<forall>ps st. length st = n * 8 + 4 \<longrightarrow> length (snd (policy ps st n)) = n \<and> is_dist (snd (policy ps st n)))"

lemma one_hot_dist: "k < n \<Longrightarrow> is_dist (one_hot n k) \<and> length (one_hot n k) = n"
proof -
  assume k: "k < n"
  have "sum_list (one_hot n k) = 1" using k by (simp add: one_hot_def sum_list_set sum_list_replicate)
  moreover have "set (one_hot n k) \<subseteq> {0, 1}" unfolding one_hot_def using set_update_subset_insert by fastforce
  ultimately show ?thesis by (auto simp: is_dist_def one_hot_def)
qed

lemma round_robin_fair: "0 < n \<Longrightarrow> fair_policy policy_round_robin n"
  by (simp add: fair_policy_def policy_round_robin_def Let_def one_hot_dist)

lemma least_connections_fair: "0 < n \<Longrightarrow> fair_policy policy_least_connections n"
  using np_argmin_less[of "map (\<lambda>i. st ! (i * 8 + 1)) [0..<n]" for st]
  by (simp add: fair_policy_def policy_least_connections_def Let_def one_hot_dist)

lemma uniform_fair: "0 < n \<Longrightarrow> fair_policy policy_uniform n"
  by (simp add: fair_policy_def policy_uniform_def is_dist_uniform)

lemma omega_lb_fair:
  assumes "0 < n" and "\<forall>st. length (actor st) = n \<and> is_dist (actor st)"
  shows "fair_policy (policy_omega_lb actor use_cbf) n"
proof -
  have "length (hd (cbf_project (5/10) (80/100) (5/100) 200 [actor st] [map (\<lambda>i. st ! (i * 8)) [0..<n]])) = n \<and>
        is_dist (hd (cbf_project (5/10) (80/100) (5/100) 200 [actor st] [map (\<lambda>i. st ! (i * 8)) [0..<n]]))" for st
  proof -
    let ?p = "cbf_project (5/10) (80/100) (5/100) 200 [actor st] [map (\<lambda>i. st ! (i * 8)) [0..<n]]"
    have "rows_ok 1 n ?p \<and> (\<forall>row \<in> set ?p. is_dist row)"
      by (rule cbf_project_rows) (use assms in \<open>simp_all add: rows_ok_def\<close>)
    then show ?thesis by (cases ?p) (auto simp: rows_ok_def)
  qed
  then show ?thesis using assms(2) by (simp add: fair_policy_def policy_omega_lb_def Let_def)
qed

lemma clip_normalise_dist: "is_dist w \<Longrightarrow> clip_normalise w = w"
proof -
  assume d: "is_dist w"
  have "map (\<lambda>x. max x 0) w = w" using d by (auto simp: is_dist_def intro!: map_idI)
  then show ?thesis using d by (simp add: clip_normalise_def is_dist_def)
qed

section \<open>The invariant of a run\<close>

definition bench_ok :: "nat \<Rightarrow> nat \<Rightarrow> 'p bench_run \<Rightarrow> bool" where
  \<comment> \<open>after \<open>k\<close> steps with \<open>n\<close> backends\<close>
  "bench_ok n k r \<longleftrightarrow> env_ok n (br_env r) \<and> br_state r = lb_state (br_env r) \<and>
     length (br_latencies r) = k \<and> (\<forall>x \<in> set (br_latencies r). 0 \<le> x) \<and>
     length (br_loads r) = k \<and> (\<forall>l \<in> set (br_loads r). length l = n \<and> (\<forall>x \<in> set l. 0 \<le> x)) \<and>
     br_violations r \<le> k"

definition bench_draws_ok :: "nat \<Rightarrow> bench_draws \<Rightarrow> bool" where
  "bench_draws_ok n d \<longleftrightarrow> length (bd_reset d) = n \<and> (\<forall>u \<in> set (bd_reset d). 0 \<le> u \<and> u \<le> 3/10)"

lemma bench_start_ok:
  assumes "length us = pp_num_backends cfg" and "\<forall>u \<in> set us. 0 \<le> u \<and> u \<le> 3/10"
  shows "bench_ok (pp_num_backends cfg) 0 (bench_start cfg ps us)"
proof -
  have "env_ok (pp_num_backends cfg) (lb_init cfg)" by (simp add: env_ok_def lb_init_def)
  then show ?thesis using lb_reset_ok[of "pp_num_backends cfg" "lb_init cfg" us] assms
    by (simp add: bench_ok_def bench_start_def case_prod_beta')
qed

lemma bench_step_ok:
  assumes "bench_ok (pp_num_backends cfg) k r" and "fair_policy policy (pp_num_backends cfg)"
    and "bench_draws_ok (pp_num_backends cfg) d"
  shows "bench_ok (pp_num_backends cfg) (Suc k) (bench_step policy cfg r d)"
proof -
  define n where "n = pp_num_backends cfg"
  obtain ps w where pw: "policy (br_policy r) (br_state r) n = (ps, w)" by fastforce
  have "length (br_state r) = n * 8 + 4" using assms(1) env_ok_state by (simp add: bench_ok_def n_def)
  then have "length (snd (policy (br_policy r) (br_state r) n)) = n \<and> is_dist (snd (policy (br_policy r) (br_state r) n))"
    using assms(2) unfolding fair_policy_def n_def by blast
  then have w: "length w = n" "clip_normalise w = w" using clip_normalise_dist by (simp_all add: pw)
  obtain env st reward fin where step: "lb_step cfg (br_env r) w (bd_noise d) = (env, st, reward, fin)" by (metis prod_cases4)
  have env: "env_ok n env" "st = lb_state env"
    using lb_step_ok[of n "br_env r" w cfg "bd_noise d"] lb_step_env(2)[of cfg "br_env r" w "bd_noise d"] assms(1) w(1)
    by (simp_all add: bench_ok_def n_def step)
  have caps: "le_capacities env = replicate n 100" "length (le_loads env) = n" "\<forall>l \<in> set (le_loads env). 0 \<le> l"
    using env(1) by (simp_all add: env_ok_def)
  have fracs: "map2 (/) (le_loads env) (le_capacities env) = map (\<lambda>l. l / 100) (le_loads env)"
    unfolding caps(1) by (rule map2_replicate[OF caps(2)])
  obtain env2 st2 where reset: "lb_reset env (bd_reset d) = (env2, st2)" by fastforce
  then have env2: "env_ok n env2" "st2 = lb_state env2"
    using lb_reset_ok[OF env(1), of "bd_reset d"] assms(3) by (simp_all add: bench_draws_ok_def n_def)
  define r2 where "r2 = r\<lparr>br_policy := ps, br_env := env, br_state := st,
     br_loads := br_loads r @ [map (\<lambda>l. l / 100) (le_loads env)],
     br_latencies := br_latencies r @ [max 0 (np_max (map (\<lambda>l. l / 100) (le_loads env)) * 200 + bd_gauss d)],
     br_violations := br_violations r + (if \<exists>x \<in> set (map (\<lambda>l. l / 100) (le_loads env)). x > 1 then 1 else 0)\<rparr>"
  have "bench_step policy cfg r d = (if fin then r2\<lparr>br_env := env2, br_state := st2\<rparr> else r2)"
    unfolding bench_step_def by (simp only: pw[unfolded n_def] w(2) step fracs reset prod.case Let_def r2_def)
  moreover have "bench_ok n (Suc k) r2" "bench_ok n (Suc k) (r2\<lparr>br_env := env2, br_state := st2\<rparr>)"
    using assms(1) env env2 caps(2,3) by (auto simp: r2_def bench_ok_def n_def)
  ultimately show ?thesis by (simp add: n_def)
qed

lemma bench_run_ok:
  assumes "bench_ok (pp_num_backends cfg) k r" and "fair_policy policy (pp_num_backends cfg)"
    and "\<forall>d \<in> set ds. bench_draws_ok (pp_num_backends cfg) d"
  shows "bench_ok (pp_num_backends cfg) (k + length ds) (foldl (bench_step policy cfg) r ds)"
  using assms
proof (induction ds arbitrary: k r)
  case (Cons d ds)
  then show ?case using bench_step_ok[of cfg k r policy d] Cons.IH[of "Suc k"] by simp
qed simp

lemma sorted_fraction:
  assumes "xs \<noteq> []" and "0 \<le> a" and "a \<le> c" and "c < 1"
  shows "sort xs ! nat (py_int (real (length xs) * a)) \<le> sort xs ! nat (py_int (real (length xs) * c))"
    and "nat (py_int (real (length xs) * c)) < length xs"
proof -
  have l: "0 < real (length xs)" using assms(1) by simp
  have "real (length xs) * c < real (length xs)" using l assms(4) by simp
  then have "py_int (real (length xs) * c) < int (length xs)" using assms(2,3) by (simp add: py_int_def floor_less_iff)
  moreover have "0 \<le> py_int (real (length xs) * c)" using assms(2,3) by (intro py_int_nonneg) simp
  ultimately show less: "nat (py_int (real (length xs) * c)) < length xs" by (simp add: nat_less_iff)
  have "py_int (real (length xs) * a) \<le> py_int (real (length xs) * c)"
    using assms(2,3) by (simp add: py_int_def floor_mono mult_left_mono)
  then show "sort xs ! nat (py_int (real (length xs) * a)) \<le> sort xs ! nat (py_int (real (length xs) * c))"
    using less by (intro sorted_nth_mono) (simp_all add: nat_mono)
qed

lemma max_over_mean:
  assumes "length l = n" and "0 < n" and "\<forall>x \<in> set l. 0 \<le> (x::real)" and "0 < e"
  shows "0 \<le> np_max l / (vmean l + e) \<and> np_max l / (vmean l + e) \<le> real n"
proof -
  have ne: "l \<noteq> []" using assms(1,2) by auto
  have m: "0 \<le> np_max l" "np_max l \<le> sum_list l"
    using np_max_in[OF ne] assms(3) member_le_sum_list_real by auto
  have v: "vmean l * real n = sum_list l" using assms(1,2) by (simp add: vmean_def)
  have "0 \<le> vmean l" using sum_list_nonneg_list[OF assms(3)] by (simp add: vmean_def)
  then have p: "0 < vmean l + e" using assms(4) by simp
  have "np_max l \<le> real n * (vmean l + e)" using m(2) v assms(4) by (simp add: distrib_left mult.commute add_increasing2)
  then show ?thesis using m(1) p by (simp add: divide_le_eq)
qed

lemma balance_range:
  "length l = n \<Longrightarrow> 0 < n \<Longrightarrow> \<forall>x \<in> set l. 0 \<le> (x::real) \<Longrightarrow>
     0 \<le> np_max l / (vmean l + 1 / 10 ^ 9) \<and> np_max l / (vmean l + 1 / 10 ^ 9) \<le> real n"
  by (rule max_over_mean) simp_all

section \<open>Properties\<close>

text \<open>
  The report of a run is well formed for every policy that returns probability vectors: ordered
  non-negative percentiles, a percentage of violations, a balance factor of at most the number of
  backends.
\<close>
theorem bench_report_well_formed:
  assumes "0 < pp_num_backends cfg" and "fair_policy policy (pp_num_backends cfg)" and "ds \<noteq> []"
    and "\<forall>d \<in> set ds. bench_draws_ok (pp_num_backends cfg) d"
    and "length us = pp_num_backends cfg \<and> (\<forall>u \<in> set us. 0 \<le> u \<and> u \<le> 3/10)"
  shows "let b = run_benchmark policy cfg ps us ds in
    0 \<le> be_p50_ms b \<and> be_p50_ms b \<le> be_p99_ms b \<and> be_p99_ms b \<le> be_p999_ms b \<and>
    0 \<le> be_violations_pct b \<and> be_violations_pct b \<le> 100 \<and>
    0 \<le> be_balance_factor b \<and> be_balance_factor b \<le> real (pp_num_backends cfg)"
proof -
  define r where "r = foldl (bench_step policy cfg) (bench_start cfg ps us) ds"
  have ok: "bench_ok (pp_num_backends cfg) (length ds) r"
    using bench_run_ok[OF bench_start_ok assms(2,4)] assms(5) by (simp add: r_def)
  define xs where "xs = br_latencies r"
  have xs: "xs \<noteq> []" "length xs = length ds" "\<forall>x \<in> set xs. 0 \<le> x" using ok assms(3) by (auto simp: bench_ok_def xs_def)
  note p = sorted_fraction[OF xs(1)]
  have p50: "0 \<le> sort xs ! nat (py_int (real (length xs) * (50/100)))"
    using p(2)[of "50/100" "50/100"] xs(3) by (simp flip: set_sort) (metis length_sort nth_mem set_sort)
  have "sort xs ! nat (py_int (real (length xs) * (99/100))) \<le> last (sort xs)"
    using p(2)[of "99/100" "99/100"] nth_mem[of _ "sort xs"] by (intro sorted_last) (simp_all del: set_sort)
  then have p99: "sort xs ! nat (py_int (real (length xs) * (99/100))) \<le>
      (if length xs \<ge> 1000 then sort xs ! nat (py_int (real (length xs) * (999/1000))) else last (sort xs))"
    using p(1)[of "99/100" "999/1000"] by simp
  have bal: "\<forall>x \<in> set (map (\<lambda>l. np_max l / (vmean l + 1 / 10 ^ 9)) (br_loads r)). 0 \<le> x \<and> x \<le> real (pp_num_backends cfg)"
    using ok balance_range assms(1) by (auto simp only: bench_ok_def set_map)
  have "br_loads r \<noteq> []" using ok assms(3) by (auto simp: bench_ok_def)
  then have mean: "0 \<le> vmean (map (\<lambda>l. np_max l / (vmean l + 1 / 10 ^ 9)) (br_loads r)) \<and>
      vmean (map (\<lambda>l. np_max l / (vmean l + 1 / 10 ^ 9)) (br_loads r)) \<le> real (pp_num_backends cfg)"
    by (intro vmean_bounds bal) simp
  have viol: "0 \<le> 100 * real (br_violations r) / real (length ds)" "100 * real (br_violations r) / real (length ds) \<le> 100"
    using ok assms(3) by (simp_all add: bench_ok_def divide_le_eq)
  have "sort xs ! nat (py_int (real (length xs) * (50/100))) \<le> sort xs ! nat (py_int (real (length xs) * (99/100)))"
    by (rule p(1)) simp_all
  then show ?thesis
    using p50 p99 mean viol
    unfolding run_benchmark_def r_def[symmetric] bench_report_def Let_def xs_def[symmetric]
    by (simp only: bench_result.simps length_sort simp_thms)
qed

definition bench_cfg :: ppo_config where
  "bench_cfg = ppo_default 2"

lemma bench_cfg_backends: "pp_num_backends bench_cfg = 2"
  by (simp add: bench_cfg_def ppo_default_def)

theorem bench_report_well_formed_witness:
  "be_p50_ms (run_benchmark policy_round_robin bench_cfg 0 [0, 1/4] [\<lparr>bd_noise = 1, bd_gauss = -1, bd_reset = [0, 0]\<rparr>])
   \<le> be_p99_ms (run_benchmark policy_round_robin bench_cfg 0 [0, 1/4] [\<lparr>bd_noise = 1, bd_gauss = -1, bd_reset = [0, 0]\<rparr>])"
  by (rule bench_report_well_formed[unfolded Let_def, THEN conjunct2, THEN conjunct1])
    (simp_all add: bench_cfg_backends round_robin_fair bench_draws_ok_def)

text \<open>
  The reported throughput is 2000 requests per second whatever the policy, so the ratio of two
  policies that the suite checks against its target of 2 is always 1.
\<close>
theorem throughput_constant:
  assumes "ds \<noteq> []"
  shows "be_throughput_rps (run_benchmark policy cfg ps us ds) = 2000"
  using assms by (simp add: run_benchmark_def bench_report_def Let_def)

theorem throughput_constant_witness:
  "be_throughput_rps (run_benchmark policy_uniform bench_cfg () [0, 0] [\<lparr>bd_noise = 1, bd_gauss = 0, bd_reset = [0, 0]\<rparr>]) = 2000"
  by (rule throughput_constant) simp

definition rr_choice :: "nat \<Rightarrow> nat \<Rightarrow> nat" where
  \<comment> \<open>the backend round robin picks in step \<open>t\<close>\<close>
  "rr_choice n t = ((\<lambda>idx. fst (policy_round_robin idx [] n)) ^^ (t + 1)) 0"

lemma rr_choice_eq: "0 < n \<Longrightarrow> rr_choice n t = (t + 1) mod n"
  unfolding rr_choice_def by (induction t) (simp_all add: policy_round_robin_def Let_def mod_Suc_eq)

lemma filter_upt_single: "j < n \<Longrightarrow> filter (\<lambda>t. t = j) [0..<n] = [j]"
  by (induction n) (auto simp: less_Suc_eq filter_empty_conv)

lemma count_rounds: "0 < n \<Longrightarrow> i < n \<Longrightarrow> length (filter (\<lambda>t. (t + 1) mod n = i) [0..<k * n]) = k"
proof (induction k)
  case (Suc k)
  define j where "j = (if i = 0 then n - 1 else i - 1)"
  have "[0..<Suc k * n] = [0..<k * n] @ map (\<lambda>t. k * n + t) [0..<n]"
    using upt_add_eq_append[of 0 "k * n" n] map_add_upt[of "k * n" n] by (simp add: add.commute)
  moreover have "filter (\<lambda>t. (k * n + t + 1) mod n = i) [0..<n] = [j]"
  proof -
    have hit: "(k * n + t + 1) mod n = i \<longleftrightarrow> t = j" if "t < n" for t
    proof -
      have "(k * n + t + 1) mod n = (t + 1) mod n" by (metis add.assoc mod_mult_self3)
      also have "\<dots> = (if t + 1 = n then 0 else t + 1)" using that by simp
      finally show ?thesis using that Suc.prems by (auto simp: j_def)
    qed
    have "filter (\<lambda>t. (k * n + t + 1) mod n = i) [0..<n] = filter (\<lambda>t. t = j) [0..<n]"
      using hit by (intro filter_cong) auto
    also have "\<dots> = [j]" using Suc.prems by (intro filter_upt_single) (auto simp: j_def)
    finally show ?thesis .
  qed
  ultimately show ?case using Suc by (simp add: filter_map comp_def)
qed simp

text \<open>Over any number of full rounds, round robin sends the same number of steps to each backend.\<close>
theorem round_robin_even:
  assumes "0 < n" and "i < n"
  shows "length (filter (\<lambda>t. rr_choice n t = i) [0..<k * n]) = k"
  using count_rounds[OF assms] by (simp add: rr_choice_eq[OF assms(1)])

theorem round_robin_even_witness: "length (filter (\<lambda>t. rr_choice 3 t = 1) [0..<4 * 3]) = 4"
  by (rule round_robin_even) simp_all

section \<open>The suite\<close>

record criteria =
  ct_throughput_ratio :: real
  ct_p99_ratio :: real
  ct_violations_pct :: real
  ct_balance_factor :: real

definition py_div :: "real \<Rightarrow> real \<Rightarrow> py_err + real" where
  "py_div x y = (if y = 0 then Inl ZeroDivisionError else Inr (x / y))"

definition SUITE_STEPS :: nat where "SUITE_STEPS = 5000"

definition suite_results :: "(real list \<Rightarrow> real list) \<Rightarrow> (nat \<Rightarrow> real list \<times> bench_draws list) \<Rightarrow> bench_result list" where
  \<comment> \<open>the five runs of \<open>main\<close>; \<open>inp k\<close> is what run \<open>k\<close> draws, and the actor is that of a new trainer\<close>
  "suite_results actor inp =
     (let cfg = ppo_default 4
      in [run_benchmark policy_round_robin cfg 0 (fst (inp 0)) (take SUITE_STEPS (snd (inp 0))),
          run_benchmark policy_least_connections cfg () (fst (inp 1)) (take SUITE_STEPS (snd (inp 1))),
          run_benchmark policy_uniform cfg () (fst (inp 2)) (take SUITE_STEPS (snd (inp 2))),
          run_benchmark (policy_omega_lb actor False) cfg () (fst (inp 3)) (take SUITE_STEPS (snd (inp 3))),
          run_benchmark (policy_omega_lb actor True) cfg () (fst (inp 4)) (take SUITE_STEPS (snd (inp 4)))])"

definition success_criteria :: "bench_result list \<Rightarrow> py_err + criteria" where
  \<comment> \<open>the printed comparison of the last run with the first\<close>
  "success_criteria results =
     (let omega = last results; rr = hd results
      in bindE (py_div (be_throughput_rps omega) (be_throughput_rps rr)) (\<lambda>t.
         bindE (py_div (be_p99_ms omega) (be_p99_ms rr)) (\<lambda>p.
           Inr \<lparr>ct_throughput_ratio = t, ct_p99_ratio = p, ct_violations_pct = be_violations_pct omega,
                ct_balance_factor = be_balance_factor omega\<rparr>)))"

lemma run_throughput: "ds \<noteq> [] \<Longrightarrow> be_throughput_rps (run_benchmark policy cfg ps us ds) = 2000"
  by (simp add: run_benchmark_def bench_report_def Let_def)

text \<open>
  The suite cannot reach its own target: whatever the trained actor and whatever is drawn, the
  throughput of Omega-LB relative to round robin is exactly 1 where at least 2 is asked for; and the
  comparison raises when round robin's 99th percentile is zero.
\<close>
theorem suite_throughput_target_unreachable:
  assumes "\<forall>k < 5. snd (inp k) \<noteq> []"
  shows "if be_p99_ms (hd (suite_results actor inp)) = 0
    then success_criteria (suite_results actor inp) = Inl ZeroDivisionError
    else \<exists>c. success_criteria (suite_results actor inp) = Inr c \<and> ct_throughput_ratio c = 1"
proof -
  have t: "be_throughput_rps (hd (suite_results actor inp)) = 2000" "be_throughput_rps (last (suite_results actor inp)) = 2000"
    using assms by (simp_all add: suite_results_def Let_def run_throughput SUITE_STEPS_def)
  show ?thesis by (simp add: success_criteria_def py_div_def t Let_def)
qed

theorem suite_throughput_target_unreachable_witness:
  "let rs = suite_results (\<lambda>st. [1, 0, 0, 0]) (\<lambda>k. ([0, 0, 0, 0], [\<lparr>bd_noise = 1, bd_gauss = 0, bd_reset = [0, 0, 0, 0]\<rparr>]))
   in success_criteria rs = Inl ZeroDivisionError \<or> (\<exists>c. success_criteria rs = Inr c \<and> ct_throughput_ratio c = 1)"
  using suite_throughput_target_unreachable[of "\<lambda>k. ([0, 0, 0, 0], [\<lparr>bd_noise = 1, bd_gauss = 0, bd_reset = [0, 0, 0, 0]\<rparr>])"
      "\<lambda>st. [1, 0, 0, 0]"]
  unfolding Let_def by (auto split: if_splits)

end
