(* ===== verification/Policy_Nets.thy ===== *)
theory Policy_Nets
  imports Kan_Layer Ppo_Core Dqn_Training
begin

text \<open>
  The networks of the trainers and their losses: the Q network and the shared A3C actor of
  \<open>ml/dqn_a3c/train_dqn_a3c.py\<close>, the critic of \<open>ml/ppo/train_ppo_kan.py\<close>, and the scalars the
  optimisers minimise. Learned parameters are data. The layers compute what the library documents for
  them; the cumulative normal distribution inside GELU, and the log probability and entropy of
  the Dirichlet distribution, are parameters, and so is everything that differentiates.
\<close>

section \<open>Layers\<close>

record dense =
  de_weight :: "real list list"
  de_bias :: "real list"

definition dense_forward :: "dense \<Rightarrow> real list \<Rightarrow> real list" where
  "dense_forward l x = map2 (\<lambda>row b. dot row x + b) (de_weight l) (de_bias l)"

definition dense_ok :: "nat \<Rightarrow> dense \<Rightarrow> bool" where
  "dense_ok n l \<longleftrightarrow> length (de_weight l) = n \<and> length (de_bias l) = n"

definition relu :: "real list \<Rightarrow> real list" where
  "relu xs = map (max 0) xs"

record norm =
  no_weight :: "real list"
  no_bias :: "real list"

definition standard_score :: "real list \<Rightarrow> real list" where
  \<comment> \<open>centred and scaled by the biased standard deviation, with the library's epsilon\<close>
  "standard_score xs = map (\<lambda>x. (x - vmean xs) / sqrt (np_var xs + 1 / 10 ^ 5)) xs"

definition layer_norm :: "norm \<Rightarrow> real list \<Rightarrow> real list" where
  "layer_norm l xs = map2 (+) (map2 (*) (standard_score xs) (no_weight l)) (no_bias l)"

definition gelu :: "(real \<Rightarrow> real) \<Rightarrow> real list \<Rightarrow> real list" where
  "gelu phi xs = map (\<lambda>x. x * phi x) xs"

section \<open>Networks\<close>

record q_net =
  qn_in :: dense
  qn_hidden :: dense
  qn_out :: dense

definition q_forward :: "q_net \<Rightarrow> real list \<Rightarrow> real list" where
  "q_forward n x = dense_forward (qn_out n) (relu (dense_forward (qn_hidden n) (relu (dense_forward (qn_in n) x))))"

record a3c_net =
  an_shared1 :: dense
  an_shared2 :: dense
  an_policy_head :: dense
  an_value_head :: dense

definition a3c_forward :: "a3c_net \<Rightarrow> real list \<Rightarrow> real list \<times> real" where
  "a3c_forward n x =
     (let h = relu (dense_forward (an_shared2 n) (relu (dense_forward (an_shared1 n) x)))
      in (softmax (dense_forward (an_policy_head n) h), hd (dense_forward (an_value_head n) h)))"

record critic_net =
  cn_lin1 :: dense
  cn_norm1 :: norm
  cn_lin2 :: dense
  cn_norm2 :: norm
  cn_out :: dense

definition critic_forward :: "(real \<Rightarrow> real) \<Rightarrow> critic_net \<Rightarrow> real list \<Rightarrow> real" where
  "critic_forward phi n state =
     (let h = gelu phi (layer_norm (cn_norm1 n) (dense_forward (cn_lin1 n) state));
          h = gelu phi (layer_norm (cn_norm2 n) (dense_forward (cn_lin2 n) h))
      in hd (dense_forward (cn_out n) h))"

section \<open>Losses\<close>

definition mse_loss :: "real list \<Rightarrow> real list \<Rightarrow> real" where
  "mse_loss xs ys = vmean (map2 (\<lambda>x y. (x - y)\<^sup>2) xs ys)"

definition categorical_entropy :: "real list \<Rightarrow> real" where
  "categorical_entropy p = - sum_list (map (\<lambda>x. x * ln x) p)"

definition a3c_actor_loss :: "real list list \<Rightarrow> nat list \<Rightarrow> real list \<Rightarrow> real" where
  \<comment> \<open>minus the mean of the log probabilities of the actions, weighted with the advantages\<close>
  "a3c_actor_loss probs actions advantages =
     - vmean (map (\<lambda>((p, a), adv). ln (p ! a) * adv) (zip (zip probs actions) advantages))"

definition a3c_loss :: "a3c_net \<Rightarrow> a3c_batch \<Rightarrow> real list \<Rightarrow> real" where
  "a3c_loss net b returns =
     (let outs = map (a3c_forward net) (ab_states b);
          probs = map fst outs; vals = map snd outs;
          advantages = map2 (-) returns vals;
          actor_loss = a3c_actor_loss probs (ab_actions b) advantages;
          critic_loss = mse_loss vals returns;
          entropy = vmean (map categorical_entropy probs)
      in actor_loss + 5/10 * critic_loss - 1/100 * entropy)"

record loss_coefs =
  lo_ent_coef :: real
  lo_vf_coef :: real

definition loss_default :: loss_coefs where
  "loss_default = \<lparr>lo_ent_coef = 1/100, lo_vf_coef = 5/10\<rparr>"

definition ppo_actor_loss :: "ppo_config \<Rightarrow> loss_coefs \<Rightarrow> networks \<Rightarrow> (real list \<Rightarrow> real) \<Rightarrow> sample list \<Rightarrow> real" where
  \<comment> \<open>on a minibatch; \<open>entropy\<close> is the entropy of the Dirichlet distribution with a concentration\<close>
  "ppo_actor_loss cfg co nets entropy batch =
     (let alphas = map (\<lambda>s. concentration (nt_actor nets (sa_state s))) batch;
          new_lp = map2 (\<lambda>a s. nt_log_prob nets a (sa_action s)) alphas batch;
          surr = map2 (\<lambda>lp s. surrogate (pp_clip_eps cfg) (exp (lp - sa_log_prob s)) (sa_advantage s)) new_lp batch
      in - vmean surr - lo_ent_coef co * vmean (map entropy alphas))"

definition ppo_critic_loss :: "loss_coefs \<Rightarrow> networks \<Rightarrow> sample list \<Rightarrow> real" where
  "ppo_critic_loss co nets batch =
     lo_vf_coef co * mse_loss (map (\<lambda>s. nt_critic nets (sa_state s)) batch) (map sa_return batch)"

section \<open>Facts about the layers\<close>

lemma length_dense: "dense_ok n l \<Longrightarrow> length (dense_forward l x) = n"
  by (simp add: dense_forward_def dense_ok_def)

lemma sum_centred: "xs \<noteq> [] \<Longrightarrow> sum_list (map (\<lambda>x. x - vmean xs) xs) = 0"
  using sum_list_subtractf[of "\<lambda>x. x" "\<lambda>_. vmean xs" xs] by (simp add: vmean_def sum_list_triv)

lemma np_var_nonneg: "0 \<le> np_var xs"
  by (auto simp: np_var_def vmean_def intro!: divide_nonneg_nonneg sum_list_nonneg)

lemma entropy_gap:
  assumes "0 \<le> (x :: real)" and "0 < n"
  shows "x - 1 / n \<le> x * ln (n * x)"
proof (cases "x = 0")
  case False
  then have x: "0 < x" using assms(1) by simp
  have "- ln (n * x) = ln (1 / (n * x))" using x assms(2) by (simp add: ln_div)
  also have "\<dots> \<le> 1 / (n * x) - 1" using x assms(2) by (intro ln_le_minus_one) simp
  finally have "x * (1 - 1 / (n * x)) \<le> x * ln (n * x)" using x by (intro mult_left_mono) simp_all
  then show ?thesis using x assms(2) by (simp add: algebra_simps)
qed (use assms in simp)

lemma categorical_entropy_bounds:
  assumes "is_dist p" and "p \<noteq> []"
  shows "0 \<le> categorical_entropy p" and "categorical_entropy p \<le> ln (real (length p))"
proof -
  let ?n = "real (length p)"
  have n: "0 < ?n" using assms(2) by simp
  have r: "0 \<le> x \<and> x \<le> 1" if "x \<in> set p" for x using is_dist_le_one assms(1) that by (auto simp: is_dist_def in_set_conv_nth)
  have "x * ln x \<le> 0" if "x \<in> set p" for x
    using r[OF that] by (cases "x = 0") (auto intro!: mult_nonneg_nonpos)
  then have "sum_list (map (\<lambda>x. x * ln x) p) \<le> 0" by (intro sum_list_nonpos) auto
  then show "0 \<le> categorical_entropy p" by (simp add: categorical_entropy_def)
  have split: "x * ln (?n * x) = ln ?n * x + x * ln x" if "x \<in> set p" for x
    using r[OF that] n by (cases "x = 0") (simp_all add: ln_mult algebra_simps)
  have "sum_list (map (\<lambda>x. x - 1 / ?n) p) \<le> sum_list (map (\<lambda>x. x * ln (?n * x)) p)"
    using r n entropy_gap by (intro sum_list_mono) blast
  also have "\<dots> = sum_list (map (\<lambda>x. ln ?n * x + x * ln x) p)" using split by (intro arg_cong[where f = sum_list] map_cong) auto
  also have "\<dots> = ln ?n * sum_list p - categorical_entropy p"
    by (simp add: sum_list_addf sum_list_const_mult categorical_entropy_def)
  finally show "categorical_entropy p \<le> ln ?n"
    using assms n by (simp add: sum_list_subtractf is_dist_def sum_list_triv)
qed

lemma mse_loss_nonneg: "0 \<le> mse_loss xs ys"
  by (auto simp: mse_loss_def vmean_def intro!: divide_nonneg_nonneg sum_list_nonneg)

lemma mse_loss_zero:
  assumes "length xs = length ys" and "xs \<noteq> []"
  shows "mse_loss xs ys = 0 \<longleftrightarrow> xs = ys"
proof -
  let ?L = "map2 (\<lambda>x y. (x - y)\<^sup>2) xs ys"
  have "\<And>d. d \<in> set ?L \<Longrightarrow> 0 \<le> d" by auto
  then have "sum_list ?L = 0 \<longleftrightarrow> (\<forall>d \<in> set ?L. d = 0)" by (rule sum_list_nonneg_eq_0_iff)
  also have "\<dots> \<longleftrightarrow> (\<forall>p \<in> set (zip xs ys). fst p = snd p)" by auto
  also have "\<dots> \<longleftrightarrow> xs = ys" using assms(1) by (auto simp: list_eq_iff_nth_eq set_zip)
  finally show ?thesis using assms by (cases ys) (simp_all add: mse_loss_def vmean_def)
qed

definition a3c_ok :: "nat \<Rightarrow> a3c_net \<Rightarrow> bool" where
  "a3c_ok n net \<longleftrightarrow> dense_ok n (an_policy_head net) \<and> 0 < n"

definition q_ok :: "nat \<Rightarrow> q_net \<Rightarrow> bool" where
  "q_ok n net \<longleftrightarrow> dense_ok n (qn_out net)"

lemma a3c_policy:
  assumes "a3c_ok n net"
  shows "is_dist (fst (a3c_forward net x))" and "length (fst (a3c_forward net x)) = n"
    and "\<forall>p \<in> set (fst (a3c_forward net x)). 0 < p"
proof -
  define z where "z = dense_forward (an_policy_head net) (relu (dense_forward (an_shared2 net) (relu (dense_forward (an_shared1 net) x))))"
  have z: "length z = n" using assms by (simp add: z_def a3c_ok_def length_dense)
  then have ne: "z \<noteq> []" using assms by (auto simp: a3c_ok_def)
  have eq: "fst (a3c_forward net x) = softmax z" by (simp add: a3c_forward_def Let_def z_def)
  show "is_dist (fst (a3c_forward net x))" "length (fst (a3c_forward net x)) = n" "\<forall>p \<in> set (fst (a3c_forward net x)). 0 < p"
    unfolding eq using softmax_is_dist[OF ne] z by simp_all
qed

section \<open>Properties\<close>

text \<open>
  Layer normalisation: before its learned scale and shift the values have mean zero and variance
  just below one, whatever comes in.
\<close>
theorem layer_norm_standardises:
  assumes "xs \<noteq> []"
  shows "vmean (standard_score xs) = 0 \<and> np_var (standard_score xs) = np_var xs / (np_var xs + 1 / 10 ^ 5) \<and>
    np_var (standard_score xs) < 1"
proof -
  define s where "s = sqrt (np_var xs + 1 / 10 ^ 5)"
  have s: "s\<^sup>2 = np_var xs + 1 / 10 ^ 5" "0 < np_var xs + 1 / 10 ^ 5" using np_var_nonneg[of xs] by (simp_all add: s_def add_nonneg_pos)
  have z: "standard_score xs = map (\<lambda>x. (x - vmean xs) / s) xs" by (simp add: standard_score_def s_def)
  have m: "vmean (standard_score xs) = 0" using sum_centred[OF assms] by (simp add: z vmean_def[of "map _ _"] sum_list_map_divide)
  have "np_var (standard_score xs) = vmean (map (\<lambda>x. (x - vmean xs)\<^sup>2 / s\<^sup>2) xs)"
    unfolding np_var_def[of "standard_score xs"] m by (simp add: z comp_def power_divide)
  also have "\<dots> = np_var xs / s\<^sup>2" by (simp add: np_var_def vmean_def sum_list_map_divide)
  finally have v: "np_var (standard_score xs) = np_var xs / (np_var xs + 1 / 10 ^ 5)" using s by simp
  moreover have "np_var xs / (np_var xs + 1 / 10 ^ 5) < 1" using s(2) by (simp add: divide_less_eq)
  ultimately show ?thesis using m by simp
qed

theorem layer_norm_standardises_witness: "vmean (standard_score [1, 3]) = 0"
  by (rule layer_norm_standardises[THEN conjunct1]) simp

text \<open>
  The actor of A3C is a policy over the actions, and the entropy its loss rewards lies between zero
  and the logarithm of the number of actions.
\<close>
theorem a3c_policy_entropy:
  assumes "a3c_ok n net"
  shows "is_dist (fst (a3c_forward net x)) \<and> length (fst (a3c_forward net x)) = n \<and>
    0 \<le> categorical_entropy (fst (a3c_forward net x)) \<and> categorical_entropy (fst (a3c_forward net x)) \<le> ln (real n)"
proof -
  have "fst (a3c_forward net x) \<noteq> []" using a3c_policy(2)[OF assms, of x] assms by (auto simp: a3c_ok_def)
  then show ?thesis using a3c_policy[OF assms, of x] categorical_entropy_bounds[of "fst (a3c_forward net x)"] by simp
qed

definition demo_a3c :: a3c_net where
  "demo_a3c = \<lparr>an_shared1 = \<lparr>de_weight = [[1]], de_bias = [0]\<rparr>, an_shared2 = \<lparr>de_weight = [[1]], de_bias = [0]\<rparr>,
     an_policy_head = \<lparr>de_weight = [[1], [0], [2]], de_bias = [0, 0, 0]\<rparr>, an_value_head = \<lparr>de_weight = [[1]], de_bias = [0]\<rparr>\<rparr>"

theorem a3c_policy_entropy_witness: "categorical_entropy (fst (a3c_forward demo_a3c [5])) \<le> ln (real 3)"
  using a3c_policy_entropy[of 3 demo_a3c "[5]"] by (simp add: a3c_ok_def dense_ok_def demo_a3c_def)

text \<open>
  The bonus for exploration is bounded: the loss of a batch is at least its policy term minus a
  hundredth of the logarithm of the number of actions, and equals the policy term minus the entropy
  bonus exactly when the critic predicts every return.
\<close>
theorem a3c_loss_bounded:
  assumes "a3c_ok n net" and "ab_states b \<noteq> []" and "length returns = length (ab_states b)"
  shows "let probs = map (\<lambda>s. fst (a3c_forward net s)) (ab_states b);
             vals = map (\<lambda>s. snd (a3c_forward net s)) (ab_states b);
             actor = a3c_actor_loss probs (ab_actions b) (map2 (-) returns vals)
         in actor - ln (real n) / 100 \<le> a3c_loss net b returns \<and>
            (a3c_loss net b returns = actor - vmean (map categorical_entropy probs) / 100 \<longleftrightarrow> vals = returns)"
proof -
  define probs vals where "probs = map (\<lambda>s. fst (a3c_forward net s)) (ab_states b)"
    and "vals = map (\<lambda>s. snd (a3c_forward net s)) (ab_states b)"
  define actor where "actor = a3c_actor_loss probs (ab_actions b) (map2 (-) returns vals)"
  have loss: "a3c_loss net b returns = actor + 5/10 * mse_loss vals returns - 1/100 * vmean (map categorical_entropy probs)"
    by (simp add: a3c_loss_def Let_def comp_def probs_def vals_def actor_def)
  have ent: "\<forall>x \<in> set (map categorical_entropy probs). 0 \<le> x \<and> x \<le> ln (real n)"
  proof -
    have "0 \<le> categorical_entropy p \<and> categorical_entropy p \<le> ln (real n)" if p: "p \<in> set probs" for p
    proof -
      obtain s where s: "p = fst (a3c_forward net s)" using p by (auto simp: probs_def)
      have "p \<noteq> []" using a3c_policy(2)[OF assms(1), of s] assms(1) s by (auto simp: a3c_ok_def)
      then show ?thesis using a3c_policy[OF assms(1), of s] categorical_entropy_bounds[of p] s by simp
    qed
    then show ?thesis by simp
  qed
  have "0 \<le> vmean (map categorical_entropy probs) \<and> vmean (map categorical_entropy probs) \<le> ln (real n)"
    using assms(2) by (intro vmean_bounds ent) (simp add: probs_def)
  moreover have "mse_loss vals returns = 0 \<longleftrightarrow> vals = returns"
    using assms by (intro mse_loss_zero) (simp_all add: vals_def)
  moreover have "0 \<le> mse_loss vals returns" by (rule mse_loss_nonneg)
  ultimately show ?thesis
    unfolding Let_def probs_def[symmetric] vals_def[symmetric] actor_def[symmetric] loss by (auto simp: field_simps)
qed

definition demo_batch :: a3c_batch where
  "demo_batch = \<lparr>ab_states = [[5], [7]], ab_actions = [0, 1], ab_rewards = [1, 2], ab_values = [5, 7]\<rparr>"

theorem a3c_loss_bounded_witness:
  "a3c_actor_loss (map (\<lambda>s. fst (a3c_forward demo_a3c s)) [[5], [7]]) [0, 1]
      (map2 (-) [4, 9] (map (\<lambda>s. snd (a3c_forward demo_a3c s)) [[5], [7]])) - ln 3 / 100
    \<le> a3c_loss demo_a3c demo_batch [4, 9]"
proof -
  have "a3c_ok 3 demo_a3c" by (simp add: a3c_ok_def dense_ok_def demo_a3c_def)
  then show ?thesis using a3c_loss_bounded[of 3 demo_a3c demo_batch "[4, 9]"]
    by (simp add: demo_batch_def Let_def del: list.map)
qed

text \<open>
  The networks the rate-limit trainer builds satisfy what the agent relies on: whatever the parameters
  and the state, one value per action, so the greedy action and the explored one are in range.
\<close>
theorem q_network_acts_in_range:
  assumes "q_ok n (da_policy a)" and "0 < n" and "snd draw < n"
  shows "length (q_forward (da_policy a) st) = n \<and> snd (agent_select q_forward cfg draw a st) < n"
proof -
  have l: "length (q_forward (da_policy a) st) = n" using assms(1) by (simp add: q_forward_def q_ok_def length_dense)
  then have "q_forward (da_policy a) st \<noteq> []" using assms(2) by auto
  then have "np_argmax (q_forward (da_policy a) st) < n" using np_argmax_less l by metis
  then show ?thesis using l assms(3) by (simp add: agent_select_def Let_def)
qed

definition demo_q :: q_net where
  "demo_q = \<lparr>qn_in = \<lparr>de_weight = [[1]], de_bias = [0]\<rparr>, qn_hidden = \<lparr>de_weight = [[1]], de_bias = [0]\<rparr>,
     qn_out = \<lparr>de_weight = [[1], [2], [-1]], de_bias = [0, 0, 0]\<rparr>\<rparr>"

theorem q_network_acts_in_range_witness: "snd (agent_select q_forward dqn_default (1/2, 2) (agent_init dqn_default demo_q) [1]) < 3"
  using q_network_acts_in_range[of 3 "agent_init dqn_default demo_q" "(1/2, 2)" "[1]" dqn_default]
  by (simp add: q_ok_def dense_ok_def demo_q_def agent_init_def)

lemma vmean_standardise:
  assumes "xs \<noteq> []"
  shows "vmean (standardise xs) = 0"
proof -
  define d where "d = sqrt (sum_list (map (\<lambda>x. (x - vmean xs)\<^sup>2) xs) / (real (length xs) - 1)) + 1 / 10 ^ 8"
  have "standardise xs = map (\<lambda>x. (x - vmean xs) / d) xs" by (simp add: standardise_def Let_def d_def)
  then show ?thesis using sum_centred[OF assms] by (simp add: vmean_def[of "map _ _"] sum_list_map_divide)
qed

text \<open>
  While the actor still gives the stored actions their stored log probability, the policy loss of a
  batch is minus its mean advantage, minus the entropy bonus; over the whole buffer, whose
  advantages are standardised, only the bonus is left.
\<close>
theorem on_policy_loss:
  assumes "0 \<le> pp_clip_eps cfg" and "batch \<noteq> []"
    and "\<forall>s \<in> set batch. nt_log_prob nets (concentration (nt_actor nets (sa_state s))) (sa_action s) = sa_log_prob s"
  shows "ppo_actor_loss cfg co nets entropy batch = - vmean (map sa_advantage batch)
      - lo_ent_coef co * vmean (map (\<lambda>s. entropy (concentration (nt_actor nets (sa_state s)))) batch) \<and>
    (map sa_advantage batch = standardise xs \<and> xs \<noteq> [] \<longrightarrow>
       ppo_actor_loss cfg co nets entropy batch =
         - lo_ent_coef co * vmean (map (\<lambda>s. entropy (concentration (nt_actor nets (sa_state s)))) batch))"
proof -
  define lp where "lp = (\<lambda>s :: sample. nt_log_prob nets (concentration (nt_actor nets (sa_state s))) (sa_action s))"
  have "surrogate (pp_clip_eps cfg) (exp (lp s - sa_log_prob s)) (sa_advantage s) = sa_advantage s" if "s \<in> set batch" for s
    using assms(1,3) that by (simp add: surrogate_def np_clip_def lp_def)
  then have surr: "map (\<lambda>s. surrogate (pp_clip_eps cfg) (exp (lp s - sa_log_prob s)) (sa_advantage s)) batch = map sa_advantage batch"
    by simp
  have pairs: "map2 f (map g batch) batch = map (\<lambda>s. f (g s) s) batch" for f :: "'x \<Rightarrow> sample \<Rightarrow> real" and g
    by (simp add: zip_map1 zip_same_conv_map)
  have "ppo_actor_loss cfg co nets entropy batch = - vmean (map sa_advantage batch)
      - lo_ent_coef co * vmean (map (\<lambda>s. entropy (concentration (nt_actor nets (sa_state s)))) batch)"
    unfolding ppo_actor_loss_def Let_def pairs lp_def[symmetric] surr by (simp add: comp_def)
  then show ?thesis using vmean_standardise by simp
qed

theorem on_policy_loss_witness:
  "ppo_actor_loss (ppo_default 2) loss_default demo_nets (\<lambda>a. 1)
     [\<lparr>sa_state = [], sa_action = [1, 0], sa_log_prob = 0, sa_advantage = 3, sa_return = 1\<rparr>] = - 3 - 1/100"
  using on_policy_loss[of "ppo_default 2"
      "[\<lparr>sa_state = [], sa_action = [1, 0], sa_log_prob = 0, sa_advantage = 3, sa_return = 1\<rparr>]" demo_nets loss_default "\<lambda>a. 1" "[1]"]
  by (simp add: ppo_default_def demo_nets_def loss_default_def vmean_def)

end
