(* ===== verification/Train_Loops.thy ===== *)
theory Train_Loops
  imports Ppo_Core Dqn_Training
begin

text \<open>
  The entry points of the two trainers: \<open>train\<close> of \<open>ml/ppo/train_ppo_kan.py\<close>, whose outer loop ends
  only if a rollout makes progress, and \<open>train\<close> of \<open>ml/dqn_a3c/train_dqn_a3c.py\<close>, which interleaves the
  services step by step. The models each of them exports are named at the end.
\<close>

section \<open>PPO\<close>

definition train_start :: "ppo_config \<Rightarrow> real list \<Rightarrow> trainer" where
  "train_start cfg us =
     (case lb_reset (lb_init cfg) us of (env, state) \<Rightarrow>
        \<lparr>tr_env = env, tr_state = state, tr_prev_weights = None, tr_buffer = rb_empty, tr_total_steps = 0, tr_episode = 0\<rparr>)"

partial_function (option) ppo_loop :: "ppo_config \<Rightarrow> (sample list \<Rightarrow> networks \<Rightarrow> networks) \<Rightarrow>
    (nat \<Rightarrow> draws list \<times> nat list list) \<Rightarrow> nat \<Rightarrow> networks \<times> trainer \<Rightarrow> (networks \<times> trainer) option" where
  \<comment> \<open>the loop over rollouts; \<open>inputs k\<close> is what iteration \<open>k\<close> draws, and \<open>None\<close> is a run that never ends\<close>
  "ppo_loop cfg step inputs k ns =
     (if tr_total_steps (snd ns) < pp_total_steps cfg
      then ppo_loop cfg step inputs (k + 1) (train_iteration cfg step (fst (inputs k)) (snd (inputs k)) ns)
      else Some ns)"

definition ppo_train :: "ppo_config \<Rightarrow> (sample list \<Rightarrow> networks \<Rightarrow> networks) \<Rightarrow> networks \<Rightarrow> real list \<Rightarrow>
    (nat \<Rightarrow> draws list \<times> nat list list) \<Rightarrow> (networks \<times> trainer) option" where
  "ppo_train cfg step nets us inputs = ppo_loop cfg step inputs 0 (nets, train_start cfg us)"

definition inputs_ok :: "ppo_config \<Rightarrow> (nat \<Rightarrow> draws list \<times> nat list list) \<Rightarrow> bool" where
  "inputs_ok cfg inputs \<longleftrightarrow>
     (\<forall>k. length (fst (inputs k)) = pp_rollout_steps cfg \<and> (\<forall>d \<in> set (fst (inputs k)). draws_in_range cfg d))"

section \<open>DQN\<close>

definition dqn_round :: "('net \<Rightarrow> real list \<Rightarrow> real list) \<Rightarrow> (transition list \<Rightarrow> real list \<Rightarrow> 'net \<Rightarrow> 'net) \<Rightarrow> dqn_config \<Rightarrow>
    'net dqn_run list \<Rightarrow> ((real \<times> nat) \<times> nat list) list \<Rightarrow> py_err + 'net dqn_run list" where
  \<comment> \<open>the loop over the services in one step\<close>
  "dqn_round q fit cfg runs inps = mapE (\<lambda>(inp, run). service_step q fit cfg inp run) (zip inps runs)"

definition dqn_start :: "dqn_config \<Rightarrow> 'net list \<Rightarrow> 'net dqn_run list" where
  \<comment> \<open>an agent, a network and an environment per service\<close>
  "dqn_start cfg nets =
     map (\<lambda>net. case rate_reset rate_init of (env, state) \<Rightarrow> \<lparr>dn_agent = agent_init cfg net, dn_env = env, dn_state = state\<rparr>)
       (take (dc_num_services cfg) nets)"

definition dqn_train :: "('net \<Rightarrow> real list \<Rightarrow> real list) \<Rightarrow> (transition list \<Rightarrow> real list \<Rightarrow> 'net \<Rightarrow> 'net) \<Rightarrow> dqn_config \<Rightarrow>
    'net list \<Rightarrow> ((real \<times> nat) \<times> nat list) list list \<Rightarrow> py_err + 'net dqn_run list" where
  \<comment> \<open>one list of inputs per step, with one entry per service\<close>
  "dqn_train q fit cfg nets steps = foldE (dqn_round q fit cfg) (dqn_start cfg nets) (take (dc_total_steps cfg) steps)"

datatype 'net artifact =
    Service_model nat 'net \<comment> \<open>\<open>dqn_service_i.pt\<close>\<close>
  | Shared_actor \<comment> \<open>\<open>a3c_global.pt\<close>\<close>
  | Onnx_model 'net \<comment> \<open>\<open>dqn_rate_limiter.onnx\<close>\<close>

definition dqn_export :: "'net dqn_run list \<Rightarrow> py_err + 'net artifact list" where
  \<comment> \<open>the files written at the end; only the network of the first service is exported for inference\<close>
  "dqn_export runs =
     (if runs = [] then Inl IndexError
      else Inr (map (\<lambda>(i, r). Service_model i (da_policy (dn_agent r))) (zip [0..<length runs] runs)
                @ [Shared_actor, Onnx_model (da_policy (dn_agent (hd runs)))]))"

section \<open>The PPO loop\<close>

lemma train_start_ok:
  assumes "length us = pp_num_backends cfg" and "\<forall>u \<in> set us. 0 \<le> u \<and> u \<le> 3/10"
  shows "trainer_ok cfg (train_start cfg us)" and "tr_buffer (train_start cfg us) = rb_empty"
    and "tr_total_steps (train_start cfg us) = 0"
proof -
  have init: "env_ok (pp_num_backends cfg) (lb_init cfg)" by (simp add: env_ok_def lb_init_def)
  obtain env st where r: "lb_reset (lb_init cfg) us = (env, st)" by fastforce
  then have "env_ok (pp_num_backends cfg) env" "st = lb_state env" using lb_reset_ok[OF init assms] by simp_all
  then show "trainer_ok cfg (train_start cfg us)"
    by (simp add: train_start_def r trainer_ok_def buffer_ok_def rb_empty_def)
  show "tr_buffer (train_start cfg us) = rb_empty" "tr_total_steps (train_start cfg us) = 0"
    by (simp_all add: train_start_def r)
qed

lemma train_iteration_ready:
  assumes "\<forall>batch nets. ppo_ready cfg nets \<longrightarrow> ppo_ready cfg (step batch nets)" and "ppo_ready cfg nets"
  shows "ppo_ready cfg (fst (train_iteration cfg step ds perms (nets, s)))"
proof -
  have inner: "ppo_ready cfg (fold (\<lambda>batch net. step (f batch) net) bs net)" if "ppo_ready cfg net" for f bs net
    using that by (induction bs arbitrary: net) (simp_all add: assms(1))
  have "ppo_ready cfg (fold (\<lambda>idx net. fold (\<lambda>batch net. step (map g batch) net) (m idx) net) ps net)"
    if "ppo_ready cfg net" for g m ps net
    using that by (induction ps arbitrary: net) (simp_all add: inner)
  then show ?thesis using assms(2) by (simp add: train_iteration_def ppo_update_def Let_def split_beta)
qed

lemma ppo_loop_returns:
  assumes "\<forall>batch nets. ppo_ready cfg nets \<longrightarrow> ppo_ready cfg (step batch nets)" and "inputs_ok cfg inputs"
    and "0 < pp_rollout_steps cfg"
  shows "ppo_ready cfg nets \<Longrightarrow> trainer_ok cfg s \<Longrightarrow> tr_buffer s = rb_empty \<Longrightarrow>
    tr_total_steps s = j * pp_rollout_steps cfg \<Longrightarrow> (j = 0 \<or> (j - 1) * pp_rollout_steps cfg < pp_total_steps cfg) \<Longrightarrow>
    \<exists>nets' s' m. ppo_loop cfg step inputs k (nets, s) = Some (nets', s') \<and> ppo_ready cfg nets' \<and> trainer_ok cfg s' \<and>
      tr_buffer s' = rb_empty \<and> tr_total_steps s' = m * pp_rollout_steps cfg \<and> pp_total_steps cfg \<le> tr_total_steps s' \<and>
      (m = 0 \<or> (m - 1) * pp_rollout_steps cfg < pp_total_steps cfg)"
proof (induction "pp_total_steps cfg - tr_total_steps s" arbitrary: nets s j k rule: less_induct)
  case less
  show ?case
  proof (cases "tr_total_steps s < pp_total_steps cfg")
    case True
    obtain nets' s' where it: "train_iteration cfg step (fst (inputs k)) (snd (inputs k)) (nets, s) = (nets', s')" by fastforce
    have draws: "\<forall>d \<in> set (fst (inputs k)). draws_in_range cfg d" "length (fst (inputs k)) = pp_rollout_steps cfg"
      using assms(2) by (simp_all add: inputs_ok_def)
    note step = train_iteration_ok[OF less.prems(1) draws less.prems(2), of step "snd (inputs k)", unfolded it snd_conv]
    have "ppo_ready cfg nets'" using train_iteration_ready[OF assms(1) less.prems(1), of "fst (inputs k)" "snd (inputs k)" s] it by simp
    moreover have "pp_total_steps cfg - tr_total_steps s' < pp_total_steps cfg - tr_total_steps s"
      using step(2) assms(3) True by simp
    moreover have "tr_total_steps s' = Suc j * pp_rollout_steps cfg" using step(2) less.prems(4) by simp
    moreover have "Suc j = 0 \<or> (Suc j - 1) * pp_rollout_steps cfg < pp_total_steps cfg" using True less.prems(4) by simp
    ultimately show ?thesis
      using less.hyps[of s' nets' "Suc j" "k + 1"] step True it ppo_loop.simps[of cfg step inputs k "(nets, s)"] by simp
  next
    case False
    then show ?thesis using less.prems ppo_loop.simps[of cfg step inputs k "(nets, s)"] by (intro exI[of _ nets] exI[of _ s] exI[of _ j]) simp
  qed
qed

lemma ppo_loop_stuck:
  assumes "ppo_loop cfg step inputs k ns = Some r" and "pp_rollout_steps cfg = 0"
  shows "pp_total_steps cfg \<le> tr_total_steps (snd ns)"
  using assms(2)
proof (induction cfg step inputs k ns r rule: ppo_loop.raw_induct)
  case (1 loop cfg step inputs k ns r)
  obtain nets s where ns: "ns = (nets, s)" by fastforce
  have "tr_total_steps (snd (train_iteration cfg step (fst (inputs k)) (snd (inputs k)) ns)) = tr_total_steps (snd ns)"
    using 1(3) by (simp add: ns train_iteration_def Let_def split_beta)
  then show ?case using 1 by (metis leI)
qed (rule assms(1))

section \<open>The services\<close>

lemma dqn_round_nth:
  assumes "dqn_round q fit cfg runs inps = Inr runs'" and "length inps = length runs"
  shows "length runs' = length runs \<and> (\<forall>i < length runs. service_step q fit cfg (inps ! i) (runs ! i) = Inr (runs' ! i))"
proof -
  have "list_all2 (\<lambda>x y. (case x of (inp, run) \<Rightarrow> service_step q fit cfg inp run) = Inr y) (zip inps runs) runs'"
    using assms(1) by (simp add: dqn_round_def mapE_Inr_iff)
  then show ?thesis using assms(2) by (auto simp: list_all2_conv_all_nth)
qed

lemma dqn_rounds_nth:
  assumes "foldE (dqn_round q fit cfg) runs steps = Inr runs'" and "\<forall>inps \<in> set steps. length inps = length runs"
  shows "length runs' = length runs \<and>
    (\<forall>i < length runs. foldE (\<lambda>s inp. service_step q fit cfg inp s) (runs ! i) (map (\<lambda>inps. inps ! i) steps) = Inr (runs' ! i))"
  using assms
proof (induction steps arbitrary: runs)
  case (Cons inps steps)
  obtain mid where mid: "dqn_round q fit cfg runs inps = Inr mid" "foldE (dqn_round q fit cfg) mid steps = Inr runs'"
    using Cons.prems(1) by (auto split: sum.splits)
  have r: "length mid = length runs" "\<forall>i < length runs. service_step q fit cfg (inps ! i) (runs ! i) = Inr (mid ! i)"
    using dqn_round_nth[OF mid(1)] Cons.prems(2) by simp_all
  then show ?case using Cons.IH[OF mid(2)] Cons.prems(2) by simp
qed simp

lemma dqn_rounds_return:
  assumes "0 < dc_batch_size cfg" and "dc_batch_size cfg \<le> dc_replay_capacity cfg"
    and "\<forall>net st. length (q net st) = 3"
  shows "\<forall>inps \<in> set steps. length inps = length runs \<and> (\<forall>inp \<in> set inps. snd (fst inp) < 3) \<Longrightarrow>
    \<forall>r \<in> set runs. run_state cfg k r \<Longrightarrow> \<exists>runs'. foldE (dqn_round q fit cfg) runs steps = Inr runs'"
proof (induction steps arbitrary: runs k)
  case (Cons inps steps)
  have one: "\<exists>y. service_step q fit cfg inp run = Inr y \<and> run_state cfg (k + 1) y" if p: "(inp, run) \<in> set (zip inps runs)" for inp run
    using Cons.prems set_zip_leftD[OF p] set_zip_rightD[OF p] by (intro service_step_run[OF _ assms]) simp_all
  then have "\<forall>p \<in> set (zip inps runs). \<exists>y. (case p of (inp, run) \<Rightarrow> service_step q fit cfg inp run) = Inr y \<and> run_state cfg (k + 1) y"
    by (simp add: Ball_def split_paired_All)
  from mapE_total[OF this] obtain mid where mid: "dqn_round q fit cfg runs inps = Inr mid" "length mid = length runs"
    "\<forall>r \<in> set mid. run_state cfg (k + 1) r"
    using Cons.prems(1) by (auto simp: dqn_round_def)
  then show ?case using Cons.IH[of mid "k + 1"] Cons.prems(1) by simp
qed simp

section \<open>Properties\<close>



text \<open>
  Training the services never raises, and they train independently: interleaving them step by step
  gives each service exactly what it would have reached alone on its own inputs.
\<close>
theorem dqn_services_independent:
  assumes "0 < dc_batch_size cfg" and "dc_batch_size cfg \<le> dc_replay_capacity cfg"
    and "\<forall>net st. length (q net st) = 3" and "dc_num_services cfg \<le> length nets"
    and "\<forall>inps \<in> set steps. length inps = dc_num_services cfg \<and> (\<forall>inp \<in> set inps. snd (fst inp) < 3)"
  shows "\<exists>runs. dqn_train q fit cfg nets steps = Inr runs \<and> length runs = dc_num_services cfg \<and>
    (\<forall>i < dc_num_services cfg. foldE (\<lambda>s inp. service_step q fit cfg inp s) (run_init cfg (nets ! i))
       (map (\<lambda>inps. inps ! i) (take (dc_total_steps cfg) steps)) = Inr (runs ! i))"
proof -
  define ins where "ins = take (dc_total_steps cfg) steps"
  have start: "length (dqn_start cfg nets) = dc_num_services cfg"
    "\<forall>i < dc_num_services cfg. dqn_start cfg nets ! i = run_init cfg (nets ! i)"
    using assms(4) by (simp_all add: dqn_start_def run_init_def)
  then have states: "\<forall>r \<in> set (dqn_start cfg nets). run_state cfg 0 r" using run_init_state by (auto simp: in_set_conv_nth)
  have ins: "\<forall>inps \<in> set ins. length inps = length (dqn_start cfg nets) \<and> (\<forall>inp \<in> set inps. snd (fst inp) < 3)"
    using assms(5) start(1) by (auto simp: ins_def dest!: in_set_takeD)
  obtain runs where runs: "dqn_train q fit cfg nets steps = Inr runs"
    using dqn_rounds_return[OF assms(1-3) ins states, of fit] by (auto simp: dqn_train_def ins_def)
  then have "length runs = length (dqn_start cfg nets) \<and> (\<forall>i < length (dqn_start cfg nets).
      foldE (\<lambda>s inp. service_step q fit cfg inp s) (dqn_start cfg nets ! i) (map (\<lambda>inps. inps ! i) ins) = Inr (runs ! i))"
    using ins by (intro dqn_rounds_nth) (simp_all add: dqn_train_def ins_def)
  then show ?thesis using runs start unfolding ins_def by (intro exI[of _ runs]) simp
qed

theorem dqn_services_independent_witness:
  "\<exists>runs. dqn_train (\<lambda>net st. [0, 1, 2]) (\<lambda>b t net. net) (dqn_default\<lparr>dc_num_services := 2\<rparr>) [(), ()]
     [[((1/2, 1), []), ((1/4, 2), [])]] = Inr runs \<and> length runs = 2"
  using dqn_services_independent[of "dqn_default\<lparr>dc_num_services := 2\<rparr>" "\<lambda>net st. [0, 1, 2]" "[(), ()]"
      "[[((1/2, 1), []), ((1/4, 2), [])]]" "\<lambda>b t net. net"]
  by (force simp: dqn_default_def)

text \<open>
  Only the first service's network is exported for inference: the ONNX file does not depend on what
  the other services have learned.
\<close>
theorem only_first_service_exported:
  "dqn_export (r # rs) = Inr artifacts \<Longrightarrow> Onnx_model net \<in> set artifacts \<longleftrightarrow> net = da_policy (dn_agent r)"
  by (auto simp: dqn_export_def)

theorem only_first_service_exported_witness:
  "Onnx_model 3 \<in> set [Service_model 0 (3 :: nat), Service_model 1 5, Shared_actor, Onnx_model 3]"
proof -
  define run where "run = (\<lambda>net :: nat. \<lparr>dn_agent = agent_init dqn_default net, dn_env = rate_init, dn_state = []\<rparr>)"
  have "dqn_export [run 3, run 5] = Inr [Service_model 0 3, Service_model 1 5, Shared_actor, Onnx_model 3]"
    by (simp add: dqn_export_def run_def agent_init_def)
  from only_first_service_exported[OF this, of 3] show ?thesis by (simp add: run_def agent_init_def)
qed

end
