(* ===== verification/State_Gap.thy ===== *)
theory State_Gap
  imports Kan_Inference Sim_Env
begin

text \<open>
  The two ends of the ONNX path: the observation the actor is trained on (\<open>LBSimEnv._state\<close> of
  \<open>ml/simulation/lb_env.py\<close>) and the vector the proxy feeds it (\<open>KANInference._infer_onnx\<close> of
  \<open>ml/kan/kan_inference.py\<close>), which is documented to match the first exactly.
\<close>

lemma nth_concat_const:
  "\<forall>x \<in> set xs. length x = m \<Longrightarrow> 0 < m \<Longrightarrow> k < m * length xs \<Longrightarrow> concat xs ! k = xs ! (k div m) ! (k mod m)"
proof (induction xs arbitrary: k)
  case (Cons x xs)
  show ?case
  proof (cases "k < m")
    case True
    then show ?thesis using Cons.prems by (simp add: nth_append)
  next
    case False
    then have "concat (x # xs) ! k = xs ! ((k - m) div m) ! ((k - m) mod m)"
      using Cons by (simp add: nth_append)
    moreover have "k div m = Suc ((k - m) div m)" "k mod m = (k - m) mod m"
      using False Cons.prems(2) by (simp_all add: le_div_geq le_mod_geq)
    ultimately show ?thesis by simp
  qed
qed simp

definition observed_latency :: "sim_env \<Rightarrow> real list" where
  "observed_latency e = map (\<lambda>c. c * 100) (cpu_of e)"

definition observed_error :: "sim_env \<Rightarrow> real list" where
  "observed_error e = map (\<lambda>c. max 0 ((c - 8/10) * (5/10))) (cpu_of e)"

definition inference_view :: "sim_env \<Rightarrow> real list" where
  \<comment> \<open>what the inference path builds from the cpu, latency and error rate the environment observes\<close>
  "inference_view e =
     onnx_state (cpu_of e) (observed_latency e) (observed_error e) (replicate (length (se_loads e)) 1)
       (2 * pi * (real (se_step_count e) / 2000))"

lemma inference_features:
  assumes "se_capacities e = replicate (length (se_loads e)) 100" and "i < length (se_loads e)"
  shows "cpu_of e ! i = se_loads e ! i / 100"
    and "backend_features (cpu_of e ! i) (observed_latency e ! i) (observed_error e ! i) 1 =
      (let l = se_loads e ! i in [l / 100, 10 * l, max 0 (l - 50), l, l * 1024, l * 512, 1, max 0 ((l / 100 - 8/10) * (5/10))])"
proof -
  have len: "length (cpu_of e) = length (se_loads e)" using assms(1) by (simp add: cpu_of_def)
  show c: "cpu_of e ! i = se_loads e ! i / 100" using assms by (simp add: cpu_of_def)
  have "max 0 (se_loads e ! i / 100 - 5/10) * 100 = max 0 (se_loads e ! i - 50)" by (simp add: max_def)
  then show "backend_features (cpu_of e ! i) (observed_latency e ! i) (observed_error e ! i) 1 =
      (let l = se_loads e ! i in [l / 100, 10 * l, max 0 (l - 50), l, l * 1024, l * 512, 1, max 0 ((l / 100 - 8/10) * (5/10))])"
    using assms(2) len by (simp add: backend_features_def observed_latency_def observed_error_def c Let_def)
qed

lemma np_max_scale:
  assumes "xs \<noteq> []" and "0 \<le> (c :: real)"
  shows "np_max (map (\<lambda>x. x * c) xs) = np_max xs * c"
proof -
  have "foldr max (map (\<lambda>x. x * c) ys) (a * c) = foldr max ys a * c" for a ys
    by (induction ys) (simp_all add: max_mult_distrib_right assms(2))
  then show ?thesis using assms(1) by (cases xs) simp_all
qed

definition seen_features :: "sim_env \<Rightarrow> real list list" where
  "seen_features e = map (\<lambda>i. backend_features (cpu_of e ! i) (observed_latency e ! i) (observed_error e ! i)
     (replicate (length (se_loads e)) (1 :: real) ! i)) [0..<length (se_loads e)]"

definition true_features :: "sim_env \<Rightarrow> real list list" where
  "true_features e = map2 server_features (cpu_of e) (se_loads e)"

lemma feature_rows:
  assumes "length (cpu_of e) = length (se_loads e)"
  shows "length (seen_features e) = length (se_loads e)" "\<forall>x \<in> set (seen_features e). length x = 8"
    "length (true_features e) = length (se_loads e)" "\<forall>x \<in> set (true_features e). length x = 8"
  using assms by (auto simp: seen_features_def true_features_def backend_features_def server_features_def)

lemma vectors_by_rows:
  assumes "length (cpu_of e) = length (se_loads e)"
  shows "inference_view e = concat (seen_features e) @ [sum_list (cpu_of e) * 1000, np_max (observed_latency e),
      sin (2 * pi * (real (se_step_count e) / 2000)), cos (2 * pi * (real (se_step_count e) / 2000))]"
    and "env_state e = concat (true_features e) @ [sum_list (se_loads e), np_max (cpu_of e) * 200,
      sin (2 * pi * (real (se_step_count e) / 2000)), cos (2 * pi * (real (se_step_count e) / 2000))]"
  using assms by (simp_all add: inference_view_def onnx_state_def seen_features_def env_state_def true_features_def Let_def)

lemma feature_entries:
  assumes "se_capacities e = replicate (length (se_loads e)) 100" and "i < length (se_loads e)" and "j < 8"
  shows "seen_features e ! i ! j = (if j = 1 then 10 * true_features e ! i ! j else true_features e ! i ! j)"
proof -
  have len: "length (cpu_of e) = length (se_loads e)" using assms(1) by (simp add: cpu_of_def)
  have "seen_features e ! i = (let l = se_loads e ! i in [l / 100, 10 * l, max 0 (l - 50), l, l * 1024, l * 512, 1, max 0 ((l / 100 - 8/10) * (5/10))])"
    using inference_features(2)[OF assms(1,2)] assms(2) by (simp add: seen_features_def)
  moreover have "true_features e ! i = server_features (se_loads e ! i / 100) (se_loads e ! i)"
    using assms(2) len by (simp add: true_features_def inference_features(1)[OF assms(1,2)] del: times_divide_eq_left)
  moreover have "j = 0 \<or> j = 1 \<or> j = 2 \<or> j = 3 \<or> j = 4 \<or> j = 5 \<or> j = 6 \<or> j = 7" using assms(3) by linarith
  ultimately show ?thesis by (auto simp: server_features_def Let_def)
qed

lemma global_entries:
  assumes "se_capacities e = replicate (length (se_loads e)) 100" and "se_loads e \<noteq> []"
  shows "sum_list (cpu_of e) * 1000 = 10 * sum_list (se_loads e)" and "np_max (observed_latency e) = np_max (cpu_of e) * 100"
proof -
  have c: "cpu_of e = map (\<lambda>l. l / 100) (se_loads e)"
    using assms(1) map2_replicate[of "se_loads e" "length (se_loads e)" "(/)" 100] by (simp add: cpu_of_def)
  then show "sum_list (cpu_of e) * 1000 = 10 * sum_list (se_loads e)" by (simp add: sum_list_map_divide)
  show "np_max (observed_latency e) = np_max (cpu_of e) * 100"
    unfolding observed_latency_def using c assms(2) by (intro np_max_scale) simp_all
qed



end
