(* ===== verification/Alert_Sink.thy ===== *)
theory Alert_Sink
  imports Py_Value
begin

text \<open>
  The alert receiver \<open>scripts/alert_sink.py\<close>: the last hundred alerts, newest first, behind three
  paths. The JSON parser is a parameter; an exception in the handler ends the connection without a
  reply.
\<close>

definition MAX_ALERTS :: nat where "MAX_ALERTS = 100"

record sink_reply =
  sk_status :: nat
  sk_payload :: py_val

definition sink_get :: "string \<Rightarrow> py_val list \<Rightarrow> sink_reply" where
  "sink_get path alerts =
     (if path = ''/'' \<or> path = ''/health''
      then \<lparr>sk_status = 200, sk_payload = PDict [(''status'', PStr ''ok''), (''alerts'', PInt (int (length alerts)))]\<rparr>
      else if path = ''/alerts'' then \<lparr>sk_status = 200, sk_payload = PDict [(''alerts'', PList alerts)]\<rparr>
      else \<lparr>sk_status = 404, sk_payload = PDict [(''error'', PStr ''not found'')]\<rparr>)"

definition read_body :: "int \<Rightarrow> string \<Rightarrow> string" where
  \<comment> \<open>\<open>rfile.read(n)\<close> when \<open>n\<close> is not zero; a negative count reads to the end\<close>
  "read_body n stream = (if n = 0 then ''{}'' else if n < 0 then stream else take (nat n) stream)"

definition sink_entry :: "string \<Rightarrow> py_val \<Rightarrow> py_err + py_val" where
  "sink_entry received_at payload =
     bindE (py_dot_get payload ''groupKey'' PNone) (\<lambda>group_key.
     bindE (py_dot_get payload ''status'' PNone) (\<lambda>status.
     bindE (py_dot_get payload ''receiver'' PNone) (\<lambda>receiver.
     bindE (py_dot_get payload ''alerts'' (PList [])) (\<lambda>alerts.
       Inr (PDict [(''received_at'', PStr received_at), (''group_key'', group_key), (''status'', status),
                   (''receiver'', receiver), (''alerts'', alerts)])))))"

fun py_len :: "py_val \<Rightarrow> py_err + nat" where
  "py_len (PStr s) = Inr (length s)"
| "py_len (PList vs) = Inr (length vs)"
| "py_len (PDict kvs) = Inr (length kvs)"
| "py_len _ = Inl TypeError"

definition push_alert :: "py_val list \<Rightarrow> py_val \<Rightarrow> py_val list" where
  \<comment> \<open>\<open>ALERTS.insert(0, entry)\<close>, then \<open>del ALERTS[MAX_ALERTS:]\<close>\<close>
  "push_alert alerts entry = take MAX_ALERTS (entry # alerts)"

definition sink_post :: "(string \<Rightarrow> py_err + py_val) \<Rightarrow> string \<Rightarrow> string \<Rightarrow> string option \<Rightarrow> string \<Rightarrow> py_val list \<Rightarrow>
    py_val list \<times> (py_err + sink_reply)" where
  "sink_post json received_at path content_length stream alerts =
     (if path \<noteq> ''/webhook''
      then (alerts, Inr \<lparr>sk_status = 404, sk_payload = PDict [(''error'', PStr ''not found'')]\<rparr>)
      else case bindE (parse_int (case content_length of None \<Rightarrow> ''0'' | Some t \<Rightarrow> t)) (\<lambda>n.
             let text = read_body n stream in
             bindE (json (if text = [] then ''{}'' else text)) (sink_entry received_at)) of
          Inl e \<Rightarrow> (alerts, Inl e)
        | Inr entry \<Rightarrow>
            (push_alert alerts entry,
             bindE (bindE (py_item entry ''alerts'') py_len) (\<lambda>n.
               Inr \<lparr>sk_status = 200, sk_payload = PDict [(''stored'', PInt (int n))]\<rparr>)))"

interpretation alert_list: bounded_log push_alert "\<lambda>alerts. alerts" MAX_ALERTS
  by unfold_locales (auto simp: push_alert_def dest: in_set_takeD)

section \<open>Sessions\<close>

datatype sink_event =
    Sink_get string
  | Sink_post string string "string option" string \<comment> \<open>time, path, length header, body\<close>

fun sink_apply :: "(string \<Rightarrow> py_err + py_val) \<Rightarrow> py_val list \<Rightarrow> sink_event \<Rightarrow> py_val list" where
  "sink_apply json alerts (Sink_get path) = alerts"
| "sink_apply json alerts (Sink_post time path len stream) = fst (sink_post json time path len stream alerts)"

lemma sink_post_alerts:
  "fst (sink_post json time path len stream alerts) = alerts \<or>
   (\<exists>e. fst (sink_post json time path len stream alerts) = push_alert alerts e)"
  by (auto simp: sink_post_def split: sum.splits)

text \<open>
  However many messages arrive, of whatever form, the receiver keeps at most a hundred entries, and a
  message that is accepted is the first of the list the next query shows.
\<close>
theorem alerts_bounded:
  assumes "s = foldl (sink_apply json) [] evs"
  shows "length s \<le> 100 \<and>
    (case sink_post json time ''/webhook'' len stream s of (s', r) \<Rightarrow>
       (\<exists>reply. r = Inr reply) \<longrightarrow> s' \<noteq> [] \<and> sink_get ''/alerts'' s' = \<lparr>sk_status = 200, sk_payload = PDict [(''alerts'', PList s')]\<rparr> \<and>
         tl s' = take 99 s)"
proof -
  have "length (foldl (sink_apply json) alerts evs) \<le> MAX_ALERTS" if "length alerts \<le> MAX_ALERTS" for alerts
    using that
  proof (induction evs arbitrary: alerts)
    case (Cons ev evs)
    have "length (sink_apply json alerts ev) \<le> MAX_ALERTS"
    proof (cases ev)
      case (Sink_post t p l st)
      then show ?thesis using sink_post_alerts[of json t p l st alerts] alert_list.entries_push[of alerts] Cons.prems by auto
    qed (use Cons.prems in simp)
    then show ?case using Cons.IH by simp
  qed simp
  then have "length s \<le> 100" using assms by (simp add: MAX_ALERTS_def)
  then show ?thesis
    by (auto simp: sink_post_def sink_get_def push_alert_def MAX_ALERTS_def split: sum.splits prod.splits)
qed


theorem alerts_bounded_witness: "length (foldl (sink_apply (\<lambda>t. Inr (PDict []))) [] [Sink_post ''now'' ''/webhook'' None []]) \<le> 100"
  using alerts_bounded[of "foldl (sink_apply (\<lambda>t. Inr (PDict []))) [] [Sink_post ''now'' ''/webhook'' None []]"] by blast

text \<open>
  A message whose alerts are null, or a number, is stored although its sender gets no reply: the
  length in the reply is taken after the entry has been inserted.
\<close>
theorem null_alerts_stored_without_reply:
  assumes "json text = Inr (PDict kvs)" and "map_of kvs ''alerts'' = Some PNone" and "text \<noteq> []"
    and "len = nat_str (length text)"
  shows "\<exists>entry. sink_post json time ''/webhook'' (Some len) text alerts = (push_alert alerts entry, Inl TypeError)"
proof -
  have "parse_int len = Inr (int (length text))" unfolding assms(4) by (rule parse_int_nat_str)
  then show ?thesis using assms by (simp add: sink_post_def read_body_def sink_entry_def Let_def) blast
qed

theorem null_alerts_stored_without_reply_witness:
  "\<exists>entry. sink_post (\<lambda>t. Inr (PDict [(''alerts'', PNone)])) ''now'' ''/webhook'' (Some (nat_str (length ''{x}''))) ''{x}'' []
     = (push_alert [] entry, Inl TypeError)"
  by (rule null_alerts_stored_without_reply[where kvs = "[(''alerts'', PNone)]"]) simp_all

end
