(* ===== verification/Graph_Tools.thy ===== *)
theory Graph_Tools
  imports Py_Value
begin

text \<open>
  The repository tools over the code graph: the search of \<open>tools/graphify_query.py\<close>, the token
  estimate of \<open>tools/graphify_bench.py\<close> and the pull-request summary of
  \<open>tools/graphify_pr_comment.py\<close>. Files are a map from paths to their lines, texts are ASCII, the
  command line program \<open>graphify\<close> is a parameter that returns an exit code, and what is printed is a value.
\<close>

section \<open>Text\<close>

definition lower_char :: "char \<Rightarrow> char" where
  "lower_char c = (let n = of_char c :: nat in if 65 \<le> n \<and> n \<le> 90 then char_of (n + 32) else c)"

definition lower :: "string \<Rightarrow> string" where
  "lower s = map lower_char s"

definition is_word :: "char \<Rightarrow> bool" where
  \<comment> \<open>\<open>\w\<close>\<close>
  "is_word c \<longleftrightarrow> (let n = of_char c :: nat in
     (97 \<le> n \<and> n \<le> 122) \<or> (65 \<le> n \<and> n \<le> 90) \<or> (48 \<le> n \<and> n \<le> 57) \<or> n = 95)"

function words :: "string \<Rightarrow> string list" where
  \<comment> \<open>\<open>re.findall(r''\w+'', s)\<close>\<close>
  "words s =
     (case dropWhile (\<lambda>c. \<not> is_word c) s of
        [] \<Rightarrow> []
      | c # cs \<Rightarrow> (c # takeWhile is_word cs) # words (dropWhile is_word cs))"
  by pat_completeness auto
termination
proof (relation "measure length")
  fix s c cs assume "dropWhile (\<lambda>c. \<not> is_word c) s = c # cs"
  then have "length (c # cs) \<le> length s" by (metis length_dropWhile_le)
  then show "(dropWhile is_word cs, s) \<in> measure length" using length_dropWhile_le[of is_word cs] by simp
qed simp

declare words.simps [simp del]

function count_sub :: "string \<Rightarrow> string \<Rightarrow> nat" where
  \<comment> \<open>\<open>s.count(t)\<close>: occurrences that do not overlap, from the left; an empty \<open>t\<close> is found everywhere\<close>
  "count_sub t [] = (if t = [] then 1 else 0)"
| "count_sub t (c # cs) =
     (if t = [] then 1 + count_sub t cs
      else if take (length t) (c # cs) = t then 1 + count_sub t (drop (length t) (c # cs))
      else count_sub t cs)"
  by pat_completeness auto
termination
  by (relation "measure (\<lambda>(t, s). length s)") auto

section \<open>Nodes\<close>

record graph_node =
  gn_id :: "string option"
  gn_label :: "string option"
  gn_source_file :: "string option"
  gn_source_location :: "string option"
  gn_loc :: "string option"

definition or_empty :: "string option \<Rightarrow> string" where
  "or_empty v = (case v of None \<Rightarrow> [] | Some s \<Rightarrow> s)"

definition query_score :: "graph_node \<Rightarrow> string list \<Rightarrow> nat" where
  \<comment> \<open>\<open>score_node\<close> of \<open>graphify_query.py\<close>\<close>
  "query_score n tokens =
     (let label = lower (or_empty (gn_label n)); source = lower (or_empty (gn_source_file n)); nid = lower (or_empty (gn_id n))
      in sum_list (map (\<lambda>t. (if is_infix t label then 4 * count_sub t label else 0)
                           + (if is_infix t source then 2 * count_sub t source else 0)
                           + (if is_infix t nid then count_sub t nid else 0)) tokens))"

definition bench_score :: "graph_node \<Rightarrow> string list \<Rightarrow> nat" where
  \<comment> \<open>\<open>score_node\<close> of \<open>graphify_bench.py\<close>\<close>
  "bench_score n tokens =
     (let label = lower (or_empty (gn_label n)); source = lower (or_empty (gn_source_file n)); nid = lower (or_empty (gn_id n))
      in sum_list (map (\<lambda>t. if t \<noteq> [] then 4 * count_sub t label + 2 * count_sub t source + count_sub t nid else 0) tokens))"

fun line_of :: "string \<Rightarrow> nat" where
  \<comment> \<open>the number after the first \<open>L\<close> that is followed by a digit, 1 without one\<close>
  "line_of [] = 1"
| "line_of (c # cs) =
     (let ds = takeWhile (\<lambda>d. digit_val d \<noteq> None) cs
      in if c = CHR ''L'' \<and> ds \<noteq> [] then (case radix_val digit_val 10 0 ds of None \<Rightarrow> 1 | Some k \<Rightarrow> k) else line_of cs)"

definition by_score :: "(nat \<times> 'a) list \<Rightarrow> (nat \<times> 'a) list" where
  \<comment> \<open>\<open>sort(key=..., reverse=True)\<close>, which keeps the order of equal scores\<close>
  "by_score xs = sort_key (\<lambda>p. - int (fst p)) xs"

definition matching :: "('a \<Rightarrow> nat) \<Rightarrow> 'a list \<Rightarrow> (nat \<times> 'a) list" where
  \<comment> \<open>the entries whose score is positive, with it\<close>
  "matching score xs = filter (\<lambda>p. fst p > 0) (map (\<lambda>x. (score x, x)) xs)"

type_synonym repo_files = "string \<Rightarrow> string list option" \<comment> \<open>the lines of a readable file, with their newlines\<close>

section \<open>The token estimate\<close>

definition starts_with :: "string \<Rightarrow> string \<Rightarrow> bool" where
  "starts_with s p \<longleftrightarrow> take (length p) s = p"

definition skipped_dir :: "string \<Rightarrow> bool" where
  \<comment> \<open>the three tests at the head of the walk in \<open>repo_source_files\<close>\<close>
  "skipped_dir dp \<longleftrightarrow>
     is_infix ''/.git/'' dp \<or> starts_with dp ''./.git'' \<or>
     is_infix ''graphify-out'' dp \<or> starts_with dp ''./.venv'' \<or> is_infix ''/.venv'' dp \<or>
     (starts_with dp ''./docs/'' \<and> \<not> is_infix ''graphify'' dp)"

definition extension :: "string \<Rightarrow> string" where
  \<comment> \<open>of a name that does not start with a dot\<close>
  "extension f = (if CHR ''.'' \<in> set f then CHR ''.'' # rev (takeWhile (\<lambda>c. c \<noteq> CHR ''.'') (rev f)) else [])"

definition source_exts :: "string list" where
  "source_exts = [''.py'', ''.go'', ''.c'', ''.h'', ''.proto'', ''.md'', ''.yaml'', ''.yml'']"

definition repo_source_files :: "(string \<times> string list) list \<Rightarrow> string list" where
  \<comment> \<open>the directories visited, each with its files\<close>
  "repo_source_files walk =
     concat (map (\<lambda>(dp, fs). if skipped_dir dp then []
        else map (\<lambda>f. dp @ ''/'' @ f) (filter (\<lambda>f. \<not> starts_with f ''.'' \<and> extension f \<in> set source_exts) fs)) walk)"

definition approx_tokens :: "string \<Rightarrow> nat" where
  "approx_tokens text = max 1 (length text div 4)"

definition grep_matches :: "string \<Rightarrow> (string \<times> string option) list \<Rightarrow> nat \<Rightarrow> (nat \<times> string \<times> string) list" where
  \<comment> \<open>paths with their text, \<open>None\<close> for one that cannot be read\<close>
  "grep_matches query files k =
     (let tokens = words (lower query);
          texts = map (\<lambda>(p, txt). (p, lower (the txt))) (filter (\<lambda>(p, txt). txt \<noteq> None) files)
      in take k (by_score (matching (\<lambda>(p, txt). sum_list (map (\<lambda>t. count_sub t txt) tokens)) texts)))"

definition baseline_estimate :: "(nat \<times> string \<times> string) list \<Rightarrow> nat \<times> nat" where
  "baseline_estimate ms = (sum_list (map (\<lambda>(score, path, txt). approx_tokens txt) ms) + 150, length ms)"

definition bench_window :: "string list \<Rightarrow> nat \<Rightarrow> string list" where
  "bench_window ls n = take (min (length ls) (n + 4) - (n - 5)) (drop (n - 5) ls)"

definition node_loc :: "graph_node \<Rightarrow> string" where
  "node_loc n = (if or_empty (gn_source_location n) \<noteq> [] then or_empty (gn_source_location n) else or_empty (gn_loc n))"

definition read_node :: "repo_files \<Rightarrow> nat \<times> string list \<Rightarrow> graph_node \<Rightarrow> nat \<times> string list" where
  \<comment> \<open>the loop body, on the tokens so far and the files seen\<close>
  "read_node files st n =
     (case st of (tokens, seen) \<Rightarrow>
        let sf = or_empty (gn_source_file n)
        in if sf = [] then (tokens, seen)
           else case files sf of
                  None \<Rightarrow> (tokens, seen)
                | Some ls \<Rightarrow>
                    if sf \<in> set seen then (tokens, seen)
                    else (tokens + approx_tokens (concat (bench_window ls (line_of (node_loc n)))), sf # seen))"

definition graph_estimate :: "string \<Rightarrow> graph_node list \<Rightarrow> repo_files \<Rightarrow> nat \<Rightarrow> nat \<times> nat" where
  "graph_estimate query nodes files k =
     (let scored = matching (\<lambda>n. bench_score n (words (lower query))) nodes
      in if scored = [] then (200, 0)
         else case foldl (read_node files) (0, []) (map snd (take k (by_score scored))) of
                (tokens, seen) \<Rightarrow> (tokens + 60, length seen))"

definition savings :: "nat \<Rightarrow> nat \<Rightarrow> real" where
  "savings baseline graph = (if baseline > 0 then 100 * (real baseline - real graph) / real baseline else 0)"

definition run_bench :: "string list \<Rightarrow> nat \<Rightarrow> graph_node list \<Rightarrow> (string \<times> string option) list \<Rightarrow> repo_files \<Rightarrow>
    nat \<times> (string \<times> nat \<times> nat \<times> real) list \<times> real" where
  \<comment> \<open>exit code, the rows of the summary and the average savings\<close>
  "run_bench queries k nodes texts files =
     (if nodes = [] then (2, [], 0)
      else let rows = map (\<lambda>q. let b = fst (baseline_estimate (grep_matches q texts k));
                                    g = fst (graph_estimate q nodes files k) in (q, b, g, savings b g)) queries
           in (0, rows, sum_list (map (\<lambda>(q, b, g, s). s) rows) / real (max 1 (length rows))))"

section \<open>The search\<close>

definition snippet :: "repo_files \<Rightarrow> string option \<Rightarrow> string \<Rightarrow> string list \<Rightarrow> py_err + (bool \<times> nat \<times> string) list option" where
  \<comment> \<open>\<open>pretty_snippet\<close>: the marked, numbered lines, \<open>None\<close> for a message that the file is missing. The
      replacement text of the highlighting is no valid template, so substituting raises\<close>
  "snippet files source_file loc tokens =
     (case source_file of
        None \<Rightarrow> Inl TypeError
      | Some sf \<Rightarrow> (case files sf of
            None \<Rightarrow> Inr None
          | Some ls \<Rightarrow>
              let n = line_of loc;
                  shown = map (\<lambda>i. (i + 1 = n, i + 1, rev (dropWhile (\<lambda>c. c = CHR 0x0A) (rev (ls ! i)))))
                            [n - 4..<min (length ls) (n + 3)]
              in if \<exists>(mark, i, text) \<in> set shown. \<exists>t \<in> set tokens. t \<noteq> [] \<and> is_infix t (lower text) then Inl RegexError
                 else Inr (Some shown)))"

definition scored_nodes :: "string \<Rightarrow> graph_node list \<Rightarrow> (nat \<times> graph_node) list" where
  "scored_nodes q nodes =
     (let scored = matching (\<lambda>n. query_score n (words (lower q))) nodes
      in by_score
          (if scored = []
           then map (\<lambda>n. (1, n)) (filter (\<lambda>n. is_infix (lower q) (lower (or_empty (gn_label n))) \<or>
                                               is_infix (lower q) (lower (or_empty (gn_source_file n)))) nodes)
           else scored))"

type_synonym hit = "nat \<times> graph_node \<times> (bool \<times> nat \<times> string) list option"

definition fallback_query :: "string \<Rightarrow> int \<Rightarrow> graph_node list option \<Rightarrow> repo_files \<Rightarrow> py_err + nat \<times> hit list" where
  \<comment> \<open>exit code and what is printed; \<open>limit\<close> is the option, where 0 means 10\<close>
  "fallback_query query limit graph files =
     (case graph of
        None \<Rightarrow> Inr (5, [])
      | Some nodes \<Rightarrow>
          let q = strip query;
              k = nat (max 1 (if limit = 0 then 10 else limit))
          in bindE (mapE (\<lambda>(s, n). bindE (snippet files (gn_source_file n) (or_empty (gn_source_location n)) (words (lower q)))
                                      (\<lambda>sn. Inr (s, n, sn)))
                      (take k (scored_nodes q nodes))) (\<lambda>hits.
               Inr (if hits = [] then 6 else 0, hits)))"

datatype query_command = Query string int | Path string string | Explain string

definition query_main :: "(query_command \<Rightarrow> nat) \<Rightarrow> graph_node list option \<Rightarrow> repo_files \<Rightarrow> query_command option \<Rightarrow> py_err + nat \<times> hit list" where
  \<comment> \<open>\<open>cli\<close> gives the exit code of the installed program, 2 if there is none\<close>
  "query_main cli graph files cmd =
     (case cmd of
        None \<Rightarrow> Inr (1, [])
      | Some c \<Rightarrow>
          if cli c = 0 then Inr (0, [])
          else case c of Query q limit \<Rightarrow> fallback_query q limit graph files | _ \<Rightarrow> Inr (7, []))"

section \<open>The pull-request summary\<close>

definition file_matches :: "string \<Rightarrow> string \<Rightarrow> bool" where
  \<comment> \<open>\<open>sf.endswith(cf) or cf in sf\<close>\<close>
  "file_matches sf cf \<longleftrightarrow> (length cf \<le> length sf \<and> drop (length sf - length cf) sf = cf) \<or> is_infix cf sf"

definition file_nodes :: "string list \<Rightarrow> graph_node list \<Rightarrow> string \<Rightarrow> graph_node list" where
  \<comment> \<open>the entry of \<open>file_nodes\<close> for a changed file after the double loop\<close>
  "file_nodes changed nodes cf =
     concat (map (\<lambda>n. concat (map (\<lambda>c. if c \<noteq> [] \<and> file_matches (or_empty (gn_source_file n)) c \<and> c = cf then [n] else []) changed)) nodes)"

definition load_changed :: "string list option \<Rightarrow> string list" where
  "load_changed ls = (case ls of None \<Rightarrow> [] | Some ls \<Rightarrow> filter (\<lambda>l. l \<noteq> []) (map strip ls))"

record pr_entry =
  pe_label :: string
  pe_file :: string
  pe_line :: nat

datatype pr_body =
    No_changes
  | No_graph
  | Summary nat nat "(string \<times> nat \<times> pr_entry list) list" \<comment> \<open>changed files, nodes, and the sections\<close>

definition pr_entry_of :: "string \<Rightarrow> graph_node \<Rightarrow> pr_entry" where
  "pr_entry_of cf n =
     \<lparr>pe_label = (if or_empty (gn_label n) \<noteq> [] then or_empty (gn_label n)
                  else if or_empty (gn_id n) \<noteq> [] then or_empty (gn_id n) else ''<unknown>''),
      pe_file = (if or_empty (gn_source_file n) \<noteq> [] then or_empty (gn_source_file n) else cf),
      pe_line = line_of (or_empty (gn_source_location n))\<rparr>"

definition pr_comment :: "string list option \<Rightarrow> graph_node list option \<Rightarrow> nat \<Rightarrow> nat \<times> pr_body" where
  \<comment> \<open>exit code and the body written; the arguments are the list of changed files, the graph and the limit\<close>
  "pr_comment changed_file graph k =
     (let changed = load_changed changed_file
      in if changed = [] then (0, No_changes)
         else case graph of
                None \<Rightarrow> (1, No_graph)
              | Some nodes \<Rightarrow>
                  (0, Summary (length changed) (sum_list (map (\<lambda>cf. length (file_nodes changed nodes cf)) (remdups changed)))
                        (map (\<lambda>cf. let ns = file_nodes changed nodes cf in (cf, length ns, map (pr_entry_of cf) (take k ns))) changed)))"

section \<open>Facts about texts\<close>

lemma is_infix_count: "t \<noteq> [] \<Longrightarrow> is_infix t s \<longleftrightarrow> 0 < count_sub t s"
  by (induction t s rule: count_sub.induct) auto

lemma is_infix_iff: "is_infix p s \<longleftrightarrow> (\<exists>a b. s = a @ p @ b)"
proof (induction p s rule: is_infix.induct)
  case (2 p c cs)
  have "take (length p) (c # cs) = p \<longleftrightarrow> (\<exists>b. c # cs = p @ b)" by (metis append_eq_conv_conj append_take_drop_id)
  moreover have "(\<exists>a b. c # cs = a @ p @ b) \<longleftrightarrow> (\<exists>b. c # cs = p @ b) \<or> (\<exists>a b. cs = a @ p @ b)"
    by (metis append_Cons append_Nil list.sel(3) tl_append2 list.exhaust_sel list.distinct(1))
  ultimately show ?case using 2 by simp
qed auto

lemma words_nonempty: "t \<in> set (words s) \<Longrightarrow> t \<noteq> []"
proof (induction s rule: words.induct)
  case (1 s)
  show ?case
  proof (cases "dropWhile (\<lambda>c. \<not> is_word c) s")
    case Nil
    show ?thesis using 1(2) unfolding words.simps[of s] Nil by simp
  next
    case (Cons c cs)
    show ?thesis using 1(1)[OF Cons] 1(2) unfolding words.simps[of s] Cons by auto
  qed
qed

lemma sorted_by_score: "sorted_wrt (\<ge>) (map fst (by_score xs))"
proof -
  have "sorted (map (\<lambda>p. - int (fst p)) (by_score xs))" by (simp add: by_score_def)
  then have "sorted_wrt (\<lambda>a b. - int (fst a) \<le> - int (fst b)) (by_score xs)" by (simp add: sorted_map)
  then show ?thesis by (simp add: sorted_wrt_map)
qed

lemma sorted_scored: "sorted_wrt (\<ge>) (map fst (scored_nodes q nodes))"
  unfolding scored_nodes_def Let_def by (rule sorted_by_score)

lemma by_score_set [simp]: "set (by_score xs) = set xs"
  by (simp add: by_score_def)

section \<open>Properties\<close>

text \<open>The two tools score a node alike, on the words of any query.\<close>
theorem scores_agree: "query_score n (words q) = bench_score n (words q)"
proof -
  have "(if is_infix t label then 4 * count_sub t label else 0) + (if is_infix t source then 2 * count_sub t source else 0)
      + (if is_infix t nid then count_sub t nid else 0) =
      (if t \<noteq> [] then 4 * count_sub t label + 2 * count_sub t source + count_sub t nid else 0)"
    if "t \<in> set (words q)" for t label source nid
    using words_nonempty[OF that] is_infix_count by auto
  then show ?thesis by (simp add: query_score_def bench_score_def Let_def cong: map_cong)
qed

text \<open>
  The search cannot show a hit: when a line of a snippet it would print contains a word of the query,
  the highlighting raises, and with it the whole command.
\<close>
theorem highlighted_hit_raises:
  assumes "(s, n) \<in> set (take (nat (max 1 (if limit = 0 then 10 else limit))) (scored_nodes (strip query) nodes))"
    and "gn_source_file n = Some sf" and "files sf = Some ls"
    and "line_of (or_empty (gn_source_location n)) - 4 \<le> i"
    and "i < length ls \<and> i < line_of (or_empty (gn_source_location n)) + 3"
    and "t \<in> set (words (lower (strip query)))"
    and "is_infix t (lower (rev (dropWhile (\<lambda>c. c = CHR 0x0A) (rev (ls ! i)))))"
  shows "\<exists>e. fallback_query query limit (Some nodes) files = Inl e"
proof -
  define tokens where "tokens = words (lower (strip query))"
  define show1 where "show1 = (\<lambda>(s :: nat, n :: graph_node). bindE (snippet files (gn_source_file n) (or_empty (gn_source_location n)) tokens) (\<lambda>sn. Inr (s, n, sn)))"
  have "t \<noteq> []" using words_nonempty assms(6) .
  then have "snippet files (gn_source_file n) (or_empty (gn_source_location n)) tokens = Inl RegexError"
    unfolding snippet_def Let_def tokens_def using assms(2-7) by (auto simp: image_iff intro!: bexI[of _ i])
  then have raises: "show1 (s, n) = Inl RegexError" by (simp add: show1_def)
  have "\<exists>e. mapE show1 xs = Inl e" if "(s, n) \<in> set xs" for xs
  proof (cases "mapE show1 xs")
    case (Inr ys)
    then have "list_all2 (\<lambda>x y. show1 x = Inr y) xs ys" by (simp add: mapE_Inr_iff)
    then show ?thesis using that raises by (auto simp: list_all2_conv_all_nth in_set_conv_nth)
  qed simp
  then obtain e where "mapE show1 (take (nat (max 1 (if limit = 0 then 10 else limit))) (scored_nodes (strip query) nodes)) = Inl e"
    using assms(1) by blast
  then show ?thesis by (simp add: fallback_query_def Let_def show1_def tokens_def)
qed

definition demo_node :: graph_node where
  "demo_node = \<lparr>gn_id = None, gn_label = Some ''ring'', gn_source_file = Some ''r.py'', gn_source_location = None, gn_loc = None\<rparr>"

lemma demo_words: "words ''ring'' = [''ring'']" "words ''::'' = []"
  by (simp_all add: words.simps is_word_def Let_def)

lemma demo_strip: "lower (strip ''ring'') = ''ring''" "strip ''ring'' = ''ring''"
  by (simp_all add: strip_def is_space_def lower_def lower_char_def Let_def)

lemma demo_scored: "scored_nodes ''ring'' [demo_node] = [(4, demo_node)]"
  by (simp add: scored_nodes_def matching_def demo_words lower_def lower_char_def Let_def query_score_def demo_node_def
      or_empty_def by_score_def)

lemma demo_node_sel: "gn_source_file demo_node = Some ''r.py''" "or_empty (gn_source_location demo_node) = []"
  by (simp_all add: demo_node_def or_empty_def)

theorem highlighted_hit_raises_witness:
  "\<exists>e. fallback_query ''ring'' 8 (Some [demo_node]) (\<lambda>p. Some [''class ring:'']) = Inl e"
  by (rule highlighted_hit_raises[of 4 demo_node _ _ _ "''r.py''" _ "[''class ring:'']" 0 "''ring''"])
    (simp_all add: demo_strip demo_scored demo_words demo_node_sel lower_def lower_char_def Let_def)

text \<open>
  Without an exception the search tells its outcome by the exit code: 5 without a graph, 6 exactly
  when no node matches, by a word or as a whole, and 0 with at least one hit and at most the limit,
  best score first.
\<close>
theorem search_exit_codes:
  assumes "fallback_query query limit graph files = Inr (code, hits)"
  shows "case graph of
      None \<Rightarrow> code = 5 \<and> hits = []
    | Some nodes \<Rightarrow>
        (code = 6 \<longleftrightarrow> scored_nodes (strip query) nodes = []) \<and> (code = 0 \<longleftrightarrow> hits \<noteq> []) \<and>
        map (\<lambda>(s, n, sn). (s, n)) hits = take (nat (max 1 (if limit = 0 then 10 else limit))) (scored_nodes (strip query) nodes) \<and>
        sorted_wrt (\<ge>) (map fst hits)"
proof (cases graph)
  case None
  then show ?thesis using assms by (simp add: fallback_query_def)
next
  case (Some nodes)
  define xs where "xs = take (nat (max 1 (if limit = 0 then 10 else limit))) (scored_nodes (strip query) nodes)"
  define sn where "sn = (\<lambda>n :: graph_node. snippet files (gn_source_file n) (or_empty (gn_source_location n)) (words (lower (strip query))))"
  have h: "mapE (\<lambda>(s, n). bindE (sn n) (\<lambda>v. Inr (s, n, v))) xs = Inr hits" "code = (if hits = [] then 6 else 0)"
    using assms Some by (auto simp: fallback_query_def Let_def xs_def sn_def bindE_Inr_iff)
  have "map (\<lambda>(s, n, v). (s, n)) ys = zs" if "mapE (\<lambda>(s, n). bindE (sn n) (\<lambda>v. Inr (s, n, v))) zs = Inr ys" for ys zs
    using that by (induction zs arbitrary: ys) (auto simp: bindE_Inr_iff)
  then have eq: "map (\<lambda>(s, n, v). (s, n)) hits = xs" using h(1) by blast
  then have "xs = [] \<longleftrightarrow> hits = []" by auto
  moreover have "xs = [] \<longleftrightarrow> scored_nodes (strip query) nodes = []" by (auto simp: xs_def)
  moreover have "sorted_wrt (\<ge>) (map fst hits)"
  proof -
    have "map fst hits = map fst xs" unfolding eq[symmetric] by (induction hits) auto
    also have "\<dots> = take (nat (max 1 (if limit = 0 then 10 else limit))) (map fst (scored_nodes (strip query) nodes))"
      by (simp add: xs_def take_map)
    finally show ?thesis by (simp only:) (intro sorted_wrt_take sorted_scored)
  qed
  ultimately show ?thesis using Some h(2) eq by (auto simp: xs_def)
qed

theorem search_exit_codes_witness:
  "fallback_query ''ring'' 8 (Some []) (\<lambda>p. None) = Inr (6, []) \<and> scored_nodes (strip ''ring'') [] = []"
proof -
  have e: "fallback_query ''ring'' 8 (Some []) (\<lambda>p. None) = Inr (6, [])"
    by (simp add: fallback_query_def scored_nodes_def matching_def by_score_def Let_def)
  show ?thesis using e search_exit_codes[OF e] by simp
qed

text \<open>
  A query without a word matches every node: the whole-text fallback finds the empty query in every
  label.
\<close>
theorem empty_query_lists_all:
  "scored_nodes [] nodes = map (\<lambda>n. (1, n)) nodes"
proof -
  have e: "words (lower []) = []" by (simp add: lower_def words.simps)
  have "filter (\<lambda>p. 0 < fst p) (map (\<lambda>x. (0 :: nat, x)) nodes) = []" by (simp add: filter_empty_conv)
  then have m: "matching (\<lambda>n. query_score n []) nodes = []" by (simp add: matching_def query_score_def Let_def)
  have "is_infix [] s" for s by (cases s) simp_all
  then have "scored_nodes [] nodes = by_score (map (\<lambda>n. (1, n)) nodes)"
    unfolding scored_nodes_def e Let_def m by (simp add: lower_def)
  also have "\<dots> = map (\<lambda>n. (1, n)) nodes"
    unfolding by_score_def by (rule sort_key_id_if_sorted) (simp add: comp_def sorted_map)
  finally show ?thesis .
qed

text \<open>
  The estimate counts each file once: the reported number of snippets is the number of distinct
  readable files among the best nodes, and the tokens are at least the overhead plus one per snippet.
\<close>
theorem estimate_counts_files_once:
  assumes "graph_estimate query nodes files k = (tokens, reads)"
    and "matching (\<lambda>n. bench_score n (words (lower query))) nodes \<noteq> []"
  shows "reads = card {sf. sf \<noteq> [] \<and> files sf \<noteq> None \<and>
      sf \<in> (\<lambda>p. or_empty (gn_source_file (snd p))) ` set (take k (by_score (matching (\<lambda>n. bench_score n (words (lower query))) nodes)))} \<and>
    60 + reads \<le> tokens"
proof -
  define top where "top = map snd (take k (by_score (matching (\<lambda>n. bench_score n (words (lower query))) nodes)))"
  define good where "good = (\<lambda>ns. {sf. sf \<noteq> [] \<and> files sf \<noteq> None \<and> sf \<in> (\<lambda>n. or_empty (gn_source_file n)) ` set (ns :: graph_node list)})"
  have step: "set (snd (read_node files st n)) = set (snd st) \<union> good [n] \<and>
      (distinct (snd st) \<longrightarrow> distinct (snd (read_node files st n))) \<and>
      (length (snd st) \<le> fst st \<longrightarrow> length (snd (read_node files st n)) \<le> fst (read_node files st n))" for st n
    by (cases st) (auto simp: read_node_def good_def Let_def approx_tokens_def split: option.splits)
  have "set (snd (foldl (read_node files) st ns)) = set (snd st) \<union> good ns \<and>
      (distinct (snd st) \<longrightarrow> distinct (snd (foldl (read_node files) st ns))) \<and>
      (length (snd st) \<le> fst st \<longrightarrow> length (snd (foldl (read_node files) st ns)) \<le> fst (foldl (read_node files) st ns))" for st ns
  proof (induction ns arbitrary: st)
    case Nil
    then show ?case by (simp add: good_def)
  next
    case (Cons n ns)
    have "good (n # ns) = good [n] \<union> good ns" by (auto simp: good_def)
    then show ?case using Cons[of "read_node files st n"] step[of st n] by auto
  qed
  from this[of "(0, [])" top] have fin: "set (snd (foldl (read_node files) (0, []) top)) = good top"
    "distinct (snd (foldl (read_node files) (0, []) top))"
    "length (snd (foldl (read_node files) (0, []) top)) \<le> fst (foldl (read_node files) (0, []) top)" by simp_all
  then have "length (snd (foldl (read_node files) (0, []) top)) = card (good top)" using distinct_card by metis
  moreover have "reads = length (snd (foldl (read_node files) (0, []) top))" "tokens = fst (foldl (read_node files) (0, []) top) + 60"
    using assms by (simp_all add: graph_estimate_def Let_def top_def split_beta)
  ultimately show ?thesis using fin(3) by (simp add: good_def top_def image_image)
qed

theorem estimate_counts_files_once_witness:
  "60 + snd (graph_estimate ''ring'' [demo_node] (\<lambda>p. None) 10) \<le> fst (graph_estimate ''ring'' [demo_node] (\<lambda>p. None) 10)"
proof -
  have "matching (\<lambda>n. bench_score n (words (lower ''ring''))) [demo_node] \<noteq> []"
    by (simp add: matching_def demo_words lower_def lower_char_def Let_def bench_score_def demo_node_def or_empty_def)
  then show ?thesis using estimate_counts_files_once[OF prod.collapse[symmetric]] by blast
qed

lemma suffix_is_infix: "length cf \<le> length sf \<Longrightarrow> drop (length sf - length cf) sf = cf \<Longrightarrow> is_infix cf sf"
  unfolding is_infix_iff by (metis append.right_neutral append_take_drop_id)

lemma length_file_nodes:
  "cf \<noteq> [] \<Longrightarrow> length (file_nodes changed nodes cf) =
     count_list changed cf * length (filter (\<lambda>n. is_infix cf (or_empty (gn_source_file n))) nodes)"
proof -
  assume cf: "cf \<noteq> []"
  have m: "file_matches sf cf \<longleftrightarrow> is_infix cf sf" for sf using suffix_is_infix by (auto simp: file_matches_def)
  define per where "per = (\<lambda>n :: graph_node. concat (map (\<lambda>c. if c \<noteq> [] \<and> file_matches (or_empty (gn_source_file n)) c \<and> c = cf then [n] else []) changed))"
  have "length (per n) = (if is_infix cf (or_empty (gn_source_file n)) then count_list changed cf else 0)" for n
    unfolding per_def using m cf by (induction changed) auto
  then have "length (concat (map per nodes)) = count_list changed cf * length (filter (\<lambda>n. is_infix cf (or_empty (gn_source_file n))) nodes)"
    by (induction nodes) simp_all
  then show ?thesis by (simp only: file_nodes_def per_def)
qed

text \<open>
  What the summary counts: a changed file is listed with the nodes whose source path contains its
  name anywhere, the test for a suffix adding nothing, once for every time the file is listed, and at
  most the limit of them is shown.
\<close>
theorem pr_summary_counts:
  assumes "pr_comment (Some ls) (Some nodes) k = (code, Summary c t secs)"
  shows "code = 0 \<and> c = length secs \<and> map fst secs = load_changed (Some ls) \<and>
    (\<forall>(cf, m, es) \<in> set secs.
       m = count_list (load_changed (Some ls)) cf * length (filter (\<lambda>n. is_infix cf (or_empty (gn_source_file n))) nodes) \<and>
       length es = min k m)"
proof -
  define ch where "ch = load_changed (Some ls)"
  have ne: "\<forall>cf \<in> set ch. cf \<noteq> []" by (simp add: ch_def load_changed_def)
  have p: "code = 0" "c = length ch"
    "secs = map (\<lambda>cf. (cf, length (file_nodes ch nodes cf), map (pr_entry_of cf) (take k (file_nodes ch nodes cf)))) ch"
    using assms by (auto simp: pr_comment_def ch_def[symmetric] Let_def split: if_splits)
  show ?thesis unfolding ch_def[symmetric] using p ne length_file_nodes by (auto simp: comp_def)
qed

theorem pr_summary_counts_witness:
  "fst (pr_comment (Some [''r.py'']) (Some [demo_node]) 5) = 0"
proof -
  obtain t secs where "pr_comment (Some [''r.py'']) (Some [demo_node]) 5 = (0, Summary 1 t secs)"
    by (simp add: pr_comment_def load_changed_def strip_def is_space_def Let_def)
  from pr_summary_counts[OF this] this show ?thesis by simp
qed

text \<open>
  What the walk leaves out is not what its comments say: everything under a directory whose name
  starts with \<open>.git\<close>, the workflows of \<open>.github\<close> included, is skipped, while the general documents
  that lie directly in \<open>docs\<close> are read.
\<close>
theorem walk_skips_github_keeps_docs:
  "skipped_dir (''./.github'' @ rest) \<and> repo_source_files [(''./docs'', [''guide.md''])] = [''./docs/guide.md'']"
  by (simp add: skipped_dir_def starts_with_def repo_source_files_def extension_def source_exts_def)

end
