(* ===== verification/Key_Check.thy ===== *)
theory Key_Check
  imports Omega_Prelude
begin

text \<open>
  The key validator \<open>tools/check_claude_key.py\<close>: the choice of the key, the two header styles tried in
  turn, and the exit codes. The answer to each request is a parameter.
\<close>

datatype key_answer =
    Accepted nat string \<comment> \<open>status and body\<close>
  | Http_error nat
  | No_answer \<comment> \<open>any other exception; reported with status 0\<close>

definition try_header :: "(string \<Rightarrow> string \<Rightarrow> key_answer) \<Rightarrow> string \<Rightarrow> string \<Rightarrow> bool \<times> nat" where
  \<comment> \<open>the header sent has the name and the key, the latter after \<open>Bearer\<close> for \<open>Authorization\<close>\<close>
  "try_header net key header_name =
     (case net header_name (if header_name = ''Authorization'' then ''Bearer '' @ key else key) of
        Accepted code body \<Rightarrow> (True, code)
      | Http_error code \<Rightarrow> (False, code)
      | No_answer \<Rightarrow> (False, 0))"

fun try_headers :: "(string \<Rightarrow> string \<Rightarrow> key_answer) \<Rightarrow> string \<Rightarrow> string list \<Rightarrow> nat \<times> (string \<times> nat) list" where
  \<comment> \<open>the loop of \<open>test_key\<close>: exit code, and the headers that were refused with their status\<close>
  "try_headers net key [] = (2, [])"
| "try_headers net key (h # hs) =
     (case try_header net key h of (ok, status) \<Rightarrow>
        if ok then (0, []) else (case try_headers net key hs of (code, tried) \<Rightarrow> (code, (h, status) # tried)))"

definition test_key :: "(string \<Rightarrow> string \<Rightarrow> key_answer) \<Rightarrow> string \<Rightarrow> nat \<times> (string \<times> nat) list" where
  "test_key net key = try_headers net key [''x-api-key'', ''Authorization'']"

definition first_nonempty :: "string option list \<Rightarrow> string" where
  \<comment> \<open>\<open>a or b or c\<close>\<close>
  "first_nonempty ks = (case filter (\<lambda>k. k \<noteq> None \<and> k \<noteq> Some []) ks of [] \<Rightarrow> [] | k # _ \<Rightarrow> the k)"

definition key_main :: "(string \<Rightarrow> string \<Rightarrow> key_answer) \<Rightarrow> string option \<Rightarrow> string option \<Rightarrow> string option \<Rightarrow> nat \<times> (string \<times> nat) list" where
  \<comment> \<open>the option and the two environment variables\<close>
  "key_main net arg anthropic claude =
     (let key = first_nonempty [arg, anthropic, claude]
      in if key = [] then (3, []) else test_key net key)"

text \<open>
  The validator accepts a key exactly when one of the two header styles is accepted, and it tries
  the second after any failure of the first: a missing network does not end it early.
\<close>
theorem key_accepted_iff:
  assumes "first_nonempty [arg, anthropic, claude] = key" and "key \<noteq> []"
  shows "(fst (key_main net arg anthropic claude) = 0 \<longleftrightarrow>
      (\<exists>code body. net ''x-api-key'' key = Accepted code body) \<or>
      (\<exists>code body. net ''Authorization'' (''Bearer '' @ key) = Accepted code body)) \<and>
    fst (key_main net arg anthropic claude) \<in> {0, 2} \<and>
    (net ''x-api-key'' key = No_answer \<and> net ''Authorization'' (''Bearer '' @ key) = No_answer \<longrightarrow>
      key_main net arg anthropic claude = (2, [(''x-api-key'', 0), (''Authorization'', 0)]))"
  using assms by (auto simp: key_main_def test_key_def try_header_def Let_def split: key_answer.splits)

theorem key_accepted_iff_witness:
  "fst (key_main (\<lambda>h v. if h = ''Authorization'' then Accepted 200 [] else No_answer) None (Some []) (Some ''k'')) = 0"
  using key_accepted_iff[of None "Some []" "Some ''k''" "''k''" "\<lambda>h v. if h = ''Authorization'' then Accepted 200 [] else No_answer"]
  by (simp add: first_nonempty_def)

end
