(* ===== verification/Spec2Isabelle.thy ===== *)
theory Spec2Isabelle
  imports Hash_Ring Token_Bucket Cbf_Projection Weight_Stage Kan_Inference Safety_Monitor
    Metrics_Store Health_Check Proactive Rate_Adjuster Ip_Address Admin_Guard Py_Value
    Admin_Handler Proxy_Core Proxy_Requests Config_Loader Sim_Env Kan_Layer Ppo_Core Dqn_Training
    Demo_Backend Load_Generator Demo_Run Dashboard_Sim Dashboard_View Observability Desktop_App
    Dashboard_Page Obs_Smoke Dispatch Event_Loop Admin_Steps Proxy_Life Bench_Harness Policy_Nets
    Train_Loops State_Gap Alert_Sink Graph_Tools Key_Check
begin

text \<open>
  Omega-LB: a verified model of the Python part of the load balancer.

  \<^bold>\<open>The program.\<close> \<open>demo/proxy.py\<close> is a reverse proxy. A request is hashed
  (\<open>murmur3_32\<close>) and routed on a ring of virtual nodes (\<open>HAring\<close>); it may be retried once on another
  backend. Around the ring run three activities that share one metrics store
  (\<open>demo/metrics_store.py\<close>): a health checker that takes backends out after three failed probes, an
  aggregation tick that turns the sliding windows into histories, and a control loop that asks the
  KAN policy (\<open>ml/kan/kan_inference.py\<close>) for weights, projects them with the safety layer
  (\<open>ml/cbf/cbf_runtime.py\<close>), resizes the virtual nodes, sheds load proactively and adjusts the rate
  limits. An admin endpoint kills and revives backends. The settings come from \<open>omega-lb.yaml\<close>, which
  the desktop application edits (\<open>desktop/omegalb_desktop.py\<close>). The policies are trained by
  \<open>ml/ppo/train_ppo_kan.py\<close> and \<open>ml/dqn_a3c/train_dqn_a3c.py\<close> on a simulator
  (\<open>ml/simulation/lb_env.py\<close>) and compared by \<open>bench/benchmark.py\<close>. The dashboard
  (\<open>dashboard/app.py\<close>) shows the proxy's snapshot or, without one, a simulation of its own.

  \<^bold>\<open>Conventions.\<close> Definitions keep the names of the source. A class is a record, a method a
  function that returns the updated record; an exception is a value of \<open>py_err\<close> on the left of a
  sum. Dictionaries are association lists where order or duplicates matter and maps otherwise.
  Python and numpy floats are reals; integers are unbounded, as in Python, and the 32-bit
  arithmetic of the hash is written out and proved equal to words. What a definition draws at
  random, reads from a clock, a file, the network or a library outside the repository (the ONNX
  session, the neural networks and their optimiser, the YAML parser, the HTTP router) is an argument. Each lock of the
  source makes one definition one atomic step; interleavings are sequences of these steps.

  \<^bold>\<open>Theories.\<close>
  \<^item> \<open>Omega_Prelude\<close>: errors, Python indexing and integer conversion, numpy vectors, histories,
    probability vectors, and the lemmas on them that all parts share.
  \<^item> \<open>Murmur_Hash\<close>, \<open>Hash_Ring\<close>: \<open>_murmur3_32\<close> and \<open>HAring\<close>. The ring is refined to a set of
    points: routing is clockwise placement; failover and resizing move only the keys they must.
  \<^item> \<open>Token_Bucket\<close>: \<open>TokenBucket\<close>; a bound on what any run of operations can grant.
  \<^item> \<open>Cbf_Projection\<close>, \<open>Safety_Monitor\<close>: \<open>CBFProjector\<close> and \<open>SafetyMonitor\<close>; the simplex routine
    returns the nearest probability vector, the projection's result, budget and limits, the
    monitor's invariant.
  \<^item> \<open>Kan_Inference\<close>, \<open>Weight_Stage\<close>: \<open>KANInference\<close> and the conversion of weights to virtual nodes.
  \<^item> \<open>Metrics_Store\<close>, \<open>Health_Check\<close>, \<open>Proactive\<close>, \<open>Rate_Adjuster\<close>: \<open>MetricsStore\<close>,
    \<open>HealthChecker\<close>, \<open>ProactiveController\<close>, \<open>DQNRateAdjuster\<close>, each with the invariant its operations
    keep and what they compute.
  \<^item> \<open>Ip_Address\<close>, \<open>Admin_Guard\<close>, \<open>Py_Value\<close>, \<open>Admin_Handler\<close>: the allowlist, the rate limiter and
    the token of the admin path, JSON and YAML values, and the admin handler.
  \<^item> \<open>Proxy_Core\<close>, \<open>Proxy_Requests\<close>: the proxy as a whole: one control iteration, and the life of a
    request cut at the points where its coroutine waits. \<open>Admin_Steps\<close> cuts the admin handler in the same way
    and shows that the stages in a row are the handler. \<open>Event_Loop\<close> is the step relation in which the stages of
    requests and admin calls, the probe of one backend after the other, control iterations and
    ticks interleave: in-flight counters are exact, no task can die of an exception, and once
    nothing new arrives the pending work, a number, goes down to none. An aggregation tick is one step although
    its thread may run between the reads of a control iteration, which see either side of it.
    \<open>Dispatch\<close> adds the route tables and the forwarded request,
    and runs the proxy against the demo backends: every request is answered, and a POST to \<open>/_admin\<close>
    reaches a backend around the guard. \<open>Proxy_Life\<close> is the process from start-up to shutdown: the
    client session outlives the handlers that use it.
  \<^item> \<open>Config_Loader\<close>: \<open>_load_config\<close> and the settings read from it at import.
  \<^item> \<open>Sim_Env\<close>, \<open>Kan_Layer\<close>, \<open>Policy_Nets\<close>, \<open>Ppo_Core\<close>, \<open>Dqn_Training\<close>, \<open>Train_Loops\<close>: the simulator, the
    B-spline actor, the other networks and the losses, the PPO and DQN/A3C trainers and their entry
    points. \<open>State_Gap\<close> compares the observation of training with the vector of inference, and
    \<open>Bench_Harness\<close> is the benchmark.
  \<^item> \<open>Demo_Backend\<close>, \<open>Load_Generator\<close>, \<open>Demo_Run\<close>: the demo.
  \<^item> \<open>Dashboard_Sim\<close>, \<open>Dashboard_View\<close>, \<open>Dashboard_Page\<close>: the dashboard's simulation, its data layer
    and indicators, and one run of the script as a page of values and labels, which is complete for up
    to eight targets and ends in an exception beyond. \<open>Observability\<close> and \<open>Obs_Smoke\<close>: the
    exporters and the script that checks them end to end.
  \<^item> \<open>Desktop_App\<close>: wiring table, configuration file, probes, stack and watchdog.
  \<^item> \<open>Alert_Sink\<close>, \<open>Graph_Tools\<close>, \<open>Key_Check\<close>: the scripts and tools beside the balancer.

  \<^bold>\<open>Interfaces.\<close> Each locale states what a client relies on and is interpreted on the model's own
  definitions by the theory that provides them, for example a metered operation sequence by the
  token bucket. The step relations of the event loop and of the process are instances of
  one locale, \<open>invariant_system\<close>, whose rule carries an invariant to the reachable states.

  \<^bold>\<open>Loops.\<close> Every loop of the source is a total function: structural recursion on its range or
  data, or a measure (the binary search of \<open>route\<close>, the block loop of the hash). The A3C worker's
  loop, whose length depends on the samples, has its step budget as the measure; the theorem that
  it ends within twenty steps of the budget needs no fuel. The outer loop of PPO may run for ever: it is
  a partial function into options, with a theorem that says exactly when it returns.

  \<^bold>\<open>Not modelled.\<close> Rounding of floats; sockets, TLS contexts and process creation (signals are
  events of \<open>Proxy_Life\<close>); gradients, optimisers and what the training libraries write to disk; HTML, styling
  and the drawing of charts; the widgets of the desktop application; log texts except where a property is about them; the
  Go control plane (but for the hash the comments compare with), the eBPF programs, deployment files
  and the web site, which are other programs in other languages.
\<close>

end
